theory Spec2Isabelle
  imports Main
begin

section \<open>Raw storage, object lifetimes and the element type\<close>

text \<open>
  The container of \<^verbatim>\<open>vector.h\<close> places and removes objects by hand in memory it obtains from
  \<^verbatim>\<open>operator new\<close>.  The model keeps that memory explicit.  A block is a list of slots; a slot
  is either raw bytes or holds a constructed object.  A pointer \<^verbatim>\<open>T*\<close> is the block it points
  into (\<open>None\<close> for \<^verbatim>\<open>nullptr\<close>) together with an element offset.  Block addresses are never
  reused, so a dangling address is always recognisable.
\<close>

type_synonym addr = nat

type_synonym ptr = "addr option \<times> nat"

datatype 'a slot = Raw | Obj 'a

text \<open>
  Every allocation, deallocation, constructor call, assignment and destructor call is appended
  to a log, in program order.  The local \<^verbatim>\<open>T temp\<close> of \<^verbatim>\<open>EmplaceWithoutRelocate\<close> lives on the
  stack and has events of its own.
\<close>

datatype event =
    NewBlock addr nat
  | DeleteBlock addr
  | Construct ptr
  | CopyConstruct ptr ptr
  | MoveConstruct ptr ptr
  | CopyAssign ptr ptr
  | MoveAssign ptr ptr
  | Destroy ptr
  | TempConstruct
  | TempMoveAssign ptr
  | TempDestroy

text \<open>
  What C++ leaves undefined or silently leaks is recorded instead of hidden: a destructor run
  where no object lives, an object constructed over a live one or outside any block, a block
  deleted while objects in it are still alive (with their number), a delete of something that
  is not a block.
\<close>

datatype violation =
    NoObject ptr
  | Overwritten ptr
  | OutOfStorage ptr
  | DeletedWithLive addr nat
  | BadDelete addr

datatype err = bad_alloc | element_exception | precondition_violation

datatype 'r outcome = Returns 'r | Throws err

record 'a world =
  heap :: "'a slot list option list"
  log :: "event list"
  violations :: "violation list"

text \<open>
  The template parameter \<^verbatim>\<open>T\<close> and the global allocator.  The two traits are the ones
  \<^verbatim>\<open>SafetyMoveOrCopy\<close> inspects.  Whether a constructor or an assignment throws may depend on
  everything that happened before (the log) and on the values involved; so may
  \<^verbatim>\<open>operator new\<close>.  An operation that does not throw transfers the value; \<open>moved_from\<close> is the
  state a move leaves its source in.  An operation that throws leaves its operands as they
  were.  \<open>sizeof_T\<close> is \<^verbatim>\<open>sizeof(T)\<close>.
\<close>

record 'a env =
  is_nothrow_move_constructible :: bool
  is_copy_constructible :: bool
  copy_ctor_throws :: "event list \<Rightarrow> 'a \<Rightarrow> bool"
  move_ctor_throws :: "event list \<Rightarrow> 'a \<Rightarrow> bool"
  copy_assign_throws :: "event list \<Rightarrow> 'a \<Rightarrow> 'a \<Rightarrow> bool"
  move_assign_throws :: "event list \<Rightarrow> 'a \<Rightarrow> 'a \<Rightarrow> bool"
  moved_from :: "'a \<Rightarrow> 'a"
  operator_new_throws :: "event list \<Rightarrow> nat \<Rightarrow> bool"
  sizeof_T :: nat

text \<open>The arguments of \<^verbatim>\<open>Emplace\<close>: a \<^verbatim>\<open>const T&\<close>, a \<^verbatim>\<open>T&&\<close>, or arguments of some other
  constructor, given by what that constructor does (\<open>None\<close>: it throws).\<close>

datatype 'a ctor_args = CopyFrom 'a | MoveFrom 'a | Direct "'a option"

text \<open>The right-hand side of an assignment: the object itself or another one
  (\<^verbatim>\<open>this != &rhs\<close>).\<close>

datatype 'v operand = Self | Other 'v

subsection \<open>Pointers and slots\<close>

definition ptr_add :: "ptr \<Rightarrow> nat \<Rightarrow> ptr" where
  "ptr_add p n = (fst p, snd p + n)"

definition ptr_sub :: "ptr \<Rightarrow> nat \<Rightarrow> ptr" where
  "ptr_sub p n = (fst p, snd p - n)"

text \<open>\<^verbatim>\<open>p - q\<close> as a \<^verbatim>\<open>size_t\<close>: defined only inside one array and when \<open>q\<close> does not lie
  behind \<open>p\<close>.\<close>

definition ptr_diff :: "ptr \<Rightarrow> ptr \<Rightarrow> nat option" where
  "ptr_diff p q = (if fst p = fst q \<and> snd q \<le> snd p then Some (snd p - snd q) else None)"

definition block_at :: "'a world \<Rightarrow> addr \<Rightarrow> 'a slot list option" where
  "block_at w a = (if a < length (heap w) then heap w ! a else None)"

definition slot_at :: "'a world \<Rightarrow> ptr \<Rightarrow> 'a slot option" where
  "slot_at w p =
     (case fst p of
        None \<Rightarrow> None
      | Some a \<Rightarrow>
          (case block_at w a of
             None \<Rightarrow> None
           | Some b \<Rightarrow> if snd p < length b then Some (b ! snd p) else None))"

definition obj_at :: "'a world \<Rightarrow> ptr \<Rightarrow> 'a option" where
  "obj_at w p = (case slot_at w p of Some (Obj x) \<Rightarrow> Some x | _ \<Rightarrow> None)"

definition put_slot :: "ptr \<Rightarrow> 'a slot \<Rightarrow> 'a world \<Rightarrow> 'a world" where
  "put_slot p s w =
     (case fst p of
        None \<Rightarrow> w
      | Some a \<Rightarrow>
          (case block_at w a of
             None \<Rightarrow> w
           | Some b \<Rightarrow> w\<lparr>heap := (heap w)[a := Some (b[snd p := s])]\<rparr>))"

definition logged :: "event \<Rightarrow> 'a world \<Rightarrow> 'a world" where
  "logged ev w = w\<lparr>log := log w @ [ev]\<rparr>"

definition flag :: "violation \<Rightarrow> 'a world \<Rightarrow> 'a world" where
  "flag v w = w\<lparr>violations := violations w @ [v]\<rparr>"

text \<open>Placement new of an object with value \<open>x\<close> at \<open>p\<close>, logged as \<open>ev\<close>.\<close>

definition construct_at :: "ptr \<Rightarrow> 'a \<Rightarrow> event \<Rightarrow> 'a world \<Rightarrow> 'a world" where
  "construct_at p x ev w =
     logged ev
       (case slot_at w p of
          None \<Rightarrow> flag (OutOfStorage p) w
        | Some Raw \<Rightarrow> put_slot p (Obj x) w
        | Some (Obj y) \<Rightarrow> flag (Overwritten p) (put_slot p (Obj x) w))"

text \<open>A destructor call at \<open>p\<close>.  Destructors do not throw.\<close>

definition destroy_at :: "ptr \<Rightarrow> 'a world \<Rightarrow> 'a world" where
  "destroy_at p w =
     logged (Destroy p)
       (case slot_at w p of
          Some (Obj y) \<Rightarrow> put_slot p Raw w
        | _ \<Rightarrow> flag (NoObject p) w)"

text \<open>\<^verbatim>\<open>*dst = *src\<close> and \<^verbatim>\<open>*dst = std::move(*src)\<close> on two live objects.\<close>

definition copy_assign_at :: "'a env \<Rightarrow> ptr \<Rightarrow> ptr \<Rightarrow> 'a world \<Rightarrow> unit outcome \<times> 'a world" where
  "copy_assign_at e dst src w =
     (case (obj_at w dst, obj_at w src) of
        (Some y, Some x) \<Rightarrow>
          if copy_assign_throws e (log w) y x then (Throws element_exception, w)
          else (Returns (), logged (CopyAssign dst src) (put_slot dst (Obj x) w))
      | _ \<Rightarrow> (Throws precondition_violation, w))"

definition move_assign_at :: "'a env \<Rightarrow> ptr \<Rightarrow> ptr \<Rightarrow> 'a world \<Rightarrow> unit outcome \<times> 'a world" where
  "move_assign_at e dst src w =
     (case (obj_at w dst, obj_at w src) of
        (Some y, Some x) \<Rightarrow>
          if move_assign_throws e (log w) y x then (Throws element_exception, w)
          else (Returns (),
                logged (MoveAssign dst src)
                  (put_slot src (Obj (moved_from e x)) (put_slot dst (Obj x) w)))
      | _ \<Rightarrow> (Throws precondition_violation, w))"

subsection \<open>The standard algorithms the container calls\<close>

text \<open>\<^verbatim>\<open>std::destroy_n(first, n)\<close>.\<close>

fun destroy_n :: "ptr \<Rightarrow> nat \<Rightarrow> 'a world \<Rightarrow> 'a world" where
  "destroy_n first 0 w = w"
| "destroy_n first (Suc n) w = destroy_n (ptr_add first 1) n (destroy_at first w)"

text \<open>\<^verbatim>\<open>new (dst) T(*src)\<close> and \<^verbatim>\<open>new (dst) T(std::move(*src))\<close>.\<close>

definition copy_construct_at ::
  "'a env \<Rightarrow> ptr \<Rightarrow> ptr \<Rightarrow> 'a world \<Rightarrow> unit outcome \<times> 'a world" where
  "copy_construct_at e dst src w =
     (case obj_at w src of
        None \<Rightarrow> (Throws precondition_violation, w)
      | Some x \<Rightarrow>
          if copy_ctor_throws e (log w) x then (Throws element_exception, w)
          else (Returns (), construct_at dst x (CopyConstruct dst src) w))"

definition move_construct_at ::
  "'a env \<Rightarrow> ptr \<Rightarrow> ptr \<Rightarrow> 'a world \<Rightarrow> unit outcome \<times> 'a world" where
  "move_construct_at e dst src w =
     (case obj_at w src of
        None \<Rightarrow> (Throws precondition_violation, w)
      | Some x \<Rightarrow>
          if move_ctor_throws e (log w) x then (Throws element_exception, w)
          else (Returns (),
                put_slot src (Obj (moved_from e x))
                  (construct_at dst x (MoveConstruct dst src) w)))"

text \<open>
  \<^verbatim>\<open>std::uninitialized_copy_n(first, n, d_first)\<close>: copy-constructs into raw storage; when a
  constructor throws, the objects constructed so far, \<open>[d_first, current)\<close>, are destroyed and
  the exception is rethrown.
\<close>

fun uninit_copy_loop ::
  "'a env \<Rightarrow> ptr \<Rightarrow> ptr \<Rightarrow> ptr \<Rightarrow> nat \<Rightarrow> 'a world \<Rightarrow> unit outcome \<times> 'a world" where
  "uninit_copy_loop e first d_first current 0 w = (Returns (), w)"
| "uninit_copy_loop e first d_first current (Suc n) w =
     (case copy_construct_at e current first w of
        (Throws x, w') \<Rightarrow> (Throws x, destroy_n d_first (snd current - snd d_first) w')
      | (Returns u, w') \<Rightarrow>
          uninit_copy_loop e (ptr_add first 1) d_first (ptr_add current 1) n w')"

definition uninitialized_copy_n ::
  "'a env \<Rightarrow> ptr \<Rightarrow> nat \<Rightarrow> ptr \<Rightarrow> 'a world \<Rightarrow> unit outcome \<times> 'a world" where
  "uninitialized_copy_n e first n d_first w = uninit_copy_loop e first d_first d_first n w"

text \<open>\<^verbatim>\<open>std::uninitialized_move_n(first, n, d_first)\<close>: the same with the move constructor;
  each source is left moved-from.\<close>

fun uninit_move_loop ::
  "'a env \<Rightarrow> ptr \<Rightarrow> ptr \<Rightarrow> ptr \<Rightarrow> nat \<Rightarrow> 'a world \<Rightarrow> unit outcome \<times> 'a world" where
  "uninit_move_loop e first d_first current 0 w = (Returns (), w)"
| "uninit_move_loop e first d_first current (Suc n) w =
     (case move_construct_at e current first w of
        (Throws x, w') \<Rightarrow> (Throws x, destroy_n d_first (snd current - snd d_first) w')
      | (Returns u, w') \<Rightarrow>
          uninit_move_loop e (ptr_add first 1) d_first (ptr_add current 1) n w')"

definition uninitialized_move_n ::
  "'a env \<Rightarrow> ptr \<Rightarrow> nat \<Rightarrow> ptr \<Rightarrow> 'a world \<Rightarrow> unit outcome \<times> 'a world" where
  "uninitialized_move_n e first n d_first w = uninit_move_loop e first d_first d_first n w"

text \<open>\<^verbatim>\<open>std::copy_n(first, n, result)\<close>: element-wise copy assignment, front to back.\<close>

fun copy_n :: "'a env \<Rightarrow> ptr \<Rightarrow> nat \<Rightarrow> ptr \<Rightarrow> 'a world \<Rightarrow> unit outcome \<times> 'a world" where
  "copy_n e first 0 result w = (Returns (), w)"
| "copy_n e first (Suc n) result w =
     (case copy_assign_at e result first w of
        (Throws x, w') \<Rightarrow> (Throws x, w')
      | (Returns u, w') \<Rightarrow> copy_n e (ptr_add first 1) n (ptr_add result 1) w')"

text \<open>\<^verbatim>\<open>std::move(first, last, d_first)\<close>: element-wise move assignment, front to back.\<close>

fun move_loop :: "'a env \<Rightarrow> ptr \<Rightarrow> nat \<Rightarrow> ptr \<Rightarrow> 'a world \<Rightarrow> unit outcome \<times> 'a world" where
  "move_loop e first 0 d_first w = (Returns (), w)"
| "move_loop e first (Suc n) d_first w =
     (case move_assign_at e d_first first w of
        (Throws x, w') \<Rightarrow> (Throws x, w')
      | (Returns u, w') \<Rightarrow> move_loop e (ptr_add first 1) n (ptr_add d_first 1) w')"

definition std_move ::
  "'a env \<Rightarrow> ptr \<Rightarrow> ptr \<Rightarrow> ptr \<Rightarrow> 'a world \<Rightarrow> unit outcome \<times> 'a world" where
  "std_move e first last_it d_first w =
     (case ptr_diff last_it first of
        None \<Rightarrow> (Throws precondition_violation, w)
      | Some n \<Rightarrow> move_loop e first n d_first w)"

text \<open>\<^verbatim>\<open>std::move_backward(first, last, d_last)\<close>: element-wise move assignment, back to
  front: \<^verbatim>\<open>*(--d_last) = std::move(*(--last))\<close>.\<close>

fun move_backward_loop ::
  "'a env \<Rightarrow> ptr \<Rightarrow> nat \<Rightarrow> ptr \<Rightarrow> 'a world \<Rightarrow> unit outcome \<times> 'a world" where
  "move_backward_loop e last_it 0 d_last w = (Returns (), w)"
| "move_backward_loop e last_it (Suc n) d_last w =
     (case move_assign_at e (ptr_sub d_last 1) (ptr_sub last_it 1) w of
        (Throws x, w') \<Rightarrow> (Throws x, w')
      | (Returns u, w') \<Rightarrow> move_backward_loop e (ptr_sub last_it 1) n (ptr_sub d_last 1) w')"

definition move_backward ::
  "'a env \<Rightarrow> ptr \<Rightarrow> ptr \<Rightarrow> ptr \<Rightarrow> 'a world \<Rightarrow> unit outcome \<times> 'a world" where
  "move_backward e first last_it d_last w =
     (case ptr_diff last_it first of
        None \<Rightarrow> (Throws precondition_violation, w)
      | Some n \<Rightarrow> move_backward_loop e last_it n d_last w)"

section \<open>RawMemory\<close>

record RawMemory =
  buffer_m :: "addr option"
  capacity_m :: nat

text \<open>
  \<^verbatim>\<open>size_t\<close> has 64 bits.  A product of two \<^verbatim>\<open>size_t\<close> is computed modulo \<open>2 ^ 64\<close>.
\<close>

definition SIZE_MAX :: nat where
  "SIZE_MAX = 2 ^ 64 - 1"

definition size_t_mul :: "nat \<Rightarrow> nat \<Rightarrow> nat" where
  "size_t_mul a b = nat (take_bit 64 (int a * int b))"

text \<open>
  \<^verbatim>\<open>Allocate\<close>: \<^verbatim>\<open>n != 0 ? operator new(n * sizeof(T)) : nullptr\<close>.  The number of bytes asked for
  is the product as \<^verbatim>\<open>size_t\<close> computes it, with no check that it did not wrap around; the new
  block consists of as many raw slots as that many bytes have room for.  The event records
  the \<open>n\<close> the block was asked for.
\<close>

definition Allocate :: "'a env \<Rightarrow> nat \<Rightarrow> 'a world \<Rightarrow> addr option outcome \<times> 'a world" where
  "Allocate e n w =
     (if n \<noteq> 0
      then (if operator_new_throws e (log w) n then (Throws bad_alloc, w)
            else (Returns (Some (length (heap w))),
                  logged (NewBlock (length (heap w)) n)
                    (w\<lparr>heap := heap w
                         @ [Some (replicate (size_t_mul n (sizeof_T e) div sizeof_T e) Raw)]\<rparr>)))
      else (Returns None, w))"

definition live_count :: "'a slot list \<Rightarrow> nat" where
  "live_count b = length (filter (\<lambda>s. s \<noteq> Raw) b)"

text \<open>\<^verbatim>\<open>Deallocate\<close>: \<^verbatim>\<open>operator delete(buf)\<close>, which does nothing for \<^verbatim>\<open>nullptr\<close> and runs no
  destructor.\<close>

definition Deallocate :: "addr option \<Rightarrow> 'a world \<Rightarrow> 'a world" where
  "Deallocate buf w =
     (case buf of
        None \<Rightarrow> w
      | Some a \<Rightarrow>
          (case block_at w a of
             None \<Rightarrow> flag (BadDelete a) w
           | Some b \<Rightarrow>
               logged (DeleteBlock a)
                 ((if live_count b = 0 then w else flag (DeletedWithLive a (live_count b)) w)
                    \<lparr>heap := (heap w)[a := None]\<rparr>)))"

definition RawMemory_default :: RawMemory where
  "RawMemory_default = \<lparr>buffer_m = None, capacity_m = 0\<rparr>"

definition RawMemory_sized :: "'a env \<Rightarrow> nat \<Rightarrow> 'a world \<Rightarrow> RawMemory outcome \<times> 'a world" where
  "RawMemory_sized e capacity w =
     (case Allocate e capacity w of
        (Throws x, w') \<Rightarrow> (Throws x, w')
      | (Returns b, w') \<Rightarrow> (Returns \<lparr>buffer_m = b, capacity_m = capacity\<rparr>, w'))"

text \<open>The move constructor: the new object, and what is left of \<open>other\<close>.\<close>

definition RawMemory_move :: "RawMemory \<Rightarrow> RawMemory \<times> RawMemory" where
  "RawMemory_move other =
     (\<lparr>buffer_m = buffer_m other, capacity_m = capacity_m other\<rparr>, \<lparr>buffer_m = None, capacity_m = 0\<rparr>)"

text \<open>Move assignment: the object, what is left of \<open>rhs\<close>, and the memory.\<close>

definition RawMemory_move_assign ::
  "RawMemory \<Rightarrow> RawMemory operand \<Rightarrow> 'a world \<Rightarrow> RawMemory \<times> RawMemory operand \<times> 'a world" where
  "RawMemory_move_assign this rhs w =
     (case rhs of
        Self \<Rightarrow> (this, Self, w)
      | Other r \<Rightarrow>
          (\<lparr>buffer_m = buffer_m r, capacity_m = capacity_m r\<rparr>,
           Other \<lparr>buffer_m = None, capacity_m = 0\<rparr>,
           Deallocate (buffer_m this) w))"

definition RawMemory_destroy :: "RawMemory \<Rightarrow> 'a world \<Rightarrow> 'a world" where
  "RawMemory_destroy this w = Deallocate (buffer_m this) w"

text \<open>\<^verbatim>\<open>operator+\<close> and \<^verbatim>\<open>operator[]\<close> with their assertions.\<close>

definition RawMemory_plus :: "RawMemory \<Rightarrow> nat \<Rightarrow> ptr option" where
  "RawMemory_plus this offset =
     (if offset \<le> capacity_m this then Some (buffer_m this, offset) else None)"

definition RawMemory_at :: "RawMemory \<Rightarrow> nat \<Rightarrow> ptr option" where
  "RawMemory_at this index =
     (if index < capacity_m this then Some (buffer_m this, index) else None)"

definition RawMemory_Swap :: "RawMemory \<Rightarrow> RawMemory \<Rightarrow> RawMemory \<times> RawMemory" where
  "RawMemory_Swap this other =
     (\<lparr>buffer_m = buffer_m other, capacity_m = capacity_m other\<rparr>,
      \<lparr>buffer_m = buffer_m this, capacity_m = capacity_m this\<rparr>)"

definition GetAddress :: "RawMemory \<Rightarrow> ptr" where
  "GetAddress this = (buffer_m this, 0)"

section \<open>Vector\<close>

record Vector =
  data_m :: RawMemory
  size_m :: nat

text \<open>A member function returns its outcome, the object afterwards and the memory afterwards;
  an exception does not undo what was done before it was thrown.\<close>

definition Vector_default :: Vector where
  "Vector_default = \<lparr>data_m = RawMemory_default, size_m = 0\<rparr>"

definition Vector_begin :: "Vector \<Rightarrow> ptr" where
  "Vector_begin this = GetAddress (data_m this)"

definition Vector_end :: "Vector \<Rightarrow> ptr" where
  "Vector_end this = ptr_add (Vector_begin this) (size_m this)"

definition Size :: "Vector \<Rightarrow> nat" where
  "Size this = size_m this"

definition Capacity :: "Vector \<Rightarrow> nat" where
  "Capacity this = capacity_m (data_m this)"

text \<open>\<^verbatim>\<open>operator[]\<close>, with the assertions of the vector and of its memory.\<close>

definition Vector_at :: "Vector \<Rightarrow> nat \<Rightarrow> ptr option" where
  "Vector_at this index = (if index < size_m this then RawMemory_at (data_m this) index else None)"

definition SafetyMoveOrCopy ::
  "'a env \<Rightarrow> ptr \<Rightarrow> ptr \<Rightarrow> nat \<Rightarrow> 'a world \<Rightarrow> unit outcome \<times> 'a world" where
  "SafetyMoveOrCopy e from to n w =
     (if is_nothrow_move_constructible e \<or> \<not> is_copy_constructible e
      then uninitialized_move_n e from n to w
      else uninitialized_copy_n e from n to w)"

text \<open>The copy constructor.  When copying throws, the member \<open>data_\<close>, already constructed, is
  destroyed.\<close>

definition Vector_copy :: "'a env \<Rightarrow> Vector \<Rightarrow> 'a world \<Rightarrow> Vector outcome \<times> 'a world" where
  "Vector_copy e other w =
     (case RawMemory_sized e (size_m other) w of
        (Throws x, w1) \<Rightarrow> (Throws x, w1)
      | (Returns d, w1) \<Rightarrow>
          (case uninitialized_copy_n e (Vector_begin other) (size_m other) (GetAddress d) w1 of
             (Throws x, w2) \<Rightarrow> (Throws x, RawMemory_destroy d w2)
           | (Returns u, w2) \<Rightarrow> (Returns \<lparr>data_m = d, size_m = size_m other\<rparr>, w2)))"

text \<open>The move constructor: the new vector and what is left of \<open>other\<close>.\<close>

definition Vector_move :: "Vector \<Rightarrow> Vector \<times> Vector" where
  "Vector_move other =
     (case RawMemory_move (data_m other) of
        (d, od) \<Rightarrow> (\<lparr>data_m = d, size_m = size_m other\<rparr>, \<lparr>data_m = od, size_m = 0\<rparr>))"

text \<open>The destructor: \<^verbatim>\<open>destroy_n\<close>, then the destructor of the member \<open>data_\<close>.\<close>

definition Vector_destroy :: "Vector \<Rightarrow> 'a world \<Rightarrow> 'a world" where
  "Vector_destroy this w =
     RawMemory_destroy (data_m this) (destroy_n (Vector_begin this) (size_m this) w)"

definition Swap :: "Vector \<Rightarrow> Vector \<Rightarrow> Vector \<times> Vector" where
  "Swap this other =
     (case RawMemory_Swap (data_m this) (data_m other) of
        (d, od) \<Rightarrow> (\<lparr>data_m = d, size_m = size_m other\<rparr>, \<lparr>data_m = od, size_m = size_m this\<rparr>))"

definition Reserve ::
  "'a env \<Rightarrow> nat \<Rightarrow> Vector \<Rightarrow> 'a world \<Rightarrow> unit outcome \<times> Vector \<times> 'a world" where
  "Reserve e new_capacity this w =
     (if new_capacity \<le> Capacity this then (Returns (), this, w)
      else
        (case RawMemory_sized e new_capacity w of
           (Throws x, w1) \<Rightarrow> (Throws x, this, w1)
         | (Returns new_data, w1) \<Rightarrow>
             (case SafetyMoveOrCopy e (Vector_begin this) (GetAddress new_data) (size_m this) w1 of
                (Throws x, w2) \<Rightarrow> (Throws x, this, RawMemory_destroy new_data w2)
              | (Returns u, w2) \<Rightarrow>
                  (case RawMemory_Swap (data_m this) new_data of
                     (d, nd) \<Rightarrow>
                       (Returns (), this\<lparr>data_m := d\<rparr>,
                        RawMemory_destroy nd
                          (destroy_n (Vector_begin this) (size_m this) w2))))))"

text \<open>Copy assignment.\<close>

definition Vector_copy_assign ::
  "'a env \<Rightarrow> Vector \<Rightarrow> Vector operand \<Rightarrow> 'a world \<Rightarrow> unit outcome \<times> Vector \<times> 'a world" where
  "Vector_copy_assign e this rhs w =
     (case rhs of
        Self \<Rightarrow> (Returns (), this, w)
      | Other r \<Rightarrow>
          if size_m r > Capacity this
          then
            (case Vector_copy e r w of
               (Throws x, w1) \<Rightarrow> (Throws x, this, w1)
             | (Returns temp, w1) \<Rightarrow>
                 (case Swap this temp of
                    (this1, temp1) \<Rightarrow> (Returns (), this1, Vector_destroy temp1 w1)))
          else
            (case copy_n e (Vector_begin r) (min (size_m this) (size_m r)) (Vector_begin this) w of
               (Throws x, w1) \<Rightarrow> (Throws x, this, w1)
             | (Returns u, w1) \<Rightarrow>
                 if size_m this > size_m r
                 then (Returns (), this\<lparr>size_m := size_m r\<rparr>,
                       destroy_n (ptr_add (Vector_begin this) (size_m r)) (size_m this - size_m r) w1)
                 else if size_m this < size_m r
                 then
                   (case Reserve e (size_m r) this w1 of
                      (Throws x, this1, w2) \<Rightarrow> (Throws x, this1, w2)
                    | (Returns u1, this1, w2) \<Rightarrow>
                        (case uninitialized_copy_n e (ptr_add (Vector_begin r) (size_m this1))
                                (size_m r - size_m this1)
                                (ptr_add (Vector_begin this1) (size_m this1)) w2 of
                           (Throws x, w3) \<Rightarrow> (Throws x, this1, w3)
                         | (Returns u2, w3) \<Rightarrow> (Returns (), this1\<lparr>size_m := size_m r\<rparr>, w3)))
                 else (Returns (), this\<lparr>size_m := size_m r\<rparr>, w1)))"

text \<open>Move assignment: the vector, what is left of \<open>rhs\<close>, and the memory.\<close>

definition Vector_move_assign ::
  "Vector \<Rightarrow> Vector operand \<Rightarrow> 'a world \<Rightarrow> Vector \<times> Vector operand \<times> 'a world" where
  "Vector_move_assign this rhs w =
     (case rhs of
        Self \<Rightarrow> (this, Self, w)
      | Other r \<Rightarrow>
          (case RawMemory_move_assign (data_m this) (Other (data_m r)) w of
             (d, Other rd, w1) \<Rightarrow>
               (\<lparr>data_m = d, size_m = size_m r\<rparr>, Other \<lparr>data_m = rd, size_m = 0\<rparr>, w1)
           | (d, Self, w1) \<Rightarrow> (\<lparr>data_m = d, size_m = size_m r\<rparr>, Other (r\<lparr>size_m := 0\<rparr>), w1)))"

definition PopBack :: "Vector \<Rightarrow> 'a world \<Rightarrow> Vector \<times> 'a world" where
  "PopBack this w =
     (if size_m this \<noteq> 0
      then (this\<lparr>size_m := size_m this - 1\<rparr>,
            destroy_n (ptr_add (Vector_begin this) (size_m this - 1)) 1 w)
      else (this, w))"

text \<open>\<^verbatim>\<open>T(std::forward<Args>(args)...)\<close>: the value of the new object, or \<open>None\<close> when the
  constructor throws.\<close>

definition construct_T :: "'a env \<Rightarrow> 'a ctor_args \<Rightarrow> event list \<Rightarrow> 'a option" where
  "construct_T e args l =
     (case args of
        CopyFrom x \<Rightarrow> if copy_ctor_throws e l x then None else Some x
      | MoveFrom x \<Rightarrow> if move_ctor_throws e l x then None else Some x
      | Direct r \<Rightarrow> r)"

definition EmplaceWithRelocate ::
  "'a env \<Rightarrow> nat \<Rightarrow> 'a ctor_args \<Rightarrow> Vector \<Rightarrow> 'a world \<Rightarrow> unit outcome \<times> Vector \<times> 'a world" where
  "EmplaceWithRelocate e index args this w =
     (case RawMemory_sized e (if size_m this = 0 then 1 else size_t_mul (size_m this) 2) w of
        (Throws x, w1) \<Rightarrow> (Throws x, this, w1)
      | (Returns new_data, w1) \<Rightarrow>
          (case construct_T e args (log w1) of
             None \<Rightarrow> (Throws element_exception, this, RawMemory_destroy new_data w1)
           | Some x \<Rightarrow>
               (case SafetyMoveOrCopy e (Vector_begin this) (GetAddress new_data) index
                       (construct_at (ptr_add (GetAddress new_data) index) x
                          (Construct (ptr_add (GetAddress new_data) index)) w1) of
                  (Throws ex, w3) \<Rightarrow>
                    (Throws ex, this,
                     RawMemory_destroy new_data
                       (destroy_n (ptr_add (GetAddress new_data) index) 1 w3))
                | (Returns u, w3) \<Rightarrow>
                    (case SafetyMoveOrCopy e (ptr_add (Vector_begin this) index)
                            (ptr_add (ptr_add (GetAddress new_data) index) 1)
                            (size_m this - index) w3 of
                       (Throws ex, w4) \<Rightarrow>
                         (Throws ex, this,
                          RawMemory_destroy new_data
                            (destroy_n (GetAddress new_data) (index + 1) w4))
                     | (Returns u1, w4) \<Rightarrow>
                         (case RawMemory_Swap (data_m this) new_data of
                            (d, nd) \<Rightarrow>
                              (Returns (), this\<lparr>data_m := d\<rparr>,
                               RawMemory_destroy nd
                                 (destroy_n (Vector_begin this) (size_m this) w4)))))))"

text \<open>The local \<^verbatim>\<open>T temp\<close> is destroyed on every way out of its scope.\<close>

definition EmplaceWithoutRelocate ::
  "'a env \<Rightarrow> nat \<Rightarrow> 'a ctor_args \<Rightarrow> Vector \<Rightarrow> 'a world \<Rightarrow> unit outcome \<times> Vector \<times> 'a world" where
  "EmplaceWithoutRelocate e index args this w =
     (if index \<noteq> size_m this
      then
        (case construct_T e args (log w) of
           None \<Rightarrow> (Throws element_exception, this, w)
         | Some temp \<Rightarrow>
             (case RawMemory_at (data_m this) (size_m this - 1) of
                None \<Rightarrow> (Throws precondition_violation, this, logged TempDestroy (logged TempConstruct w))
              | Some back \<Rightarrow>
                  (case move_construct_at e (ptr_add (Vector_begin this) (size_m this)) back
                          (logged TempConstruct w) of
                     (Throws ex, w2) \<Rightarrow> (Throws ex, this, logged TempDestroy w2)
                   | (Returns u, w2) \<Rightarrow>
                       (case move_backward e (ptr_add (Vector_begin this) index)
                               (ptr_sub (Vector_end this) 1) (Vector_end this) w2 of
                          (Throws ex, w3) \<Rightarrow>
                            (Throws ex, this,
                             logged TempDestroy
                               (destroy_n (ptr_add (Vector_begin this) (size_m this)) 1 w3))
                        | (Returns u1, w3) \<Rightarrow>
                            (case RawMemory_at (data_m this) index of
                               None \<Rightarrow> (Throws precondition_violation, this, logged TempDestroy w3)
                             | Some p \<Rightarrow>
                                 (case obj_at w3 p of
                                    None \<Rightarrow>
                                      (Throws precondition_violation, this, logged TempDestroy w3)
                                  | Some y \<Rightarrow>
                                      if move_assign_throws e (log w3) y temp
                                      then (Throws element_exception, this, logged TempDestroy w3)
                                      else (Returns (), this,
                                            logged TempDestroy
                                              (logged (TempMoveAssign p)
                                                 (put_slot p (Obj temp) w3)))))))))
      else
        (case construct_T e args (log w) of
           None \<Rightarrow> (Throws element_exception, this, w)
         | Some x \<Rightarrow>
             (Returns (), this,
              construct_at (ptr_add (Vector_begin this) index) x
                (Construct (ptr_add (Vector_begin this) index)) w)))"

definition Emplace ::
  "'a env \<Rightarrow> ptr \<Rightarrow> 'a ctor_args \<Rightarrow> Vector \<Rightarrow> 'a world \<Rightarrow> ptr outcome \<times> Vector \<times> 'a world" where
  "Emplace e pos args this w =
     (case ptr_diff pos (Vector_begin this) of
        None \<Rightarrow> (Throws precondition_violation, this, w)
      | Some index \<Rightarrow>
          if \<not> index \<le> size_m this then (Throws precondition_violation, this, w)
          else
            (case (if size_m this = Capacity this
                   then EmplaceWithRelocate e index args this w
                   else EmplaceWithoutRelocate e index args this w) of
               (Throws x, this1, w1) \<Rightarrow> (Throws x, this1, w1)
             | (Returns u, this1, w1) \<Rightarrow>
                 (Returns (ptr_add (Vector_begin (this1\<lparr>size_m := size_m this1 + 1\<rparr>)) index),
                  this1\<lparr>size_m := size_m this1 + 1\<rparr>, w1)))"

text \<open>\<^verbatim>\<open>EmplaceBack\<close> returns a reference: the place of the object referred to.\<close>

definition EmplaceBack ::
  "'a env \<Rightarrow> 'a ctor_args \<Rightarrow> Vector \<Rightarrow> 'a world \<Rightarrow> ptr outcome \<times> Vector \<times> 'a world" where
  "EmplaceBack e args this w = Emplace e (Vector_end this) args this w"

text \<open>\<^verbatim>\<open>PushBack(const T&)\<close> and \<^verbatim>\<open>PushBack(T&&)\<close>.\<close>

definition PushBack ::
  "'a env \<Rightarrow> 'a \<Rightarrow> Vector \<Rightarrow> 'a world \<Rightarrow> unit outcome \<times> Vector \<times> 'a world" where
  "PushBack e v this w =
     (case EmplaceBack e (CopyFrom v) this w of
        (Throws x, this1, w1) \<Rightarrow> (Throws x, this1, w1)
      | (Returns r, this1, w1) \<Rightarrow> (Returns (), this1, w1))"

definition PushBack_move ::
  "'a env \<Rightarrow> 'a \<Rightarrow> Vector \<Rightarrow> 'a world \<Rightarrow> unit outcome \<times> Vector \<times> 'a world" where
  "PushBack_move e v this w =
     (case EmplaceBack e (MoveFrom v) this w of
        (Throws x, this1, w1) \<Rightarrow> (Throws x, this1, w1)
      | (Returns r, this1, w1) \<Rightarrow> (Returns (), this1, w1))"

text \<open>\<^verbatim>\<open>Insert(pos, const T&)\<close> and \<^verbatim>\<open>Insert(pos, T&&)\<close>.\<close>

definition Insert ::
  "'a env \<Rightarrow> ptr \<Rightarrow> 'a \<Rightarrow> Vector \<Rightarrow> 'a world \<Rightarrow> ptr outcome \<times> Vector \<times> 'a world" where
  "Insert e pos v this w = Emplace e pos (CopyFrom v) this w"

definition Insert_move ::
  "'a env \<Rightarrow> ptr \<Rightarrow> 'a \<Rightarrow> Vector \<Rightarrow> 'a world \<Rightarrow> ptr outcome \<times> Vector \<times> 'a world" where
  "Insert_move e pos v this w = Emplace e pos (MoveFrom v) this w"

definition Erase ::
  "'a env \<Rightarrow> ptr \<Rightarrow> Vector \<Rightarrow> 'a world \<Rightarrow> ptr outcome \<times> Vector \<times> 'a world" where
  "Erase e pos this w =
     (case ptr_diff pos (Vector_begin this) of
        None \<Rightarrow> (Throws precondition_violation, this, w)
      | Some index \<Rightarrow>
          (case std_move e (ptr_add (ptr_add (Vector_begin this) index) 1) (Vector_end this)
                  (ptr_add (Vector_begin this) index) w of
             (Throws x, w1) \<Rightarrow> (Throws x, this, w1)
           | (Returns u, w1) \<Rightarrow>
               (Returns (ptr_add (Vector_begin (this\<lparr>size_m := size_m this - 1\<rparr>)) index),
                this\<lparr>size_m := size_m this - 1\<rparr>,
                destroy_n (ptr_add (Vector_begin this) (size_m this)) 1 w1)))"

section \<open>Notions for stating the properties\<close>

text \<open>The events of the loops, by their closed forms.\<close>

definition destroy_events :: "ptr \<Rightarrow> nat \<Rightarrow> event list" where
  "destroy_events p n = map (\<lambda>k. Destroy (ptr_add p k)) [0..<n]"

definition copy_events :: "ptr \<Rightarrow> ptr \<Rightarrow> nat \<Rightarrow> event list" where
  "copy_events dst src n = map (\<lambda>k. CopyConstruct (ptr_add dst k) (ptr_add src k)) [0..<n]"

definition move_events :: "ptr \<Rightarrow> ptr \<Rightarrow> nat \<Rightarrow> event list" where
  "move_events dst src n = map (\<lambda>k. MoveConstruct (ptr_add dst k) (ptr_add src k)) [0..<n]"

definition shift_events :: "addr option \<Rightarrow> nat \<Rightarrow> nat \<Rightarrow> event list" where
  "shift_events a i n = map (\<lambda>k. MoveAssign (a, i + k) (a, Suc (i + k))) [0..<n]"

definition unshift_events :: "addr option \<Rightarrow> nat \<Rightarrow> nat \<Rightarrow> event list" where
  "unshift_events a i n = rev (map (\<lambda>k. MoveAssign (a, Suc (i + k)) (a, i + k)) [0..<n])"

text \<open>
  \<open>holds this w xs\<close>: the invariant of the data model.  The vector has \<open>length xs\<close>
  elements and room for them; its buffer is null exactly when its capacity is zero; otherwise
  its block has \<open>Capacity\<close> slots, of which the first \<open>size\<close> hold live objects with the values \<open>xs\<close>
  and the others are raw.
\<close>

definition holds :: "Vector \<Rightarrow> 'a world \<Rightarrow> 'a list \<Rightarrow> bool" where
  "holds this w xs =
     (size_m this = length xs \<and> length xs \<le> Capacity this \<and>
      (case buffer_m (data_m this) of
         None \<Rightarrow> Capacity this = 0
       | Some a \<Rightarrow>
           Capacity this \<noteq> 0 \<and>
           block_at w a = Some (map Obj xs @ replicate (Capacity this - length xs) Raw)))"

text \<open>What a caller reads through \<^verbatim>\<open>operator[]\<close> at the indices below \<^verbatim>\<open>Size()\<close>.\<close>

definition elements :: "Vector \<Rightarrow> 'a world \<Rightarrow> 'a option list" where
  "elements this w =
     map (\<lambda>i. case Vector_at this i of None \<Rightarrow> None | Some p \<Rightarrow> obj_at w p) [0..<Size this]"

text \<open>
  Relocation as \<^verbatim>\<open>SafetyMoveOrCopy\<close> performs it, for a type with the traits of \<open>e\<close>: its events,
  what it leaves in the old block when the first \<open>k\<close> elements have been relocated, and the
  constructor whose exception ends it.
\<close>

definition relocate_events :: "'a env \<Rightarrow> ptr \<Rightarrow> ptr \<Rightarrow> nat \<Rightarrow> event list" where
  "relocate_events e dst src n =
     (if is_nothrow_move_constructible e \<or> \<not> is_copy_constructible e
      then move_events dst src n else copy_events dst src n)"

definition left_behind :: "'a env \<Rightarrow> nat \<Rightarrow> 'a list \<Rightarrow> 'a list" where
  "left_behind e k xs =
     (if is_nothrow_move_constructible e \<or> \<not> is_copy_constructible e
      then map (moved_from e) (take k xs) @ drop k xs else xs)"

definition relocation_throws :: "'a env \<Rightarrow> event list \<Rightarrow> 'a \<Rightarrow> bool" where
  "relocation_throws e l x =
     (if is_nothrow_move_constructible e \<or> \<not> is_copy_constructible e
      then move_ctor_throws e l x else copy_ctor_throws e l x)"

text \<open>The value the constructor called by \<^verbatim>\<open>Emplace\<close> gives the new element, if it returns.\<close>

definition arg_value :: "'a ctor_args \<Rightarrow> 'a option" where
  "arg_value args = (case args of CopyFrom x \<Rightarrow> Some x | MoveFrom x \<Rightarrow> Some x | Direct r \<Rightarrow> r)"

text \<open>
  \<open>fits e n\<close>: the bytes of \<open>n\<close> objects can be counted in a \<^verbatim>\<open>size_t\<close>, that is,
  \<^verbatim>\<open>n * sizeof(T)\<close> does not wrap around (and \<^verbatim>\<open>sizeof(T)\<close> is not 0, as for every type).  Every
  block that \<^verbatim>\<open>operator new\<close> has ever returned fits; the code never checks it for the number
  it passes to \<^verbatim>\<open>Allocate\<close>.
\<close>

definition fits :: "'a env \<Rightarrow> nat \<Rightarrow> bool" where
  "fits e n = (0 < sizeof_T e \<and> n * sizeof_T e \<le> SIZE_MAX)"

text \<open>An element type and an allocator none of whose operations ever throws.\<close>

definition never_throws :: "'a env \<Rightarrow> bool" where
  "never_throws e =
     (\<forall>l x y n. \<not> copy_ctor_throws e l x \<and> \<not> move_ctor_throws e l x \<and>
                \<not> copy_assign_throws e l y x \<and> \<not> move_assign_throws e l y x \<and>
                \<not> operator_new_throws e l n)"

text \<open>Element types to run the code on: one that behaves like \<^verbatim>\<open>int\<close>; one whose moves cannot throw and leave the
  value 0 behind, as those of a string leave the empty string; one whose copy
  constructor throws at its second call and whose move constructor is not \<^verbatim>\<open>noexcept\<close>; one that
  cannot be copied and whose move constructor throws for the value 2.\<close>

definition count_copies :: "event list \<Rightarrow> nat" where
  "count_copies l =
     length (filter (\<lambda>ev. case ev of CopyConstruct q p \<Rightarrow> True | _ \<Rightarrow> False) l)"

definition int_like :: "int env" where
  "int_like =
     \<lparr>is_nothrow_move_constructible = True, is_copy_constructible = True,
      copy_ctor_throws = (\<lambda>l x. False), move_ctor_throws = (\<lambda>l x. False),
      copy_assign_throws = (\<lambda>l y x. False), move_assign_throws = (\<lambda>l y x. False),
      moved_from = (\<lambda>x. x), operator_new_throws = (\<lambda>l n. False), sizeof_T = 4\<rparr>"

definition second_copy_throws :: "int env" where
  "second_copy_throws =
     \<lparr>is_nothrow_move_constructible = False, is_copy_constructible = True,
      copy_ctor_throws = (\<lambda>l x. count_copies l = 1), move_ctor_throws = (\<lambda>l x. False),
      copy_assign_throws = (\<lambda>l y x. False), move_assign_throws = (\<lambda>l y x. False),
      moved_from = (\<lambda>x. 0), operator_new_throws = (\<lambda>l n. False), sizeof_T = 8\<rparr>"

definition move_only_throwing :: "int env" where
  "move_only_throwing =
     \<lparr>is_nothrow_move_constructible = False, is_copy_constructible = False,
      copy_ctor_throws = (\<lambda>l x. False), move_ctor_throws = (\<lambda>l x. x = 2),
      copy_assign_throws = (\<lambda>l y x. False), move_assign_throws = (\<lambda>l y x. False),
      moved_from = (\<lambda>x. 0), operator_new_throws = (\<lambda>l n. False), sizeof_T = 8\<rparr>"

definition string_like :: "int env" where
  "string_like =
     \<lparr>is_nothrow_move_constructible = True, is_copy_constructible = True,
      copy_ctor_throws = (\<lambda>l x. False), move_ctor_throws = (\<lambda>l x. False),
      copy_assign_throws = (\<lambda>l y x. False), move_assign_throws = (\<lambda>l y x. False),
      moved_from = (\<lambda>x. 0), operator_new_throws = (\<lambda>l n. False), sizeof_T = 8\<rparr>"

section \<open>Basic facts about the memory\<close>

lemma ptr_add_simps [simp]:
  "ptr_add (a, i) n = (a, i + n)" "fst (ptr_add p n) = fst p" "snd (ptr_add p n) = snd p + n"
  by (simp_all add: ptr_add_def)

lemma events_Suc:
  "destroy_events (a, i) (Suc n) = Destroy (a, i) # destroy_events (a, Suc i) n"
  "copy_events (b, j) (a, i) (Suc n) = CopyConstruct (b, j) (a, i) # copy_events (b, Suc j) (a, Suc i) n"
  "move_events (b, j) (a, i) (Suc n) = MoveConstruct (b, j) (a, i) # move_events (b, Suc j) (a, Suc i) n"
  by (simp_all add: destroy_events_def copy_events_def move_events_def map_upt_Suc del: upt_Suc)

lemma events_0 [simp]:
  "destroy_events p 0 = []" "copy_events q p 0 = []" "move_events q p 0 = []"
  by (simp_all add: destroy_events_def copy_events_def move_events_def)

lemma block_at_upd [simp]:
  "block_at (w\<lparr>log := l\<rparr>) c = block_at w c"
  "block_at (w\<lparr>violations := v\<rparr>) c = block_at w c"
  by (simp_all add: block_at_def)

lemma block_at_heap_upd:
  "block_at (w\<lparr>heap := (heap w)[a := v]\<rparr>) c = (if c = a \<and> a < length (heap w) then v else block_at w c)"
  by (simp add: block_at_def)

lemma block_at_SomeD: "block_at w a = Some b \<Longrightarrow> a < length (heap w)"
  by (auto simp: block_at_def split: if_splits)

lemma put_slot_facts:
  assumes "block_at w a = Some blk"
  shows "block_at (put_slot (Some a, i) s w) c = (if c = a then Some (blk[i := s]) else block_at w c)"
    and "log (put_slot (Some a, i) s w) = log w"
    and "violations (put_slot (Some a, i) s w) = violations w"
    and "length (heap (put_slot (Some a, i) s w)) = length (heap w)"
  using assms block_at_SomeD[OF assms] by (simp_all add: put_slot_def block_at_heap_upd)

lemma slot_at_app:
  "block_at w a = Some (pre @ s # post) \<Longrightarrow> i = length pre \<Longrightarrow> slot_at w (Some a, i) = Some s"
  by (simp add: slot_at_def)

lemma obj_at_app:
  "block_at w a = Some (pre @ Obj x # post) \<Longrightarrow> i = length pre \<Longrightarrow> obj_at w (Some a, i) = Some x"
  by (simp add: obj_at_def slot_at_app)

lemma construct_at_raw:
  assumes "block_at w a = Some (pre @ Raw # post)" "i = length pre"
  shows "block_at (construct_at (Some a, i) x ev w) c
           = (if c = a then Some (pre @ Obj x # post) else block_at w c)"
    and "log (construct_at (Some a, i) x ev w) = log w @ [ev]"
    and "violations (construct_at (Some a, i) x ev w) = violations w"
    and "length (heap (construct_at (Some a, i) x ev w)) = length (heap w)"
  using assms
  by (simp_all add: construct_at_def slot_at_app[OF assms(1) refl] logged_def put_slot_facts[OF assms(1)])

lemma destroy_at_obj:
  assumes "block_at w a = Some (pre @ Obj y # post)" "i = length pre"
  shows "block_at (destroy_at (Some a, i) w) c
           = (if c = a then Some (pre @ Raw # post) else block_at w c)"
    and "log (destroy_at (Some a, i) w) = log w @ [Destroy (Some a, i)]"
    and "violations (destroy_at (Some a, i) w) = violations w"
    and "length (heap (destroy_at (Some a, i) w)) = length (heap w)"
  using assms
  by (simp_all add: destroy_at_def slot_at_app[OF assms(1) refl] logged_def put_slot_facts[OF assms(1)])

lemma destroy_n_live:
  "block_at w a = Some (pre @ map Obj ys @ post) \<Longrightarrow> i = length pre \<Longrightarrow>
   (\<forall>c. block_at (destroy_n (Some a, i) (length ys) w) c
           = (if c = a then Some (pre @ replicate (length ys) Raw @ post) else block_at w c))
   \<and> log (destroy_n (Some a, i) (length ys) w) = log w @ destroy_events (Some a, i) (length ys)
   \<and> violations (destroy_n (Some a, i) (length ys) w) = violations w
   \<and> length (heap (destroy_n (Some a, i) (length ys) w)) = length (heap w)"
proof (induction ys arbitrary: pre i w)
  case Nil
  then show ?case by simp
next
  case (Cons y ys)
  let ?w1 = "destroy_at (Some a, i) w"
  have b: "block_at w a = Some (pre @ Obj y # (map Obj ys @ post))" using Cons.prems by simp
  note d = destroy_at_obj[OF b Cons.prems(2)]
  have b1: "block_at ?w1 a = Some ((pre @ [Raw]) @ map Obj ys @ post)" by (simp add: d)
  have i1: "Suc i = length (pre @ [Raw])" using Cons.prems by simp
  from Cons.IH[OF b1 i1] show ?case
    by (simp add: d events_Suc replicate_app_Cons_same)
qed

lemma copy_construct_at_ok:
  assumes "block_at w a = Some (spre @ Obj x # spost)" "i = length spre"
  shows "copy_construct_at e q (Some a, i) w =
           (if copy_ctor_throws e (log w) x then (Throws element_exception, w)
            else (Returns (), construct_at q x (CopyConstruct q (Some a, i)) w))"
  by (simp add: copy_construct_at_def obj_at_app[OF assms])

lemma uninit_copy_loop_spec:
  assumes "a \<noteq> b"
    and "block_at w a = Some (spre @ map Obj xs @ spost)" and "i = length spre"
    and "block_at w b = Some (dpre @ map Obj dn @ replicate (length xs) Raw @ dpost)"
    and "j0 = length dpre" and "j = j0 + length dn"
    and "uninit_copy_loop e (Some a, i) (Some b, j0) (Some b, j) (length xs) w = (r, w')"
  shows "violations w' = violations w \<and> length (heap w') = length (heap w) \<and>
    (case r of
       Returns u \<Rightarrow>
         (\<forall>c. block_at w' c =
            (if c = b then Some (dpre @ map Obj dn @ map Obj xs @ dpost) else block_at w c)) \<and>
         log w' = log w @ copy_events (Some b, j) (Some a, i) (length xs)
     | Throws x \<Rightarrow>
         x = element_exception \<and>
         (\<forall>c. block_at w' c =
            (if c = b then Some (dpre @ replicate (length dn + length xs) Raw @ dpost)
             else block_at w c)) \<and>
         (\<exists>k<length xs.
            log w' = log w @ copy_events (Some b, j) (Some a, i) k
                       @ destroy_events (Some b, j0) (length dn + k) \<and>
            copy_ctor_throws e (log w @ copy_events (Some b, j) (Some a, i) k) (xs ! k)))"
  using assms(2-)
proof (induction xs arbitrary: spre dn i j w)
  case Nil
  then show ?case by auto
next
  case (Cons x xs)
  have sb: "block_at w a = Some (spre @ Obj x # (map Obj xs @ spost))"
    using Cons.prems(1) by simp
  have db: "block_at w b = Some ((dpre @ map Obj dn) @ Raw # (replicate (length xs) Raw @ dpost))"
    using Cons.prems(3) by simp
  have jl: "j = length (dpre @ map Obj dn)" using Cons.prems(4,5) by simp
  note step = copy_construct_at_ok[OF sb Cons.prems(2), of e "(Some b, j)"]
  show ?case
  proof (cases "copy_ctor_throws e (log w) x")
    case True
    have res: "r = Throws element_exception" "w' = destroy_n (Some b, j0) (length dn) w"
      using Cons.prems(6) True step Cons.prems(5) by simp_all
    have db': "block_at w b = Some (dpre @ map Obj dn @ (replicate (Suc (length xs)) Raw @ dpost))"
      using Cons.prems(3) by simp
    note d = destroy_n_live[OF db' Cons.prems(4)]
    have "\<exists>k<length (x # xs).
            log w' = log w @ copy_events (Some b, j) (Some a, i) k
                       @ destroy_events (Some b, j0) (length dn + k) \<and>
            copy_ctor_throws e (log w @ copy_events (Some b, j) (Some a, i) k) ((x # xs) ! k)"
      using True d res by (intro exI[of _ 0]) simp
    then show ?thesis using d res by (simp add: replicate_add[symmetric] del: replicate_Suc)
  next
    case False
    let ?w1 = "construct_at (Some b, j) x (CopyConstruct (Some b, j) (Some a, i)) w"
    note c = construct_at_raw[OF db jl, of x "CopyConstruct (Some b, j) (Some a, i)"]
    have loop: "uninit_copy_loop e (Some a, Suc i) (Some b, j0) (Some b, Suc j) (length xs) ?w1 = (r, w')"
      using Cons.prems(6) False step by simp
    have sb1: "block_at ?w1 a = Some ((spre @ [Obj x]) @ map Obj xs @ spost)"
      using sb \<open>a \<noteq> b\<close> by (simp add: c)
    have db1: "block_at ?w1 b = Some (dpre @ map Obj (dn @ [x]) @ replicate (length xs) Raw @ dpost)"
      by (simp add: c)
    have i1: "Suc i = length (spre @ [Obj x])" using Cons.prems(2) by simp
    have j1: "Suc j = j0 + length (dn @ [x])" using Cons.prems(5) by simp
    note IH = Cons.IH[OF sb1 i1 db1 Cons.prems(4) j1 loop]
    show ?thesis
    proof (cases r)
      case (Returns u)
      with IH show ?thesis by (simp add: c events_Suc)
    next
      case (Throws ex)
      with IH obtain k where k: "k < length xs"
        "log w' = log ?w1 @ copy_events (Some b, Suc j) (Some a, Suc i) k
                       @ destroy_events (Some b, j0) (length (dn @ [x]) + k)"
        "copy_ctor_throws e (log ?w1 @ copy_events (Some b, Suc j) (Some a, Suc i) k) (xs ! k)"
        by auto
      have "\<exists>k<length (x # xs).
            log w' = log w @ copy_events (Some b, j) (Some a, i) k
                       @ destroy_events (Some b, j0) (length dn + k) \<and>
            copy_ctor_throws e (log w @ copy_events (Some b, j) (Some a, i) k) ((x # xs) ! k)"
        using k by (intro exI[of _ "Suc k"]) (simp add: c events_Suc)
      with IH Throws show ?thesis by (simp add: c)
    qed
  qed
qed

lemma move_construct_at_ok:
  assumes "block_at w a = Some (spre @ Obj x # spost)" "i = length spre"
  shows "move_construct_at e q (Some a, i) w =
           (if move_ctor_throws e (log w) x then (Throws element_exception, w)
            else (Returns (),
                  put_slot (Some a, i) (Obj (moved_from e x))
                    (construct_at q x (MoveConstruct q (Some a, i)) w)))"
  by (simp add: move_construct_at_def obj_at_app[OF assms])

lemma uninit_move_loop_spec:
  assumes "a \<noteq> b"
    and "block_at w a = Some (spre @ map Obj xs @ spost)" and "i = length spre"
    and "block_at w b = Some (dpre @ map Obj dn @ replicate (length xs) Raw @ dpost)"
    and "j0 = length dpre" and "j = j0 + length dn"
    and "uninit_move_loop e (Some a, i) (Some b, j0) (Some b, j) (length xs) w = (r, w')"
  shows "violations w' = violations w \<and> length (heap w') = length (heap w) \<and>
    (case r of
       Returns u \<Rightarrow>
         (\<forall>c. block_at w' c =
            (if c = b then Some (dpre @ map Obj dn @ map Obj xs @ dpost)
             else if c = a then Some (spre @ map Obj (map (moved_from e) xs) @ spost)
             else block_at w c)) \<and>
         log w' = log w @ move_events (Some b, j) (Some a, i) (length xs)
     | Throws x \<Rightarrow>
         x = element_exception \<and>
         (\<exists>k<length xs.
            (\<forall>c. block_at w' c =
              (if c = b then Some (dpre @ replicate (length dn + length xs) Raw @ dpost)
               else if c = a
               then Some (spre @ map Obj (map (moved_from e) (take k xs) @ drop k xs) @ spost)
               else block_at w c)) \<and>
            log w' = log w @ move_events (Some b, j) (Some a, i) k
                       @ destroy_events (Some b, j0) (length dn + k) \<and>
            move_ctor_throws e (log w @ move_events (Some b, j) (Some a, i) k) (xs ! k)))"
  using assms(2-)
proof (induction xs arbitrary: spre dn i j w)
  case Nil
  then show ?case by auto
next
  case (Cons x xs)
  have sb: "block_at w a = Some (spre @ Obj x # (map Obj xs @ spost))"
    using Cons.prems(1) by simp
  have db: "block_at w b = Some ((dpre @ map Obj dn) @ Raw # (replicate (length xs) Raw @ dpost))"
    using Cons.prems(3) by simp
  have jl: "j = length (dpre @ map Obj dn)" using Cons.prems(4,5) by simp
  note step = move_construct_at_ok[OF sb Cons.prems(2), of e "(Some b, j)"]
  show ?case
  proof (cases "move_ctor_throws e (log w) x")
    case True
    have res: "r = Throws element_exception" "w' = destroy_n (Some b, j0) (length dn) w"
      using Cons.prems(6) True step Cons.prems(5) by simp_all
    have db': "block_at w b = Some (dpre @ map Obj dn @ (replicate (Suc (length xs)) Raw @ dpost))"
      using Cons.prems(3) by simp
    note d = destroy_n_live[OF db' Cons.prems(4)]
    have "\<exists>k<length (x # xs).
            (\<forall>c. block_at w' c =
              (if c = b then Some (dpre @ replicate (length dn + length (x # xs)) Raw @ dpost)
               else if c = a
               then Some (spre @ map Obj (map (moved_from e) (take k (x # xs)) @ drop k (x # xs)) @ spost)
               else block_at w c)) \<and>
            log w' = log w @ move_events (Some b, j) (Some a, i) k
                       @ destroy_events (Some b, j0) (length dn + k) \<and>
            move_ctor_throws e (log w @ move_events (Some b, j) (Some a, i) k) ((x # xs) ! k)"
      using True d res sb \<open>a \<noteq> b\<close>
      by (intro exI[of _ 0]) (simp add: replicate_add[symmetric] del: replicate_Suc)
    then show ?thesis using d res by simp
  next
    case False
    let ?w0 = "construct_at (Some b, j) x (MoveConstruct (Some b, j) (Some a, i)) w"
    let ?w1 = "put_slot (Some a, i) (Obj (moved_from e x)) ?w0"
    note c = construct_at_raw[OF db jl, of x "MoveConstruct (Some b, j) (Some a, i)"]
    have sb0: "block_at ?w0 a = Some (spre @ Obj x # (map Obj xs @ spost))"
      using sb \<open>a \<noteq> b\<close> by (simp add: c)
    note p = put_slot_facts[OF sb0, of i "Obj (moved_from e x)"]
    have loop: "uninit_move_loop e (Some a, Suc i) (Some b, j0) (Some b, Suc j) (length xs) ?w1 = (r, w')"
      using Cons.prems(6) False step by simp
    have sb1: "block_at ?w1 a = Some ((spre @ [Obj (moved_from e x)]) @ map Obj xs @ spost)"
      using p(1)[of a] Cons.prems(2) by simp
    have db1: "block_at ?w1 b = Some (dpre @ map Obj (dn @ [x]) @ replicate (length xs) Raw @ dpost)"
      using \<open>a \<noteq> b\<close> by (simp add: p c)
    have i1: "Suc i = length (spre @ [Obj (moved_from e x)])" using Cons.prems(2) by simp
    have j1: "Suc j = j0 + length (dn @ [x])" using Cons.prems(5) by simp
    note IH = Cons.IH[OF sb1 i1 db1 Cons.prems(4) j1 loop]
    have other: "\<And>c. c \<noteq> a \<Longrightarrow> c \<noteq> b \<Longrightarrow> block_at ?w1 c = block_at w c"
      by (simp add: p c)
    show ?thesis
    proof (cases r)
      case (Returns u)
      with IH show ?thesis using other by (simp add: p c events_Suc)
    next
      case (Throws ex)
      with IH obtain k where k: "k < length xs"
        "\<forall>c. block_at w' c =
              (if c = b then Some (dpre @ replicate (length (dn @ [x]) + length xs) Raw @ dpost)
               else if c = a
               then Some ((spre @ [Obj (moved_from e x)]) @ map Obj (map (moved_from e) (take k xs) @ drop k xs) @ spost)
               else block_at ?w1 c)"
        "log w' = log ?w1 @ move_events (Some b, Suc j) (Some a, Suc i) k
                       @ destroy_events (Some b, j0) (length (dn @ [x]) + k)"
        "move_ctor_throws e (log ?w1 @ move_events (Some b, Suc j) (Some a, Suc i) k) (xs ! k)"
        by auto
      have "\<exists>k<length (x # xs).
            (\<forall>c. block_at w' c =
              (if c = b then Some (dpre @ replicate (length dn + length (x # xs)) Raw @ dpost)
               else if c = a
               then Some (spre @ map Obj (map (moved_from e) (take k (x # xs)) @ drop k (x # xs)) @ spost)
               else block_at w c)) \<and>
            log w' = log w @ move_events (Some b, j) (Some a, i) k
                       @ destroy_events (Some b, j0) (length dn + k) \<and>
            move_ctor_throws e (log w @ move_events (Some b, j) (Some a, i) k) ((x # xs) ! k)"
        using k other by (intro exI[of _ "Suc k"]) (simp add: p c events_Suc)
      with IH Throws show ?thesis by (simp add: p c)
    qed
  qed
qed

lemma shift_events_simps:
  "shift_events a i 0 = []"
  "shift_events a i (Suc n) = MoveAssign (a, i) (a, Suc i) # shift_events a (Suc i) n"
  by (simp_all add: shift_events_def map_upt_Suc del: upt_Suc)

lemma move_assign_at_adjacent:
  assumes "block_at w a = Some (pre @ Obj y # Obj x # post)" "i = length pre"
  shows "move_assign_at e (Some a, i) (Some a, Suc i) w =
           (if move_assign_throws e (log w) y x then (Throws element_exception, w)
            else (Returns (),
                  logged (MoveAssign (Some a, i) (Some a, Suc i))
                    (put_slot (Some a, Suc i) (Obj (moved_from e x))
                       (put_slot (Some a, i) (Obj x) w))))"
proof -
  have "block_at w a = Some ((pre @ [Obj y]) @ Obj x # post)" using assms by simp
  from obj_at_app[OF this] have "obj_at w (Some a, Suc i) = Some x" using assms by simp
  then show ?thesis by (simp add: move_assign_at_def obj_at_app[OF assms])
qed

lemma move_assign_at_adjacent_facts:
  fixes e :: "'a env" and w :: "'a world"
  assumes "block_at w a = Some (pre @ Obj y # Obj x # post)" "i = length pre"
  defines "w1 \<equiv> logged (MoveAssign (Some a, i) (Some a, Suc i))
                    (put_slot (Some a, Suc i) (Obj (moved_from e x))
                       (put_slot (Some a, i) (Obj x) w))"
  shows "block_at w1 c = (if c = a then Some (pre @ Obj x # Obj (moved_from e x) # post) else block_at w c)"
    and "log w1 = log w @ [MoveAssign (Some a, i) (Some a, Suc i)]"
    and "violations w1 = violations w"
proof -
  note p1 = put_slot_facts[OF assms(1), of i "Obj x"]
  have b1: "block_at (put_slot (Some a, i) (Obj x) w) a = Some (pre @ Obj x # Obj x # post)"
    using assms(2) p1(1)[of a] by simp
  note p2 = put_slot_facts[OF b1, of "Suc i" "Obj (moved_from e x)"]
  have u: "(pre @ Obj x # Obj x # post)[Suc (length pre) := Obj (moved_from e x)]
            = pre @ Obj x # Obj (moved_from e x) # post"
    by (simp add: list_update_append)
  show "block_at w1 c = (if c = a then Some (pre @ Obj x # Obj (moved_from e x) # post) else block_at w c)"
    using assms(2) p2(1)[of c] p1(1)[of c] u by (simp add: w1_def logged_def)
  show "log w1 = log w @ [MoveAssign (Some a, i) (Some a, Suc i)]"
    by (simp add: w1_def logged_def p1 p2)
  show "violations w1 = violations w"
    by (simp add: w1_def logged_def p1 p2)
qed

lemma move_loop_spec:
  assumes "block_at w a = Some (pre @ Obj y # map Obj vs @ post)" and "i = length pre"
    and "move_loop e (Some a, Suc i) (length vs) (Some a, i) w = (r, w')"
  shows "case r of
       Returns u \<Rightarrow>
         (\<forall>c. block_at w' c =
            (if c = a
             then Some (pre @ map Obj vs @ Obj (if vs = [] then y else moved_from e (last vs)) # post)
             else block_at w c)) \<and>
         log w' = log w @ shift_events (Some a) i (length vs) \<and>
         violations w' = violations w
     | Throws x \<Rightarrow> x = element_exception \<and> \<not> (\<forall>l y x. \<not> move_assign_throws e l y x)"
  using assms
proof (induction vs arbitrary: pre y i w)
  case Nil
  then show ?case by (auto simp: shift_events_simps)
next
  case (Cons v vs)
  have b: "block_at w a = Some (pre @ Obj y # Obj v # (map Obj vs @ post))"
    using Cons.prems(1) by simp
  note step = move_assign_at_adjacent[OF b Cons.prems(2), of e]
  note f = move_assign_at_adjacent_facts[OF b Cons.prems(2), of e]
  show ?case
  proof (cases "move_assign_throws e (log w) y v")
    case True
    then have "\<not> (\<forall>l y x. \<not> move_assign_throws e l y x)" by blast
    moreover have "r = Throws element_exception" using True Cons.prems(3) step by simp
    ultimately show ?thesis by simp
  next
    case False
    let ?w1 = "logged (MoveAssign (Some a, i) (Some a, Suc i))
                    (put_slot (Some a, Suc i) (Obj (moved_from e v))
                       (put_slot (Some a, i) (Obj v) w))"
    have loop: "move_loop e (Some a, Suc (Suc i)) (length vs) (Some a, Suc i) ?w1 = (r, w')"
      using Cons.prems(3) False step by simp
    have b1: "block_at ?w1 a = Some ((pre @ [Obj v]) @ Obj (moved_from e v) # map Obj vs @ post)"
      by (simp add: f)
    have i1: "Suc i = length (pre @ [Obj v])" using Cons.prems(2) by simp
    note IH = Cons.IH[OF b1 i1 loop]
    show ?thesis
    proof (cases r)
      case (Returns u)
      with IH show ?thesis by (simp add: f shift_events_simps)
    next
      case (Throws ex)
      with IH show ?thesis by simp
    qed
  qed
qed

lemma unshift_events_simps:
  "unshift_events a i 0 = []"
  "unshift_events a i (Suc n) = MoveAssign (a, Suc (i + n)) (a, i + n) # unshift_events a i n"
  by (simp_all add: unshift_events_def)

lemma ptr_sub_simps [simp]: "ptr_sub (a, i) n = (a, i - n)"
  by (simp add: ptr_sub_def)

lemma move_assign_at_back:
  assumes "block_at w a = Some (pre @ Obj x # Obj y # post)" "i = length pre"
  shows "move_assign_at e (Some a, Suc i) (Some a, i) w =
           (if move_assign_throws e (log w) y x then (Throws element_exception, w)
            else (Returns (),
                  logged (MoveAssign (Some a, Suc i) (Some a, i))
                    (put_slot (Some a, i) (Obj (moved_from e x))
                       (put_slot (Some a, Suc i) (Obj x) w))))"
proof -
  have "block_at w a = Some ((pre @ [Obj x]) @ Obj y # post)" using assms by simp
  from obj_at_app[OF this] have "obj_at w (Some a, Suc i) = Some y" using assms by simp
  then show ?thesis by (simp add: move_assign_at_def obj_at_app[OF assms])
qed

lemma move_assign_at_back_facts:
  fixes e :: "'a env" and w :: "'a world"
  assumes "block_at w a = Some (pre @ Obj x # Obj y # post)" "i = length pre"
  defines "w1 \<equiv> logged (MoveAssign (Some a, Suc i) (Some a, i))
                    (put_slot (Some a, i) (Obj (moved_from e x))
                       (put_slot (Some a, Suc i) (Obj x) w))"
  shows "block_at w1 c = (if c = a then Some (pre @ Obj (moved_from e x) # Obj x # post) else block_at w c)"
    and "log w1 = log w @ [MoveAssign (Some a, Suc i) (Some a, i)]"
    and "violations w1 = violations w"
proof -
  note p1 = put_slot_facts[OF assms(1), of "Suc i" "Obj x"]
  have u: "(pre @ Obj x # Obj y # post)[Suc (length pre) := Obj x] = pre @ Obj x # Obj x # post"
    by (simp add: list_update_append)
  have b1: "block_at (put_slot (Some a, Suc i) (Obj x) w) a = Some (pre @ Obj x # Obj x # post)"
    using assms(2) p1(1)[of a] u by simp
  note p2 = put_slot_facts[OF b1, of i "Obj (moved_from e x)"]
  show "block_at w1 c = (if c = a then Some (pre @ Obj (moved_from e x) # Obj x # post) else block_at w c)"
    using assms(2) p2(1)[of c] p1(1)[of c] by (simp add: w1_def logged_def)
  show "log w1 = log w @ [MoveAssign (Some a, Suc i) (Some a, i)]"
    by (simp add: w1_def logged_def p1 p2)
  show "violations w1 = violations w"
    by (simp add: w1_def logged_def p1 p2)
qed

lemma move_backward_loop_spec:
  assumes "block_at w a = Some (pre @ map Obj vs @ Obj y # post)" and "i = length pre"
    and "move_backward_loop e (Some a, i + length vs) (length vs) (Some a, Suc (i + length vs)) w = (r, w')"
  shows "case r of
       Returns u \<Rightarrow>
         (\<forall>c. block_at w' c =
            (if c = a
             then Some (pre @ Obj (if vs = [] then y else moved_from e (hd vs)) # map Obj vs @ post)
             else block_at w c)) \<and>
         log w' = log w @ unshift_events (Some a) i (length vs) \<and>
         violations w' = violations w
     | Throws x \<Rightarrow> x = element_exception \<and> \<not> (\<forall>l y x. \<not> move_assign_throws e l y x)"
  using assms
proof (induction vs arbitrary: y post w rule: rev_induct)
  case Nil
  then show ?case by (auto simp: unshift_events_simps)
next
  case (snoc v vs)
  have il: "i + length vs = length (pre @ map Obj vs)" using snoc.prems(2) by simp
  have b: "block_at w a = Some ((pre @ map Obj vs) @ Obj v # Obj y # post)"
    using snoc.prems(1) by simp
  note step = move_assign_at_back[OF b il, of e]
  note f = move_assign_at_back_facts[OF b il, of e]
  show ?case
  proof (cases "move_assign_throws e (log w) y v")
    case True
    then have "\<not> (\<forall>l y x. \<not> move_assign_throws e l y x)" by blast
    moreover have "r = Throws element_exception" using True snoc.prems(3) step by simp
    ultimately show ?thesis by simp
  next
    case False
    define w1 where "w1 = logged (MoveAssign (Some a, Suc (i + length vs)) (Some a, i + length vs))
                    (put_slot (Some a, i + length vs) (Obj (moved_from e v))
                       (put_slot (Some a, Suc (i + length vs)) (Obj v) w))"
    have f1: "\<And>c. block_at w1 c = (if c = a then Some ((pre @ map Obj vs) @ Obj (moved_from e v) # Obj v # post) else block_at w c)"
      "log w1 = log w @ [MoveAssign (Some a, Suc (i + length vs)) (Some a, i + length vs)]"
      "violations w1 = violations w"
      unfolding w1_def by (rule f)+
    have loop: "move_backward_loop e (Some a, i + length vs) (length vs) (Some a, Suc (i + length vs)) w1 = (r, w')"
      using snoc.prems(3) False step by (simp add: w1_def)
    have b1: "block_at w1 a = Some (pre @ map Obj vs @ Obj (moved_from e v) # (Obj v # post))"
      by (simp add: f1)
    note IH = snoc.IH[OF b1 snoc.prems(2) loop]
    show ?thesis
    proof (cases r)
      case (Returns u)
      with IH show ?thesis by (simp add: f1 unshift_events_simps hd_append)
    next
      case (Throws ex)
      with IH show ?thesis by simp
    qed
  qed
qed

lemma SafetyMoveOrCopy_spec:
  assumes "a \<noteq> b"
    and "block_at w a = Some (spre @ map Obj xs @ spost)" and "i = length spre"
    and "block_at w b = Some (dpre @ replicate (length xs) Raw @ dpost)"
    and "j = length dpre"
    and "SafetyMoveOrCopy e (Some a, i) (Some b, j) (length xs) w = (r, w')"
  shows "violations w' = violations w \<and> length (heap w') = length (heap w) \<and>
    (case r of
       Returns u \<Rightarrow>
         (\<forall>c. block_at w' c =
            (if c = b then Some (dpre @ map Obj xs @ dpost)
             else if c = a then Some (spre @ map Obj (left_behind e (length xs) xs) @ spost)
             else block_at w c)) \<and>
         log w' = log w @ relocate_events e (Some b, j) (Some a, i) (length xs)
     | Throws x \<Rightarrow>
         x = element_exception \<and>
         (\<exists>k<length xs.
            (\<forall>c. block_at w' c =
              (if c = b then Some (dpre @ replicate (length xs) Raw @ dpost)
               else if c = a then Some (spre @ map Obj (left_behind e k xs) @ spost)
               else block_at w c)) \<and>
            log w' = log w @ relocate_events e (Some b, j) (Some a, i) k
                       @ destroy_events (Some b, j) k \<and>
            relocation_throws e (log w @ relocate_events e (Some b, j) (Some a, i) k) (xs ! k)))"
proof (cases "is_nothrow_move_constructible e \<or> \<not> is_copy_constructible e")
  case True
  have db: "block_at w b = Some (dpre @ map Obj [] @ replicate (length xs) Raw @ dpost)"
    using assms(4) by simp
  have j: "j = j + length ([]::'a list)" by simp
  have loop: "uninit_move_loop e (Some a, i) (Some b, j) (Some b, j) (length xs) w = (r, w')"
    using assms(6) True by (simp add: SafetyMoveOrCopy_def uninitialized_move_n_def)
  from uninit_move_loop_spec[OF assms(1,2,3) db assms(5) j loop] True
  show ?thesis
    by (cases r) (auto simp add: left_behind_def relocate_events_def relocation_throws_def)
next
  case False
  have db: "block_at w b = Some (dpre @ map Obj [] @ replicate (length xs) Raw @ dpost)"
    using assms(4) by simp
  have j: "j = j + length ([]::'a list)" by simp
  have loop: "uninit_copy_loop e (Some a, i) (Some b, j) (Some b, j) (length xs) w = (r, w')"
    using assms(6) False by (simp add: SafetyMoveOrCopy_def uninitialized_copy_n_def)
  from uninit_copy_loop_spec[OF assms(1,2,3) db assms(5) j loop] False assms(2,1)
  show ?thesis
    by (cases r) (auto simp add: left_behind_def relocate_events_def relocation_throws_def)
qed

lemma live_count_simps [simp]:
  "live_count (replicate n Raw) = 0"
  "live_count (map Obj xs) = length xs"
  "live_count (xs @ ys) = live_count xs + live_count ys"
  by (simp_all add: live_count_def)

lemma size_t_mul_small: "a * b \<le> SIZE_MAX \<Longrightarrow> size_t_mul a b = a * b"
proof -
  assume "a * b \<le> SIZE_MAX"
  then have "int a * int b < 2 ^ 64"
    unfolding SIZE_MAX_def
    by (metis (no_types, lifting) Suc_pred' less_Suc_eq_le of_nat_less_iff of_nat_mult
        of_nat_numeral of_nat_power zero_less_numeral zero_less_power)
  then have "take_bit 64 (int a * int b) = int a * int b"
    by (simp add: take_bit_int_eq_self)
  then show ?thesis
    by (simp add: size_t_mul_def nat_mult_distrib)
qed

lemma fits_slots: "fits e n \<Longrightarrow> size_t_mul n (sizeof_T e) div sizeof_T e = n"
  using size_t_mul_small[of n "sizeof_T e"] by (simp add: fits_def)

lemma Allocate_facts:
  assumes "n \<noteq> 0" "\<not> operator_new_throws e (log w) n" "Allocate e n w = (r, w1)"
    and "fits e n"
  shows "r = Returns (Some (length (heap w)))"
    and "block_at w1 c = (if c = length (heap w) then Some (replicate n Raw) else block_at w c)"
    and "log w1 = log w @ [NewBlock (length (heap w)) n]"
    and "violations w1 = violations w"
    and "length (heap w1) = Suc (length (heap w))"
  using assms(1-3) fits_slots[OF assms(4)]
  by (auto simp: Allocate_def logged_def block_at_def nth_append)

lemma Deallocate_facts:
  assumes "block_at w a = Some blk"
  shows "block_at (Deallocate (Some a) w) c = (if c = a then None else block_at w c)"
    and "log (Deallocate (Some a) w) = log w @ [DeleteBlock a]"
    and "violations (Deallocate (Some a) w) =
           violations w @ (if live_count blk = 0 then [] else [DeletedWithLive a (live_count blk)])"
    and "length (heap (Deallocate (Some a) w)) = length (heap w)"
  using assms block_at_SomeD[OF assms]
  by (auto simp: Deallocate_def logged_def flag_def block_at_def)

lemma length_left_behind [simp]: "length (left_behind e k xs) = length xs"
  by (simp add: left_behind_def min_def)

lemma block_at_fresh [simp]: "block_at w (length (heap w)) = None"
  by (simp add: block_at_def)

lemma left_behind_0 [simp]: "left_behind e 0 xs = xs"
  by (simp add: left_behind_def)

lemma left_behind_copy:
  "is_copy_constructible e \<Longrightarrow> \<not> is_nothrow_move_constructible e \<Longrightarrow> left_behind e k xs = xs"
  by (simp add: left_behind_def)

lemma SafetyMoveOrCopy_0 [simp]: "SafetyMoveOrCopy e p q 0 w = (Returns (), w)"
  by (simp add: SafetyMoveOrCopy_def uninitialized_move_n_def uninitialized_copy_n_def)

lemma relocate_events_0 [simp]: "relocate_events e q p 0 = []"
  by (simp add: relocate_events_def)

lemma holdsD:
  assumes "holds this w xs"
  shows "size_m this = length xs" "length xs \<le> Capacity this"
    "buffer_m (data_m this) = None \<Longrightarrow> Capacity this = 0 \<and> xs = []"
    "buffer_m (data_m this) = Some a \<Longrightarrow>
       block_at w a = Some (map Obj xs @ replicate (Capacity this - length xs) Raw) \<and> a < length (heap w)
       \<and> Capacity this \<noteq> 0"
  using assms by (auto simp: holds_def dest: block_at_SomeD)

lemma RawMemory_eta [simp]:
  "\<lparr>buffer_m = buffer_m d, capacity_m = capacity_m d\<rparr> = (d::RawMemory)"
  by (cases d) simp

lemma Vector_eta [simp]: "\<lparr>data_m = data_m a, size_m = size_m a\<rparr> = (a::Vector)"
  by (cases a) simp

section \<open>Reserve\<close>

text \<open>
  C4.  \<^verbatim>\<open>Reserve\<close> does not always obtain a block of \<open>new_capacity\<close> slots.  With \<^verbatim>\<open>sizeof(T) = 4\<close>
  and \<open>new_capacity = 2 ^ 62\<close>, the product \<^verbatim>\<open>n * sizeof(T)\<close> wraps around to 0: the new block has
  no room for any object, the two elements of the vector are constructed outside it, the old
  elements are destroyed and the old block is deleted.  \<^verbatim>\<open>Reserve\<close> returns, the vector reports a
  capacity of \<open>2 ^ 62\<close>, and its elements are lost.
\<close>

theorem Reserve_size_t_wraps_counterexample:
  "holds \<lparr>data_m = \<lparr>buffer_m = Some 0, capacity_m = 2\<rparr>, size_m = 2\<rparr>
     \<lparr>heap = [Some [Obj 1, Obj 2]], log = [], violations = []\<rparr> [1, 2::int] \<and>
   Capacity \<lparr>data_m = \<lparr>buffer_m = Some 0, capacity_m = 2\<rparr>, size_m = 2\<rparr>
     < 4611686018427387904 \<and>
   Reserve int_like 4611686018427387904
       \<lparr>data_m = \<lparr>buffer_m = Some 0, capacity_m = 2\<rparr>, size_m = 2\<rparr>
       \<lparr>heap = [Some [Obj 1, Obj 2]], log = [], violations = []\<rparr>
     = (Returns (),
        \<lparr>data_m = \<lparr>buffer_m = Some 1, capacity_m = 4611686018427387904\<rparr>, size_m = 2\<rparr>,
        \<lparr>heap = [None, Some []],
         log = [NewBlock 1 4611686018427387904, MoveConstruct (Some 1, 0) (Some 0, 0),
                MoveConstruct (Some 1, 1) (Some 0, 1), Destroy (Some 0, 0), Destroy (Some 0, 1),
                DeleteBlock 0],
         violations = [OutOfStorage (Some 1, 0), OutOfStorage (Some 1, 1)]\<rparr>) \<and>
   block_at \<lparr>heap = [None, Some []],
         log = [NewBlock 1 4611686018427387904, MoveConstruct (Some 1, 0) (Some 0, 0),
                MoveConstruct (Some 1, 1) (Some 0, 1), Destroy (Some 0, 0), Destroy (Some 0, 1),
                DeleteBlock 0],
         violations = [OutOfStorage (Some 1, 0), OutOfStorage (Some 1, 1)]\<rparr> 1 = Some ([] :: int slot list) \<and>
   elements \<lparr>data_m = \<lparr>buffer_m = Some 1, capacity_m = 4611686018427387904\<rparr>, size_m = 2\<rparr>
        \<lparr>heap = [None, Some []],
         log = [NewBlock 1 4611686018427387904, MoveConstruct (Some 1, 0) (Some 0, 0),
                MoveConstruct (Some 1, 1) (Some 0, 1), Destroy (Some 0, 0), Destroy (Some 0, 1),
                DeleteBlock 0],
         violations = [OutOfStorage (Some 1, 0), OutOfStorage (Some 1, 1)]\<rparr>
     = [None, None :: int option] \<and>
   \<not> holds \<lparr>data_m = \<lparr>buffer_m = Some 1, capacity_m = 4611686018427387904\<rparr>, size_m = 2\<rparr>
        \<lparr>heap = [None, Some []],
         log = [NewBlock 1 4611686018427387904, MoveConstruct (Some 1, 0) (Some 0, 0),
                MoveConstruct (Some 1, 1) (Some 0, 1), Destroy (Some 0, 0), Destroy (Some 0, 1),
                DeleteBlock 0],
         violations = [OutOfStorage (Some 1, 0), OutOfStorage (Some 1, 1)]\<rparr> [1, 2::int] \<and>
   \<not> fits int_like 4611686018427387904"
proof -
  have run: "holds \<lparr>data_m = \<lparr>buffer_m = Some 0, capacity_m = 2\<rparr>, size_m = 2\<rparr>
     \<lparr>heap = [Some [Obj 1, Obj 2]], log = [], violations = []\<rparr> [1, 2::int] \<and>
   Capacity \<lparr>data_m = \<lparr>buffer_m = Some 0, capacity_m = 2\<rparr>, size_m = 2\<rparr>
     < 4611686018427387904 \<and>
   Reserve int_like 4611686018427387904
       \<lparr>data_m = \<lparr>buffer_m = Some 0, capacity_m = 2\<rparr>, size_m = 2\<rparr>
       \<lparr>heap = [Some [Obj 1, Obj 2]], log = [], violations = []\<rparr>
     = (Returns (),
        \<lparr>data_m = \<lparr>buffer_m = Some 1, capacity_m = 4611686018427387904\<rparr>, size_m = 2\<rparr>,
        \<lparr>heap = [None, Some []],
         log = [NewBlock 1 4611686018427387904, MoveConstruct (Some 1, 0) (Some 0, 0),
                MoveConstruct (Some 1, 1) (Some 0, 1), Destroy (Some 0, 0), Destroy (Some 0, 1),
                DeleteBlock 0],
         violations = [OutOfStorage (Some 1, 0), OutOfStorage (Some 1, 1)]\<rparr>) \<and>
   block_at \<lparr>heap = [None, Some []],
         log = [NewBlock 1 4611686018427387904, MoveConstruct (Some 1, 0) (Some 0, 0),
                MoveConstruct (Some 1, 1) (Some 0, 1), Destroy (Some 0, 0), Destroy (Some 0, 1),
                DeleteBlock 0],
         violations = [OutOfStorage (Some 1, 0), OutOfStorage (Some 1, 1)]\<rparr> 1 = Some ([] :: int slot list) \<and>
   elements \<lparr>data_m = \<lparr>buffer_m = Some 1, capacity_m = 4611686018427387904\<rparr>, size_m = 2\<rparr>
        \<lparr>heap = [None, Some []],
         log = [NewBlock 1 4611686018427387904, MoveConstruct (Some 1, 0) (Some 0, 0),
                MoveConstruct (Some 1, 1) (Some 0, 1), Destroy (Some 0, 0), Destroy (Some 0, 1),
                DeleteBlock 0],
         violations = [OutOfStorage (Some 1, 0), OutOfStorage (Some 1, 1)]\<rparr>
     = [None, None :: int option] \<and>
   \<not> holds \<lparr>data_m = \<lparr>buffer_m = Some 1, capacity_m = 4611686018427387904\<rparr>, size_m = 2\<rparr>
        \<lparr>heap = [None, Some []],
         log = [NewBlock 1 4611686018427387904, MoveConstruct (Some 1, 0) (Some 0, 0),
                MoveConstruct (Some 1, 1) (Some 0, 1), Destroy (Some 0, 0), Destroy (Some 0, 1),
                DeleteBlock 0],
         violations = [OutOfStorage (Some 1, 0), OutOfStorage (Some 1, 1)]\<rparr> [1, 2::int]"
    by (simp add: Reserve_def Capacity_def RawMemory_sized_def Vector_begin_def GetAddress_def
        Allocate_def int_like_def size_t_mul_def take_bit_eq_mod
        SafetyMoveOrCopy_def uninitialized_move_n_def move_construct_at_def construct_at_def
        RawMemory_Swap_def RawMemory_destroy_def Deallocate_def numeral_2_eq_2 destroy_at_def
        obj_at_def slot_at_def block_at_def logged_def flag_def put_slot_def live_count_def
        holds_def elements_def Size_def Vector_at_def RawMemory_at_def)
  have nf: "\<not> fits int_like 4611686018427387904"
    by (simp add: fits_def SIZE_MAX_def int_like_def)
  show ?thesis using run nf by blast
qed

text \<open>
  C4, amended.  Let the vector hold \<open>xs\<close>, and let the bytes of \<open>new_capacity\<close> objects be countable
  in a \<^verbatim>\<open>size_t\<close>.  \<^verbatim>\<open>Reserve(new_capacity)\<close> changes nothing when
  \<open>new_capacity \<le> Capacity()\<close>.  Otherwise, when it returns, the vector owns a new block of
  exactly \<open>new_capacity\<close> slots (the next fresh address) and holds the same \<open>xs\<close> there; the log
  shows the allocation, the relocation of every element, the destruction of every old element
  and the deletion of the old block, in this order, and nothing was violated.  When it throws,
  the vector object is unchanged, every block but the vector's own is as before and nothing
  was violated; the exception is either \<^verbatim>\<open>bad_alloc\<close> from an allocation that failed, with the
  memory untouched, or the exception of the constructor that threw when relocating element
  \<open>k\<close>, and then the vector holds what relocating the first \<open>k\<close> elements leaves behind.  When
  relocation copies (the type is copyable and its move constructor may throw), that is \<open>xs\<close>:
  the vector still holds \<open>xs\<close> afterwards and every block of the memory is as it was before, the
  new block being gone.
\<close>

theorem Reserve_strong_guarantee:
  assumes "holds this w xs" and "Reserve e new_capacity this w = (r, this', w')"
    and "fits e new_capacity"
  shows "(new_capacity \<le> Capacity this \<longrightarrow> r = Returns () \<and> this' = this \<and> w' = w) \<and>
    (Capacity this < new_capacity \<longrightarrow>
      (case r of
         Returns u \<Rightarrow>
           this' = \<lparr>data_m = \<lparr>buffer_m = Some (length (heap w)), capacity_m = new_capacity\<rparr>,
                    size_m = size_m this\<rparr> \<and>
           holds this' w' xs \<and>
           (\<forall>c. c \<noteq> length (heap w) \<longrightarrow>
                block_at w' c = (if Some c = buffer_m (data_m this) then None else block_at w c)) \<and>
           log w' = log w @ [NewBlock (length (heap w)) new_capacity]
                      @ relocate_events e (Some (length (heap w)), 0) (Vector_begin this) (size_m this)
                      @ destroy_events (Vector_begin this) (size_m this)
                      @ (case buffer_m (data_m this) of None \<Rightarrow> [] | Some a \<Rightarrow> [DeleteBlock a]) \<and>
           violations w' = violations w
       | Throws x \<Rightarrow>
           this' = this \<and> violations w' = violations w \<and>
           (\<forall>c. Some c \<noteq> buffer_m (data_m this) \<longrightarrow> block_at w' c = block_at w c) \<and>
           (is_copy_constructible e \<and> \<not> is_nothrow_move_constructible e \<longrightarrow>
              holds this w' xs \<and> (\<forall>c. block_at w' c = block_at w c)) \<and>
           (x = bad_alloc \<and> operator_new_throws e (log w) new_capacity \<and> w' = w \<or>
            x = element_exception \<and>
            (\<exists>k<length xs.
               holds this w' (left_behind e k xs) \<and>
               relocation_throws e
                 (log w @ NewBlock (length (heap w)) new_capacity
                    # relocate_events e (Some (length (heap w)), 0) (Vector_begin this) k)
                 (xs ! k)))))"
proof (cases "new_capacity \<le> Capacity this")
  case True
  then show ?thesis using assms(2) by (simp add: Reserve_def)
next
  case False
  note h = holdsD[OF assms(1)]
  define nb where "nb = length (heap w)"
  have nc0: "new_capacity \<noteq> 0" using False by simp
  show ?thesis
  proof (cases "operator_new_throws e (log w) new_capacity")
    case True
    have "r = Throws bad_alloc \<and> this' = this \<and> w' = w"
      using assms(2) False True nc0 by (simp add: Reserve_def RawMemory_sized_def Allocate_def)
    then show ?thesis using False True assms(1) by auto
  next
    case nothrow: False
    obtain ra w1 where al: "Allocate e new_capacity w = (ra, w1)" by (cases "Allocate e new_capacity w")
    note A = Allocate_facts[OF nc0 nothrow al assms(3)]
    define new_data where "new_data = \<lparr>buffer_m = Some nb, capacity_m = new_capacity\<rparr>"
    have rs: "RawMemory_sized e new_capacity w = (Returns new_data, w1)"
      using al A(1) by (simp add: RawMemory_sized_def new_data_def nb_def)
    obtain r2 w2 where sm: "SafetyMoveOrCopy e (Vector_begin this) (GetAddress new_data) (size_m this) w1 = (r2, w2)"
      by (cases "SafetyMoveOrCopy e (Vector_begin this) (GetAddress new_data) (size_m this) w1")
    have nle: "length xs \<le> new_capacity" using h(2) False by simp
    have nbblk: "block_at w1 nb = Some ([] @ replicate (length xs) Raw @ replicate (new_capacity - length xs) Raw)"
      using A(2)[of nb] nle by (simp add: nb_def replicate_add[symmetric])
    show ?thesis
    proof (cases "buffer_m (data_m this)")
      case None
      with h(3) have xs: "xs = []" "Capacity this = 0" by simp_all
      have sz: "size_m this = 0" using h(1) xs by simp
      have r2: "r2 = Returns ()" "w2 = w1" using sm sz by simp_all
      have res: "r = Returns ()" "this' = this\<lparr>data_m := new_data\<rparr>" "w' = w1"
        using assms(2) False rs sm r2 sz None
        by (simp_all add: Reserve_def RawMemory_Swap_def RawMemory_destroy_def Deallocate_def
            Vector_begin_def GetAddress_def new_data_def)
      have "holds this' w' xs"
        using res xs sz A(2)[of nb] nc0 by (simp add: holds_def Capacity_def new_data_def nb_def)
      then show ?thesis
        using res False None sz A by (simp add: new_data_def nb_def Vector_begin_def GetAddress_def)
    next
      case (Some a)
      note ha = h(4)[OF Some]
      have ab: "a \<noteq> nb" using ha by (simp add: nb_def)
      have sb: "block_at w1 a = Some ([] @ map Obj xs @ replicate (Capacity this - length xs) Raw)"
        using ha ab A(2)[of a] by (simp add: nb_def)
      have sm': "SafetyMoveOrCopy e (Some a, 0) (Some nb, 0) (length xs) w1 = (r2, w2)"
        using sm Some h(1) by (simp add: Vector_begin_def GetAddress_def new_data_def)
      note S = SafetyMoveOrCopy_spec[OF ab sb _ nbblk _ sm', simplified]
      show ?thesis
      proof (cases r2)
        case (Returns u)
        from S Returns have w2: "violations w2 = violations w1"
          "\<And>c. block_at w2 c =
            (if c = nb then Some (map Obj xs @ replicate (new_capacity - length xs) Raw)
             else if c = a then Some (map Obj (left_behind e (length xs) xs) @ replicate (Capacity this - length xs) Raw)
             else block_at w1 c)"
          "log w2 = log w1 @ relocate_events e (Some nb, 0) (Some a, 0) (length xs)"
          by simp_all
        define w3 where "w3 = destroy_n (Some a, 0) (length xs) w2"
        have b2: "block_at w2 a = Some ([] @ map Obj (left_behind e (length xs) xs) @ replicate (Capacity this - length xs) Raw)"
          using w2(2)[of a] ab by simp
        from destroy_n_live[OF b2, of 0, simplified]
        have w3: "\<And>c. block_at w3 c = (if c = a then Some (replicate (length xs) Raw @ replicate (Capacity this - length xs) Raw) else block_at w2 c)"
          "log w3 = log w2 @ destroy_events (Some a, 0) (length xs)"
          "violations w3 = violations w2"
          by (simp_all add: w3_def)
        have b3: "block_at w3 a = Some (replicate (length xs) Raw @ replicate (Capacity this - length xs) Raw)"
          using w3(1)[of a] by simp
        note D = Deallocate_facts[OF b3]
        have res: "r = Returns ()" "this' = this\<lparr>data_m := new_data\<rparr>" "w' = Deallocate (Some a) w3"
          using assms(2) False rs sm Returns Some h(1)
          by (simp_all add: Reserve_def RawMemory_Swap_def RawMemory_destroy_def
              Vector_begin_def GetAddress_def new_data_def w3_def)
        have hold: "holds this' w' xs"
          using res h(1) nle nc0 ab D(1)[of nb] w3(1)[of nb] w2(2)[of nb]
          by (simp add: holds_def Capacity_def new_data_def)
        have blocks: "\<forall>c. c \<noteq> nb \<longrightarrow> block_at w' c = (if Some c = buffer_m (data_m this) then None else block_at w c)"
          using res Some D(1) w3(1) w2(2) A(2) by (simp add: nb_def)
        have lg: "log w' = log w @ [NewBlock nb new_capacity]
                      @ relocate_events e (Some nb, 0) (Vector_begin this) (size_m this)
                      @ destroy_events (Vector_begin this) (size_m this) @ [DeleteBlock a]"
          using res D(2) w3(2) w2(3) A(3) Some h(1) by (simp add: nb_def Vector_begin_def GetAddress_def)
        have vi: "violations w' = violations w"
          using res D(3) w3(3) w2(1) A(4) by simp
        show ?thesis using False res hold blocks lg vi Some
          by (simp add: new_data_def nb_def)
      next
        case (Throws ex)
        from S Throws obtain k where k: "k < length xs"
          "\<And>c. block_at w2 c =
              (if c = nb then Some (replicate (length xs) Raw @ replicate (new_capacity - length xs) Raw)
               else if c = a then Some (map Obj (left_behind e k xs) @ replicate (Capacity this - length xs) Raw)
               else block_at w1 c)"
          "relocation_throws e (log w1 @ relocate_events e (Some nb, 0) (Some a, 0) k) (xs ! k)"
          and ex: "ex = element_exception" and v2: "violations w2 = violations w1"
          by auto
        have b2: "block_at w2 nb = Some (replicate (length xs) Raw @ replicate (new_capacity - length xs) Raw)"
          using k(2)[of nb] by simp
        note D = Deallocate_facts[OF b2]
        have res: "r = Throws element_exception" "this' = this" "w' = Deallocate (Some nb) w2"
          using assms(2) False rs sm Throws ex
          by (simp_all add: Reserve_def RawMemory_destroy_def new_data_def)
        have blk: "\<And>c. block_at w' c = (if c = a then Some (map Obj (left_behind e k xs) @ replicate (Capacity this - length xs) Raw) else block_at w c)"
          using res D(1) k(2) A(2) ab by (simp add: nb_def)
        have hold: "holds this w' (left_behind e k xs)"
          using assms(1) Some blk[of a] by (simp add: holds_def)
        have vi: "violations w' = violations w" using res D(3) v2 A(4) by simp
        have copy: "is_copy_constructible e \<and> \<not> is_nothrow_move_constructible e \<longrightarrow>
              holds this w' xs \<and> (\<forall>c. block_at w' c = block_at w c)"
          using hold blk ha by (auto simp: left_behind_copy)
        have thr: "relocation_throws e
                 (log w @ NewBlock nb new_capacity
                    # relocate_events e (Some nb, 0) (Vector_begin this) k) (xs ! k)"
          using k(3) A(3) Some by (auto simp: nb_def Vector_begin_def GetAddress_def)
        have why: "\<exists>k<length xs. holds this w' (left_behind e k xs) \<and>
               relocation_throws e
                 (log w @ NewBlock nb new_capacity
                    # relocate_events e (Some nb, 0) (Vector_begin this) k) (xs ! k)"
          using k(1) hold thr by blast
        have others: "\<forall>c. Some c \<noteq> buffer_m (data_m this) \<longrightarrow> block_at w' c = block_at w c"
          using blk Some by auto
        show ?thesis using False res vi copy why others by (simp add: nb_def)
      qed
    qed
  qed
qed

theorem Reserve_strong_guarantee_witness:
  "holds \<lparr>data_m = \<lparr>buffer_m = Some 0, capacity_m = 2\<rparr>, size_m = 2\<rparr>
       \<lparr>heap = [Some [Obj 1, Obj 2]], log = [], violations = []\<rparr> [1, 2::int] \<and>
   fits second_copy_throws 4 \<and> fits int_like 4 \<and> fits int_like 2 \<and>
   Reserve second_copy_throws 4
       \<lparr>data_m = \<lparr>buffer_m = Some 0, capacity_m = 2\<rparr>, size_m = 2\<rparr>
       \<lparr>heap = [Some [Obj 1, Obj 2]], log = [], violations = []\<rparr>
     = (Throws element_exception,
        \<lparr>data_m = \<lparr>buffer_m = Some 0, capacity_m = 2\<rparr>, size_m = 2\<rparr>,
        \<lparr>heap = [Some [Obj 1, Obj 2], None],
         log = [NewBlock 1 4, CopyConstruct (Some 1, 0) (Some 0, 0), Destroy (Some 1, 0),
                DeleteBlock 1],
         violations = []\<rparr>) \<and>
   (\<forall>c. block_at
          \<lparr>heap = [Some [Obj 1, Obj 2], None],
           log = [NewBlock 1 4, CopyConstruct (Some 1, 0) (Some 0, 0), Destroy (Some 1, 0),
                  DeleteBlock 1],
           violations = []\<rparr> c
        = block_at \<lparr>heap = [Some [Obj 1, Obj (2::int)]], log = [], violations = []\<rparr> c) \<and>
   Reserve int_like 4
       \<lparr>data_m = \<lparr>buffer_m = Some 0, capacity_m = 2\<rparr>, size_m = 2\<rparr>
       \<lparr>heap = [Some [Obj 1, Obj 2]], log = [], violations = []\<rparr>
     = (Returns (),
        \<lparr>data_m = \<lparr>buffer_m = Some 1, capacity_m = 4\<rparr>, size_m = 2\<rparr>,
        \<lparr>heap = [None, Some [Obj 1, Obj 2, Raw, Raw]],
         log = [NewBlock 1 4, MoveConstruct (Some 1, 0) (Some 0, 0),
                MoveConstruct (Some 1, 1) (Some 0, 1), Destroy (Some 0, 0), Destroy (Some 0, 1),
                DeleteBlock 0],
         violations = []\<rparr>) \<and>
   holds \<lparr>data_m = \<lparr>buffer_m = Some 1, capacity_m = 4\<rparr>, size_m = 2\<rparr>
        \<lparr>heap = [None, Some [Obj 1, Obj 2, Raw, Raw]],
         log = [NewBlock 1 4, MoveConstruct (Some 1, 0) (Some 0, 0),
                MoveConstruct (Some 1, 1) (Some 0, 1), Destroy (Some 0, 0), Destroy (Some 0, 1),
                DeleteBlock 0],
         violations = []\<rparr> [1, 2::int] \<and>
   Reserve int_like 2
       \<lparr>data_m = \<lparr>buffer_m = Some 0, capacity_m = 2\<rparr>, size_m = 2\<rparr>
       \<lparr>heap = [Some [Obj 1, Obj 2]], log = [], violations = []\<rparr>
     = (Returns (),
        \<lparr>data_m = \<lparr>buffer_m = Some 0, capacity_m = 2\<rparr>, size_m = 2\<rparr>,
        \<lparr>heap = [Some [Obj 1, Obj (2::int)]], log = [], violations = []\<rparr>)"
proof -
  have h: "holds \<lparr>data_m = \<lparr>buffer_m = Some 0, capacity_m = 2\<rparr>, size_m = 2\<rparr>
       \<lparr>heap = [Some [Obj 1, Obj 2]], log = [], violations = []\<rparr> [1, 2::int]"
    by code_simp
  have f1: "fits second_copy_throws 4" and f2: "fits int_like 4" and f3: "fits int_like 2"
    by (simp_all add: fits_def SIZE_MAX_def second_copy_throws_def int_like_def)
  have r1: "Reserve second_copy_throws 4
       \<lparr>data_m = \<lparr>buffer_m = Some 0, capacity_m = 2\<rparr>, size_m = 2\<rparr>
       \<lparr>heap = [Some [Obj 1, Obj 2]], log = [], violations = []\<rparr>
     = (Throws element_exception,
        \<lparr>data_m = \<lparr>buffer_m = Some 0, capacity_m = 2\<rparr>, size_m = 2\<rparr>,
        \<lparr>heap = [Some [Obj 1, Obj 2], None],
         log = [NewBlock 1 4, CopyConstruct (Some 1, 0) (Some 0, 0), Destroy (Some 1, 0),
                DeleteBlock 1],
         violations = []\<rparr>)"
    by code_simp
  have r2: "Reserve int_like 4
       \<lparr>data_m = \<lparr>buffer_m = Some 0, capacity_m = 2\<rparr>, size_m = 2\<rparr>
       \<lparr>heap = [Some [Obj 1, Obj 2]], log = [], violations = []\<rparr>
     = (Returns (),
        \<lparr>data_m = \<lparr>buffer_m = Some 1, capacity_m = 4\<rparr>, size_m = 2\<rparr>,
        \<lparr>heap = [None, Some [Obj 1, Obj 2, Raw, Raw]],
         log = [NewBlock 1 4, MoveConstruct (Some 1, 0) (Some 0, 0),
                MoveConstruct (Some 1, 1) (Some 0, 1), Destroy (Some 0, 0), Destroy (Some 0, 1),
                DeleteBlock 0],
         violations = []\<rparr>)"
    by code_simp
  have r3: "Reserve int_like 2
       \<lparr>data_m = \<lparr>buffer_m = Some 0, capacity_m = 2\<rparr>, size_m = 2\<rparr>
       \<lparr>heap = [Some [Obj 1, Obj 2]], log = [], violations = []\<rparr>
     = (Returns (),
        \<lparr>data_m = \<lparr>buffer_m = Some 0, capacity_m = 2\<rparr>, size_m = 2\<rparr>,
        \<lparr>heap = [Some [Obj 1, Obj (2::int)]], log = [], violations = []\<rparr>)"
    by code_simp
  have c1: "\<forall>c. block_at
          \<lparr>heap = [Some [Obj 1, Obj 2], None],
           log = [NewBlock 1 4, CopyConstruct (Some 1, 0) (Some 0, 0), Destroy (Some 1, 0),
                  DeleteBlock 1],
           violations = []\<rparr> c
        = block_at \<lparr>heap = [Some [Obj 1, Obj (2::int)]], log = [], violations = []\<rparr> c"
    using Reserve_strong_guarantee[OF h r1 f1]
    by (simp add: Capacity_def second_copy_throws_def)
  have c2: "holds \<lparr>data_m = \<lparr>buffer_m = Some 1, capacity_m = 4\<rparr>, size_m = 2\<rparr>
        \<lparr>heap = [None, Some [Obj 1, Obj 2, Raw, Raw]],
         log = [NewBlock 1 4, MoveConstruct (Some 1, 0) (Some 0, 0),
                MoveConstruct (Some 1, 1) (Some 0, 1), Destroy (Some 0, 0), Destroy (Some 0, 1),
                DeleteBlock 0],
         violations = []\<rparr> [1, 2::int]"
    using Reserve_strong_guarantee[OF h r2 f2] by (simp add: Capacity_def)
  show ?thesis using h f1 f2 f3 r1 r2 r3 c1 c2 by simp
qed

section \<open>Move or copy\<close>

text \<open>
  C5.  Let \<^verbatim>\<open>SafetyMoveOrCopy\<close> relocate the live objects \<open>xs\<close> of one block into raw slots of
  another block and return.  When the move constructor of the element type cannot throw, or
  the type cannot be copied, every element was move-constructed and its source is left
  moved-from.  In every other case every element was copy-constructed and the sources are as
  they were.  In both cases the destination holds \<open>xs\<close>.
\<close>

theorem relocation_moves_or_copies:
  assumes "a \<noteq> b"
    and "block_at w a = Some (spre @ map Obj xs @ spost)" and "i = length spre"
    and "block_at w b = Some (dpre @ replicate (length xs) Raw @ dpost)" and "j = length dpre"
    and "SafetyMoveOrCopy e (Some a, i) (Some b, j) (length xs) w = (Returns u, w')"
  shows "log w' = log w @
           (if is_nothrow_move_constructible e \<or> \<not> is_copy_constructible e
            then map (\<lambda>k. MoveConstruct (Some b, j + k) (Some a, i + k)) [0..<length xs]
            else map (\<lambda>k. CopyConstruct (Some b, j + k) (Some a, i + k)) [0..<length xs]) \<and>
         block_at w' b = Some (dpre @ map Obj xs @ dpost) \<and>
         block_at w' a = Some (spre @ map Obj
           (if is_nothrow_move_constructible e \<or> \<not> is_copy_constructible e
            then map (moved_from e) xs else xs) @ spost)"
  using SafetyMoveOrCopy_spec[OF assms] assms(1)
  by (simp add: relocate_events_def left_behind_def move_events_def copy_events_def)

theorem relocation_moves_or_copies_witness:
  "SafetyMoveOrCopy move_only_throwing (Some 0, 0) (Some 1, 0) 2
       \<lparr>heap = [Some [Obj 5, Obj 7], Some [Raw, Raw]], log = [], violations = []\<rparr>
     = (Returns (),
        \<lparr>heap = [Some [Obj 0, Obj 0], Some [Obj 5, Obj 7]],
         log = [MoveConstruct (Some 1, 0) (Some 0, 0), MoveConstruct (Some 1, 1) (Some 0, 1)],
         violations = []\<rparr>) \<and>
   log \<lparr>heap = [Some [Obj 0, Obj 0], Some [Obj 5, Obj (7::int)]],
         log = [MoveConstruct (Some 1, 0) (Some 0, 0), MoveConstruct (Some 1, 1) (Some 0, 1)],
         violations = []\<rparr>
     = map (\<lambda>k. MoveConstruct (Some 1, 0 + k) (Some 0, 0 + k)) [0..<length [5, 7::int]] \<and>
   SafetyMoveOrCopy second_copy_throws (Some 0, 0) (Some 1, 0) 1
       \<lparr>heap = [Some [Obj 5, Obj 7], Some [Raw, Raw]], log = [], violations = []\<rparr>
     = (Returns (),
        \<lparr>heap = [Some [Obj 5, Obj 7], Some [Obj 5, Raw]],
         log = [CopyConstruct (Some 1, 0) (Some 0, 0)],
         violations = []\<rparr>) \<and>
   log \<lparr>heap = [Some [Obj 5, Obj 7], Some [Obj (5::int), Raw]],
         log = [CopyConstruct (Some 1, 0) (Some 0, 0)],
         violations = []\<rparr>
     = map (\<lambda>k. CopyConstruct (Some 1, 0 + k) (Some 0, 0 + k)) [0..<length [5::int]]"
proof -
  have r1: "SafetyMoveOrCopy move_only_throwing (Some 0, 0) (Some 1, 0) 2
       \<lparr>heap = [Some [Obj 5, Obj 7], Some [Raw, Raw]], log = [], violations = []\<rparr>
     = (Returns (),
        \<lparr>heap = [Some [Obj 0, Obj 0], Some [Obj 5, Obj 7]],
         log = [MoveConstruct (Some 1, 0) (Some 0, 0), MoveConstruct (Some 1, 1) (Some 0, 1)],
         violations = []\<rparr>)"
    by code_simp
  have r2: "SafetyMoveOrCopy second_copy_throws (Some 0, 0) (Some 1, 0) 1
       \<lparr>heap = [Some [Obj 5, Obj 7], Some [Raw, Raw]], log = [], violations = []\<rparr>
     = (Returns (),
        \<lparr>heap = [Some [Obj 5, Obj 7], Some [Obj 5, Raw]],
         log = [CopyConstruct (Some 1, 0) (Some 0, 0)],
         violations = []\<rparr>)"
    by code_simp
  have r1l: "SafetyMoveOrCopy move_only_throwing (Some 0, 0) (Some 1, 0) (length [5, 7::int])
       \<lparr>heap = [Some [Obj 5, Obj 7], Some [Raw, Raw]], log = [], violations = []\<rparr>
     = (Returns (),
        \<lparr>heap = [Some [Obj 0, Obj 0], Some [Obj 5, Obj 7]],
         log = [MoveConstruct (Some 1, 0) (Some 0, 0), MoveConstruct (Some 1, 1) (Some 0, 1)],
         violations = []\<rparr>)"
    by code_simp
  have r2l: "SafetyMoveOrCopy second_copy_throws (Some 0, 0) (Some 1, 0) (length [5::int])
       \<lparr>heap = [Some [Obj 5, Obj 7], Some [Raw, Raw]], log = [], violations = []\<rparr>
     = (Returns (),
        \<lparr>heap = [Some [Obj 5, Obj 7], Some [Obj 5, Raw]],
         log = [CopyConstruct (Some 1, 0) (Some 0, 0)],
         violations = []\<rparr>)"
    by code_simp
  have b1: "block_at \<lparr>heap = [Some [Obj 5, Obj 7], Some [Raw, Raw]], log = [], violations = []\<rparr> 0
              = Some ([] @ map Obj [5, 7::int] @ [])"
    and b2: "block_at \<lparr>heap = [Some [Obj 5, Obj (7::int)], Some [Raw, Raw]], log = [], violations = []\<rparr> 1
              = Some ([] @ replicate (length [5, 7::int]) Raw @ [])"
    and b3: "block_at \<lparr>heap = [Some [Obj 5, Obj 7], Some [Raw, Raw]], log = [], violations = []\<rparr> 0
              = Some ([] @ map Obj [5::int] @ [Obj 7])"
    and b4: "block_at \<lparr>heap = [Some [Obj 5, Obj (7::int)], Some [Raw, Raw]], log = [], violations = []\<rparr> 1
              = Some ([] @ replicate (length [5::int]) Raw @ [Raw])"
    by (simp_all add: block_at_def)
  have ne: "(0::nat) \<noteq> 1" and z: "(0::nat) = length ([]::int slot list)" by simp_all
  have c1: "log \<lparr>heap = [Some [Obj 0, Obj 0], Some [Obj 5, Obj (7::int)]],
         log = [MoveConstruct (Some 1, 0) (Some 0, 0), MoveConstruct (Some 1, 1) (Some 0, 1)],
         violations = []\<rparr>
     = map (\<lambda>k. MoveConstruct (Some 1, 0 + k) (Some 0, 0 + k)) [0..<length [5, 7::int]]"
    using relocation_moves_or_copies[OF ne b1 z b2 z r1l]
    by (simp add: move_only_throwing_def)
  have c2: "log \<lparr>heap = [Some [Obj 5, Obj 7], Some [Obj (5::int), Raw]],
         log = [CopyConstruct (Some 1, 0) (Some 0, 0)],
         violations = []\<rparr>
     = map (\<lambda>k. CopyConstruct (Some 1, 0 + k) (Some 0, 0 + k)) [0..<length [5::int]]"
    using relocation_moves_or_copies[OF ne b3 z b4 z r2l]
    by (simp add: second_copy_throws_def)
  show ?thesis using r1 c1 r2 c2 by blast
qed

section \<open>Three appends to an empty vector\<close>

text \<open>
  C6.  Starting from a default-constructed vector (size 0, capacity 0, no block), three calls of
  \<^verbatim>\<open>PushBack\<close> with 1, 2 and 3 return; each of them finds the vector full and relocates, with
  capacities 1, then 2, then 4 (1 when the size was 0, twice the size otherwise), never less
  than the size.  Afterwards the size is 3 and the elements are 1, 2, 3.
\<close>

theorem three_push_backs:
  "PushBack int_like 1 Vector_default \<lparr>heap = [], log = [], violations = []\<rparr>
     = (Returns (),
        \<lparr>data_m = \<lparr>buffer_m = Some 0, capacity_m = 1\<rparr>, size_m = 1\<rparr>,
        \<lparr>heap = [Some [Obj 1]], log = [NewBlock 0 1, Construct (Some 0, 0)], violations = []\<rparr>) \<and>
   PushBack int_like 2
        \<lparr>data_m = \<lparr>buffer_m = Some 0, capacity_m = 1\<rparr>, size_m = 1\<rparr>
        \<lparr>heap = [Some [Obj 1]], log = [NewBlock 0 1, Construct (Some 0, 0)], violations = []\<rparr>
     = (Returns (),
        \<lparr>data_m = \<lparr>buffer_m = Some 1, capacity_m = 2\<rparr>, size_m = 2\<rparr>,
        \<lparr>heap = [None, Some [Obj 1, Obj 2]],
         log = [NewBlock 0 1, Construct (Some 0, 0), NewBlock 1 2, Construct (Some 1, 1),
                MoveConstruct (Some 1, 0) (Some 0, 0), Destroy (Some 0, 0), DeleteBlock 0],
         violations = []\<rparr>) \<and>
   PushBack int_like 3
        \<lparr>data_m = \<lparr>buffer_m = Some 1, capacity_m = 2\<rparr>, size_m = 2\<rparr>
        \<lparr>heap = [None, Some [Obj 1, Obj 2]],
         log = [NewBlock 0 1, Construct (Some 0, 0), NewBlock 1 2, Construct (Some 1, 1),
                MoveConstruct (Some 1, 0) (Some 0, 0), Destroy (Some 0, 0), DeleteBlock 0],
         violations = []\<rparr>
     = (Returns (),
        \<lparr>data_m = \<lparr>buffer_m = Some 2, capacity_m = 4\<rparr>, size_m = 3\<rparr>,
        \<lparr>heap = [None, None, Some [Obj 1, Obj 2, Obj 3, Raw]],
         log = [NewBlock 0 1, Construct (Some 0, 0), NewBlock 1 2, Construct (Some 1, 1),
                MoveConstruct (Some 1, 0) (Some 0, 0), Destroy (Some 0, 0), DeleteBlock 0,
                NewBlock 2 4, Construct (Some 2, 2), MoveConstruct (Some 2, 0) (Some 1, 0),
                MoveConstruct (Some 2, 1) (Some 1, 1), Destroy (Some 1, 0), Destroy (Some 1, 1),
                DeleteBlock 1],
         violations = []\<rparr>) \<and>
   Size Vector_default = 0 \<and> Capacity Vector_default = 0 \<and>
   Size \<lparr>data_m = \<lparr>buffer_m = Some 0, capacity_m = 1\<rparr>, size_m = 1\<rparr> = 1 \<and>
   Capacity \<lparr>data_m = \<lparr>buffer_m = Some 0, capacity_m = 1\<rparr>, size_m = 1\<rparr> = 1 \<and>
   Size \<lparr>data_m = \<lparr>buffer_m = Some 1, capacity_m = 2\<rparr>, size_m = 2\<rparr> = 2 \<and>
   Capacity \<lparr>data_m = \<lparr>buffer_m = Some 1, capacity_m = 2\<rparr>, size_m = 2\<rparr> = 2 \<and>
   Size \<lparr>data_m = \<lparr>buffer_m = Some 2, capacity_m = 4\<rparr>, size_m = 3\<rparr> = 3 \<and>
   Capacity \<lparr>data_m = \<lparr>buffer_m = Some 2, capacity_m = 4\<rparr>, size_m = 3\<rparr> = 4 \<and>
   elements \<lparr>data_m = \<lparr>buffer_m = Some 2, capacity_m = 4\<rparr>, size_m = 3\<rparr>
        \<lparr>heap = [None, None, Some [Obj 1, Obj 2, Obj 3, Raw]],
         log = [NewBlock 0 1, Construct (Some 0, 0), NewBlock 1 2, Construct (Some 1, 1),
                MoveConstruct (Some 1, 0) (Some 0, 0), Destroy (Some 0, 0), DeleteBlock 0,
                NewBlock 2 4, Construct (Some 2, 2), MoveConstruct (Some 2, 0) (Some 1, 0),
                MoveConstruct (Some 2, 1) (Some 1, 1), Destroy (Some 1, 0), Destroy (Some 1, 1),
                DeleteBlock 1],
         violations = []\<rparr> = [Some 1, Some 2, Some (3::int)]"
  by code_simp

section \<open>Moving a vector\<close>

text \<open>
  C9.  Let \<open>a\<close> hold \<open>xs\<close> and \<open>b\<close> hold \<open>ys\<close>, in different blocks.  The move constructor and the
  move assignment cannot fail (they have no outcome but their result).  A vector
  move-constructed from \<open>a\<close> is what \<open>a\<close> was, with its block, capacity and size, and \<open>a\<close> is left
  with size 0, a null buffer and capacity 0; no memory is touched.  After \<^verbatim>\<open>b = std::move(a)\<close>,
  \<open>b\<close> is what \<open>a\<close> was and holds \<open>xs\<close>, \<open>a\<close> is left empty in the same way, every block other than
  the old block of \<open>b\<close> is as before, and the only event is the deletion of that block: no
  element is constructed or destroyed.
\<close>

theorem move_leaves_source_empty:
  assumes "holds a w xs" and "holds b w ys"
    and "buffer_m (data_m b) \<noteq> buffer_m (data_m a) \<or> buffer_m (data_m a) = None"
  shows "Vector_move a = (a, Vector_default) \<and>
         Size Vector_default = 0 \<and> Capacity Vector_default = 0 \<and>
         buffer_m (data_m Vector_default) = None \<and>
         (case Vector_move_assign b (Other a) w of
            (b', a', w') \<Rightarrow>
              b' = a \<and> a' = Other Vector_default \<and> holds b' w' xs \<and> holds Vector_default w' [] \<and>
              log w' = log w @ (case buffer_m (data_m b) of None \<Rightarrow> [] | Some c \<Rightarrow> [DeleteBlock c]) \<and>
              (\<forall>c. Some c \<noteq> buffer_m (data_m b) \<longrightarrow> block_at w' c = block_at w c))"
proof -
  have m: "Vector_move a = (a, Vector_default)"
    by (simp add: Vector_move_def RawMemory_move_def Vector_default_def RawMemory_default_def)
  have d: "holds Vector_default w' []" for w' :: "'a world"
    by (simp add: holds_def Vector_default_def RawMemory_default_def Capacity_def)
  have z: "Size Vector_default = 0 \<and> Capacity Vector_default = 0 \<and>
         buffer_m (data_m Vector_default) = None"
    by (simp add: Size_def Capacity_def Vector_default_def RawMemory_default_def)
  show ?thesis
  proof (cases "buffer_m (data_m b)")
    case None
    then show ?thesis using m d z assms(1)
      by (simp add: Vector_move_assign_def RawMemory_move_assign_def Deallocate_def
          Vector_default_def RawMemory_default_def)
  next
    case (Some c)
    from holdsD(4)[OF assms(2) Some] obtain blk where blk: "block_at w c = Some blk" by blast
    note D = Deallocate_facts[OF blk]
    have "holds a (Deallocate (Some c) w) xs"
      using assms(1,3) Some D(1) by (auto simp: holds_def split: option.splits)
    then show ?thesis using m d z Some D
      by (simp add: Vector_move_assign_def RawMemory_move_assign_def
          Vector_default_def RawMemory_default_def)
  qed
qed

theorem move_leaves_source_empty_witness:
  "holds \<lparr>data_m = \<lparr>buffer_m = Some 0, capacity_m = 2\<rparr>, size_m = 2\<rparr>
       \<lparr>heap = [Some [Obj 1, Obj 2], Some [Raw]], log = [], violations = []\<rparr> [1, 2::int] \<and>
   holds \<lparr>data_m = \<lparr>buffer_m = Some 1, capacity_m = 1\<rparr>, size_m = 0\<rparr>
       \<lparr>heap = [Some [Obj 1, Obj 2], Some [Raw]], log = [], violations = []\<rparr> ([]::int list) \<and>
   Vector_move \<lparr>data_m = \<lparr>buffer_m = Some 0, capacity_m = 2\<rparr>, size_m = 2\<rparr>
     = (\<lparr>data_m = \<lparr>buffer_m = Some 0, capacity_m = 2\<rparr>, size_m = 2\<rparr>,
        \<lparr>data_m = \<lparr>buffer_m = None, capacity_m = 0\<rparr>, size_m = 0\<rparr>) \<and>
   Vector_move_assign \<lparr>data_m = \<lparr>buffer_m = Some 1, capacity_m = 1\<rparr>, size_m = 0\<rparr>
       (Other \<lparr>data_m = \<lparr>buffer_m = Some 0, capacity_m = 2\<rparr>, size_m = 2\<rparr>)
       \<lparr>heap = [Some [Obj 1, Obj 2], Some [Raw]], log = [], violations = []\<rparr>
     = (\<lparr>data_m = \<lparr>buffer_m = Some 0, capacity_m = 2\<rparr>, size_m = 2\<rparr>,
        Other \<lparr>data_m = \<lparr>buffer_m = None, capacity_m = 0\<rparr>, size_m = 0\<rparr>,
        \<lparr>heap = [Some [Obj 1, Obj (2::int)], None], log = [DeleteBlock 1], violations = []\<rparr>)"
proof -
  have h1: "holds \<lparr>data_m = \<lparr>buffer_m = Some 0, capacity_m = 2\<rparr>, size_m = 2\<rparr>
       \<lparr>heap = [Some [Obj 1, Obj 2], Some [Raw]], log = [], violations = []\<rparr> [1, 2::int]"
    by code_simp
  have h2: "holds \<lparr>data_m = \<lparr>buffer_m = Some 1, capacity_m = 1\<rparr>, size_m = 0\<rparr>
       \<lparr>heap = [Some [Obj 1, Obj 2], Some [Raw]], log = [], violations = []\<rparr> ([]::int list)"
    by code_simp
  have r: "Vector_move_assign \<lparr>data_m = \<lparr>buffer_m = Some 1, capacity_m = 1\<rparr>, size_m = 0\<rparr>
       (Other \<lparr>data_m = \<lparr>buffer_m = Some 0, capacity_m = 2\<rparr>, size_m = 2\<rparr>)
       \<lparr>heap = [Some [Obj 1, Obj 2], Some [Raw]], log = [], violations = []\<rparr>
     = (\<lparr>data_m = \<lparr>buffer_m = Some 0, capacity_m = 2\<rparr>, size_m = 2\<rparr>,
        Other \<lparr>data_m = \<lparr>buffer_m = None, capacity_m = 0\<rparr>, size_m = 0\<rparr>,
        \<lparr>heap = [Some [Obj 1, Obj (2::int)], None], log = [DeleteBlock 1], violations = []\<rparr>)"
    by code_simp
  show ?thesis using move_leaves_source_empty[OF h1 h2] h1 h2 r
    by (simp add: Vector_default_def RawMemory_default_def)
qed

lemma uninitialized_copy_n_0 [simp]: "uninitialized_copy_n e p 0 q w = (Returns (), w)"
  by (simp add: uninitialized_copy_n_def)

lemma holds_block_length:
  "holds this w xs \<Longrightarrow> buffer_m (data_m this) = Some a \<Longrightarrow> block_at w a = Some blk \<Longrightarrow>
   length blk = Capacity this"
  by (auto simp: holds_def)

section \<open>The copy constructor\<close>

lemma Vector_copy_spec:
  assumes "holds other w xs" and "Vector_copy e other w = (res, w')"
    and "fits e (length xs)"
  shows "violations w' = violations w \<and>
    (case res of
       Returns t \<Rightarrow>
         t = \<lparr>data_m = \<lparr>buffer_m = (if xs = [] then None else Some (length (heap w))),
                         capacity_m = length xs\<rparr>, size_m = length xs\<rparr> \<and>
         holds t w' xs \<and>
         (\<forall>c. c \<noteq> length (heap w) \<longrightarrow> block_at w' c = block_at w c) \<and>
         log w' = log w @
           (if xs = [] then []
            else NewBlock (length (heap w)) (length xs)
                   # copy_events (Some (length (heap w)), 0) (Vector_begin other) (length xs))
     | Throws x \<Rightarrow>
         (\<forall>c. block_at w' c = block_at w c) \<and>
         (x = bad_alloc \<and> operator_new_throws e (log w) (length xs) \<and> w' = w \<or>
          x = element_exception \<and>
          (\<exists>k<length xs.
             copy_ctor_throws e
               (log w @ NewBlock (length (heap w)) (length xs)
                  # copy_events (Some (length (heap w)), 0) (Vector_begin other) k)
               (xs ! k))))"
proof (cases "xs = []")
  case True
  then have "size_m other = 0" using holdsD(1)[OF assms(1)] by simp
  then have "res = Returns \<lparr>data_m = \<lparr>buffer_m = None, capacity_m = 0\<rparr>, size_m = 0\<rparr> \<and> w' = w"
    using assms(2) by (simp add: Vector_copy_def RawMemory_sized_def Allocate_def)
  then show ?thesis using True by (simp add: holds_def Capacity_def)
next
  case False
  note h = holdsD[OF assms(1)]
  define n where "n = length xs"
  define nb where "nb = length (heap w)"
  have n0: "n \<noteq> 0" using False by (simp add: n_def)
  have sz: "size_m other = n" using h(1) by (simp add: n_def)
  obtain a where a: "buffer_m (data_m other) = Some a"
    using h(3) False by (cases "buffer_m (data_m other)") auto
  note ha = h(4)[OF a]
  show ?thesis
  proof (cases "operator_new_throws e (log w) n")
    case True
    then have "res = Throws bad_alloc \<and> w' = w"
      using assms(2) n0 sz by (simp add: Vector_copy_def RawMemory_sized_def Allocate_def)
    then show ?thesis using True by (simp add: n_def)
  next
    case nothrow: False
    obtain ra w1 where al: "Allocate e n w = (ra, w1)" by (cases "Allocate e n w")
    note A = Allocate_facts[OF n0 nothrow al assms(3)[folded n_def]]
    define d where "d = \<lparr>buffer_m = Some nb, capacity_m = n\<rparr>"
    have rs: "RawMemory_sized e (size_m other) w = (Returns d, w1)"
      using al A(1) sz by (simp add: RawMemory_sized_def d_def nb_def)
    obtain r2 w2 where lp: "uninit_copy_loop e (Some a, 0) (Some nb, 0) (Some nb, 0) (length xs) w1 = (r2, w2)"
      by (cases "uninit_copy_loop e (Some a, 0) (Some nb, 0) (Some nb, 0) (length xs) w1")
    have uc: "uninitialized_copy_n e (Vector_begin other) (size_m other) (GetAddress d) w1 = (r2, w2)"
      using lp a sz by (simp add: uninitialized_copy_n_def Vector_begin_def GetAddress_def d_def n_def)
    have ab: "a \<noteq> nb" using ha by (simp add: nb_def)
    have sb: "block_at w1 a = Some ([] @ map Obj xs @ replicate (Capacity other - length xs) Raw)"
      using ha ab A(2)[of a] by (simp add: nb_def)
    have db: "block_at w1 nb = Some ([] @ map Obj [] @ replicate (length xs) Raw @ [])"
      using A(2)[of nb] by (simp add: nb_def n_def)
    note S = uninit_copy_loop_spec[OF ab sb _ db _ _ lp, simplified]
    show ?thesis
    proof (cases r2)
      case (Returns u)
      have res: "res = Returns \<lparr>data_m = d, size_m = n\<rparr>" "w' = w2"
        using assms(2) rs uc Returns sz by (simp_all add: Vector_copy_def)
      have "holds \<lparr>data_m = d, size_m = n\<rparr> w2 xs"
        using S Returns n0 by (simp add: holds_def Capacity_def d_def n_def)
      then show ?thesis using res S Returns False A a
        by (simp add: d_def n_def nb_def Vector_begin_def GetAddress_def)
    next
      case (Throws ex)
      from S Throws obtain k where k: "k < length xs"
        "copy_ctor_throws e (log w1 @ copy_events (Some nb, 0) (Some a, 0) k) (xs ! k)"
        and blk: "\<And>c. block_at w2 c = (if c = nb then Some (replicate (length xs) Raw) else block_at w1 c)"
        and ex: "ex = element_exception" and v2: "violations w2 = violations w1"
        by auto
      have b2: "block_at w2 nb = Some (replicate (length xs) Raw)" using blk[of nb] by simp
      note D = Deallocate_facts[OF b2]
      have res: "res = Throws element_exception" "w' = Deallocate (Some nb) w2"
        using assms(2) rs uc Throws ex by (simp_all add: Vector_copy_def RawMemory_destroy_def d_def)
      have same: "\<forall>c. block_at w' c = block_at w c"
        using res D(1) blk A(2) by (simp add: nb_def)
      have why: "\<exists>k<length xs. copy_ctor_throws e
               (log w @ NewBlock (length (heap w)) (length xs)
                  # copy_events (Some (length (heap w)), 0) (Vector_begin other) k) (xs ! k)"
        using k A(3) a by (auto simp: nb_def n_def Vector_begin_def GetAddress_def)
      show ?thesis using res same why D(3) v2 A(4) by simp
    qed
  qed
qed

lemma Swap_eq: "Swap this other = (other, this)"
  by (simp add: Swap_def RawMemory_Swap_def)

lemma holds_cong:
  "holds this w xs \<Longrightarrow>
   (\<And>a. buffer_m (data_m this) = Some a \<Longrightarrow> block_at w' a = block_at w a) \<Longrightarrow>
   holds this w' xs"
  by (auto simp: holds_def split: option.splits)

section \<open>Emplace\<close>

lemma left_behind_take:
  "k \<le> index \<Longrightarrow> index \<le> length xs \<Longrightarrow>
   left_behind e k (take index xs) @ drop index xs = left_behind e k xs"
proof -
  assume a: "k \<le> index" "index \<le> length xs"
  have "drop k (take index xs @ drop index xs) = drop k (take index xs) @ drop index xs"
    using a by (simp del: append_take_drop_id)
  then have "drop k (take index xs) @ drop index xs = drop k xs" by simp
  then show ?thesis using a by (simp add: left_behind_def min_def)
qed

lemma left_behind_drop:
  "index \<le> length xs \<Longrightarrow>
   left_behind e index (take index xs) @ left_behind e k (drop index xs)
     = left_behind e (index + k) xs"
  by (simp add: left_behind_def take_add add.commute)

lemma destroy_n_1 [simp]: "destroy_n p (Suc 0) w = destroy_at p w"
  by simp

lemma replicate_split:
  "i < c \<Longrightarrow> replicate c x = replicate i x @ x # replicate (c - Suc i) x"
  by (metis Suc_diff_Suc add_Suc_right le_add_diff_inverse less_imp_le_nat replicate.simps(2) replicate_add)

lemma replicate_join:
  "i < c \<Longrightarrow> replicate i x @ x # replicate (c - Suc i) x = replicate c x"
  by (rule replicate_split[symmetric])

lemma EmplaceWithRelocate_spec:
  fixes e :: "'a env" and w :: "'a world"
  assumes "holds this w xs" and "size_m this = Capacity this" and "index \<le> size_m this"
    and "EmplaceWithRelocate e index args this w = (r, this', w')"
    and "fits e (if length xs = 0 then 1 else length xs * 2)"
  defines "n \<equiv> length xs"
  defines "nb \<equiv> length (heap w)"
  defines "cap \<equiv> (if length xs = 0 then 1 else length xs * 2)"
  defines "start \<equiv> Vector_begin this"
  shows "violations w' = violations w \<and>
    (case r of
       Returns u \<Rightarrow>
         (\<exists>v. construct_T e args (log w @ [NewBlock nb cap]) = Some v \<and>
              block_at w' nb
                = Some (map Obj (take index xs @ v # drop index xs) @ replicate (cap - Suc n) Raw)) \<and>
         this' = \<lparr>data_m = \<lparr>buffer_m = Some nb, capacity_m = cap\<rparr>, size_m = n\<rparr> \<and>
         (\<forall>c. c \<noteq> nb \<longrightarrow>
              block_at w' c = (if Some c = buffer_m (data_m this) then None else block_at w c)) \<and>
         log w' = log w @ [NewBlock nb cap, Construct (Some nb, index)]
                    @ relocate_events e (Some nb, 0) start index
                    @ relocate_events e (Some nb, Suc index) (ptr_add start index) (n - index)
                    @ destroy_events start n
                    @ (case buffer_m (data_m this) of None \<Rightarrow> [] | Some a \<Rightarrow> [DeleteBlock a])
     | Throws x \<Rightarrow>
         this' = this \<and> block_at w' nb = None \<and>
         (\<forall>c. Some c \<noteq> buffer_m (data_m this) \<longrightarrow> block_at w' c = block_at w c) \<and>
         (is_copy_constructible e \<and> \<not> is_nothrow_move_constructible e \<longrightarrow>
            holds this w' xs \<and> (\<forall>c. block_at w' c = block_at w c)) \<and>
         (x = bad_alloc \<and> operator_new_throws e (log w) cap \<and> w' = w \<or>
          x = element_exception \<and> construct_T e args (log w @ [NewBlock nb cap]) = None \<and>
            holds this w' xs \<and>
            log w' = log w @ [NewBlock nb cap, DeleteBlock nb] \<or>
          x = element_exception \<and>
            (\<exists>k<index.
               holds this w' (left_behind e k xs) \<and>
               log w' = log w @ [NewBlock nb cap, Construct (Some nb, index)]
                          @ relocate_events e (Some nb, 0) start k
                          @ destroy_events (Some nb, 0) k
                          @ [Destroy (Some nb, index), DeleteBlock nb] \<and>
               relocation_throws e
                 (log w @ [NewBlock nb cap, Construct (Some nb, index)]
                    @ relocate_events e (Some nb, 0) start k) (xs ! k)) \<or>
          x = element_exception \<and>
            (\<exists>k<n - index.
               holds this w' (left_behind e (index + k) xs) \<and>
               log w' = log w @ [NewBlock nb cap, Construct (Some nb, index)]
                          @ relocate_events e (Some nb, 0) start index
                          @ relocate_events e (Some nb, Suc index) (ptr_add start index) k
                          @ destroy_events (Some nb, Suc index) k
                          @ destroy_events (Some nb, 0) (Suc index)
                          @ [DeleteBlock nb] \<and>
               relocation_throws e
                 (log w @ [NewBlock nb cap, Construct (Some nb, index)]
                    @ relocate_events e (Some nb, 0) start index
                    @ relocate_events e (Some nb, Suc index) (ptr_add start index) k)
                 (xs ! (index + k)))))"
proof -
  note h = holdsD[OF assms(1)]
  have sz: "size_m this = n" using h(1) by (simp add: n_def)
  have capn: "Capacity this = n" using assms(2) sz by simp
  have idx: "index \<le> n" using assms(3) sz by simp
  have "cap \<le> SIZE_MAX"
  proof -
    have f: "0 < sizeof_T e" "cap * sizeof_T e \<le> SIZE_MAX"
      using assms(5) by (simp_all add: fits_def cap_def)
    have "cap \<le> cap * sizeof_T e" using f(1) by (cases "sizeof_T e") simp_all
    then show ?thesis using f(2) by (rule order_trans)
  qed
  then have dbl: "size_t_mul n 2 = n * 2"
    using size_t_mul_small[of n 2] by (simp add: cap_def n_def split: if_splits)
  have cap: "n < cap" "cap \<noteq> 0" "(if size_m this = 0 then 1 else size_t_mul (size_m this) 2) = cap"
    using sz dbl by (auto simp: cap_def n_def)
  have hold0: "holds this w (left_behind e 0 xs)" using assms(1) by simp
  show ?thesis
  proof (cases "operator_new_throws e (log w) cap")
    case True
    have "r = Throws bad_alloc \<and> this' = this \<and> w' = w"
      using assms(4) True cap by (simp add: EmplaceWithRelocate_def RawMemory_sized_def Allocate_def)
    then show ?thesis using True hold0 assms(1) by (auto simp: nb_def)
  next
    case nothrow: False
    obtain ra w1 where al: "Allocate e cap w = (ra, w1)" by (cases "Allocate e cap w")
    note A = Allocate_facts[OF cap(2) nothrow al assms(5)[folded cap_def], folded nb_def]
    define new_data where "new_data = \<lparr>buffer_m = Some nb, capacity_m = cap\<rparr>"
    have rs: "RawMemory_sized e (if size_m this = 0 then 1 else size_t_mul (size_m this) 2) w = (Returns new_data, w1)"
      using al A(1) cap(3) by (simp add: RawMemory_sized_def new_data_def)
    have lg1: "log w1 = log w @ [NewBlock nb cap]" using A(3) by simp
    have nb1: "block_at w1 nb = Some (replicate cap Raw)" using A(2)[of nb] by simp
    have old1: "\<And>c. c \<noteq> nb \<Longrightarrow> block_at w1 c = block_at w c" using A(2) by simp
    have fresh: "block_at w nb = None" by (simp add: nb_def)
    show ?thesis
    proof (cases "construct_T e args (log w1)")
      case None
      note D = Deallocate_facts[OF nb1]
      have res: "r = Throws element_exception" "this' = this" "w' = Deallocate (Some nb) w1"
        using assms(4) rs None by (simp_all add: EmplaceWithRelocate_def RawMemory_destroy_def new_data_def)
      have same: "\<forall>c. block_at w' c = block_at w c"
        using res D(1) A(2) fresh by simp
      have hold: "holds this w' xs" using assms(1) same by (auto intro: holds_cong)
      have "\<forall>c. Some c \<noteq> buffer_m (data_m this) \<longrightarrow> block_at w' c = block_at w c"
        using same by simp
      moreover have "log w' = log w @ [NewBlock nb cap, DeleteBlock nb]"
        using res D(2) lg1 by simp
      moreover have "block_at w' nb = None" using res D(1) by simp
      moreover have "violations w' = violations w" using res D(3) A(4) by simp
      ultimately show ?thesis using res None lg1 hold same by simp
    next
      case (Some v)
      define w2 where "w2 = construct_at (ptr_add (GetAddress new_data) index) v
                              (Construct (ptr_add (GetAddress new_data) index)) w1"
      have w2': "w2 = construct_at (Some nb, index) v (Construct (Some nb, index)) w1"
        by (simp add: w2_def GetAddress_def new_data_def)
      have nb1': "block_at w1 nb = Some (replicate index Raw @ Raw # replicate (cap - Suc index) Raw)"
        using nb1 idx cap(1) by (simp add: replicate_join)
      note C = construct_at_raw[OF nb1', of index v "Construct (Some nb, index)", simplified, folded w2']
      have lg2: "log w2 = log w @ [NewBlock nb cap, Construct (Some nb, index)]"
        using C(2) lg1 by simp
      have v2: "violations w2 = violations w" using C(3) A(4) by simp
      obtain r3 w3 where p: "SafetyMoveOrCopy e start (GetAddress new_data) index w2 = (r3, w3)"
        by (cases "SafetyMoveOrCopy e start (GetAddress new_data) index w2")
      have unf: "(r, this', w') =
          (case (r3, w3) of
             (Throws ex, w3) \<Rightarrow>
               (Throws ex, this, RawMemory_destroy new_data (destroy_n (ptr_add (GetAddress new_data) index) 1 w3))
           | (Returns u, w3) \<Rightarrow>
               (case SafetyMoveOrCopy e (ptr_add start index)
                       (ptr_add (ptr_add (GetAddress new_data) index) 1) (size_m this - index) w3 of
                  (Throws ex, w4) \<Rightarrow>
                    (Throws ex, this, RawMemory_destroy new_data (destroy_n (GetAddress new_data) (index + 1) w4))
                | (Returns u1, w4) \<Rightarrow>
                    (case RawMemory_Swap (data_m this) new_data of
                       (d, nd) \<Rightarrow>
                         (Returns (), this\<lparr>data_m := d\<rparr>,
                          RawMemory_destroy nd (destroy_n start (size_m this) w4)))))"
        using assms(4) rs Some p unfolding start_def
        by (simp add: EmplaceWithRelocate_def w2_def)
      show ?thesis
      proof (cases "buffer_m (data_m this)")
        case None
        with h(3) capn have z: "xs = []" "n = 0" "index = 0" using idx by (simp_all add: n_def)
        have c1: "cap = 1" using z by (simp add: cap_def)
        have r3: "r3 = Returns ()" "w3 = w2" using p z by simp_all
        have res: "r = Returns ()" "this' = this\<lparr>data_m := new_data\<rparr>" "w' = w2"
          using unf r3 z sz None
          by (simp_all add: RawMemory_Swap_def RawMemory_destroy_def Deallocate_def)
        have "block_at w2 nb = Some [Obj v]" using C(1)[of nb] z c1 by simp
        then show ?thesis using res z c1 Some lg1 lg2 v2 None C(1) old1 sz
          by (simp add: new_data_def start_def)
      next
        case (Some a)
        note ha = h(4)[OF Some]
        have anb: "a \<noteq> nb" using ha by (simp add: nb_def)
        have fst: "start = (Some a, 0)" using Some by (simp add: start_def Vector_begin_def GetAddress_def)
        have a2: "block_at w2 a = Some ([] @ map Obj (take index xs) @ map Obj (drop index xs))"
          using ha capn anb C(1)[of a] old1[of a] by (simp add: n_def flip: map_append)
        have nb2: "block_at w2 nb = Some ([] @ replicate (length (take index xs)) Raw @ Obj v # replicate (cap - Suc index) Raw)"
          using C(1)[of nb] idx by (simp add: n_def min_def)
        have li: "length (take index xs) = index" using idx by (simp add: n_def)
        have p': "SafetyMoveOrCopy e (Some a, 0) (Some nb, 0) (length (take index xs)) w2 = (r3, w3)"
          using p fst li by (simp add: GetAddress_def new_data_def)
        note P = SafetyMoveOrCopy_spec[OF anb a2 _ nb2 _ p', simplified li, simplified]
        have oth2: "\<And>c. c \<noteq> nb \<Longrightarrow> c \<noteq> a \<Longrightarrow> block_at w2 c = block_at w c"
          using C(1) old1 by simp
        show ?thesis
        proof (cases r3)
          case (Throws ex)
          from P Throws obtain k where k: "k < index"
            and blk3: "\<And>c. block_at w3 c =
                (if c = nb then Some (replicate index Raw @ Obj v # replicate (cap - Suc index) Raw)
                 else if c = a then Some (map Obj (left_behind e k (take index xs)) @ map Obj (drop index xs))
                 else block_at w2 c)"
            and lg3: "log w3 = log w2 @ relocate_events e (Some nb, 0) (Some a, 0) k @ destroy_events (Some nb, 0) k"
            and thr: "relocation_throws e (log w2 @ relocate_events e (Some nb, 0) (Some a, 0) k) (take index xs ! k)"
            and ex: "ex = element_exception" and v3: "violations w3 = violations w2"
            by auto
          define w4 where "w4 = destroy_at (Some nb, index) w3"
          have nb3: "block_at w3 nb = Some (replicate index Raw @ Obj v # replicate (cap - Suc index) Raw)"
            using blk3[of nb] by simp
          note Dn = destroy_at_obj[OF nb3, of index, simplified, folded w4_def]
          have nb4: "block_at w4 nb = Some (replicate cap Raw)"
            using Dn(1)[of nb] idx cap(1) by (simp add: replicate_join)
          note D = Deallocate_facts[OF nb4]
          have res: "r = Throws element_exception" "this' = this" "w' = Deallocate (Some nb) w4"
            using unf Throws ex
            by (simp_all add: RawMemory_destroy_def new_data_def GetAddress_def w4_def)
          have blk: "\<And>c. block_at w' c =
               (if c = nb then None
                else if c = a then Some (map Obj (left_behind e k xs))
                else block_at w c)"
            using res D(1) Dn(1) blk3 oth2 left_behind_take[of k index xs e] k idx
            by (simp add: n_def flip: map_append)
          have hold: "holds this w' (left_behind e k xs)"
            using assms(1) Some blk[of a] anb capn by (simp add: holds_def n_def)
          have ex1: "\<forall>c. Some c \<noteq> buffer_m (data_m this) \<longrightarrow> block_at w' c = block_at w c"
            using blk Some fresh by auto
          have copy: "is_copy_constructible e \<and> \<not> is_nothrow_move_constructible e \<longrightarrow>
                holds this w' xs \<and> (\<forall>c. block_at w' c = block_at w c)"
            using hold blk ha capn fresh by (auto simp: left_behind_copy n_def)
          have lg: "log w' = log w @ [NewBlock nb cap, Construct (Some nb, index)]
                          @ relocate_events e (Some nb, 0) start k
                          @ destroy_events (Some nb, 0) k
                          @ [Destroy (Some nb, index), DeleteBlock nb]"
            using res D(2) Dn(2) lg3 lg2 fst by simp
          have why: "\<exists>k<index.
               holds this w' (left_behind e k xs) \<and>
               log w' = log w @ [NewBlock nb cap, Construct (Some nb, index)]
                          @ relocate_events e (Some nb, 0) start k
                          @ destroy_events (Some nb, 0) k
                          @ [Destroy (Some nb, index), DeleteBlock nb] \<and>
               relocation_throws e
                 (log w @ [NewBlock nb cap, Construct (Some nb, index)]
                    @ relocate_events e (Some nb, 0) start k) (xs ! k)"
            using lg thr k lg2 fst hold by (intro exI[of _ k]) simp
          have vi: "violations w' = violations w" using res D(3) Dn(3) v3 v2 by simp
          have gone: "block_at w' nb = None" using blk[of nb] by simp
          show ?thesis using res vi gone ex1 copy why by simp
        next
          case (Returns u3)
          from P Returns have
            blk3: "\<And>c. block_at w3 c =
                (if c = nb then Some (map Obj (take index xs) @ Obj v # replicate (cap - Suc index) Raw)
                 else if c = a then Some (map Obj (left_behind e index (take index xs)) @ map Obj (drop index xs))
                 else block_at w2 c)"
            and lg3: "log w3 = log w2 @ relocate_events e (Some nb, 0) (Some a, 0) index"
            and v3: "violations w3 = violations w2"
            by simp_all
          obtain r4 w4 where q: "SafetyMoveOrCopy e (Some a, index) (Some nb, Suc index) (length (drop index xs)) w3 = (r4, w4)"
            by (cases "SafetyMoveOrCopy e (Some a, index) (Some nb, Suc index) (length (drop index xs)) w3")
          have ld: "length (drop index xs) = n - index" by (simp add: n_def)
          have unf2: "(r, this', w') =
            (case (r4, w4) of
                  (Throws ex, w4) \<Rightarrow>
                    (Throws ex, this, RawMemory_destroy new_data (destroy_n (GetAddress new_data) (index + 1) w4))
                | (Returns u1, w4) \<Rightarrow>
                    (case RawMemory_Swap (data_m this) new_data of
                       (d, nd) \<Rightarrow>
                         (Returns (), this\<lparr>data_m := d\<rparr>,
                          RawMemory_destroy nd (destroy_n start (size_m this) w4))))"
            using unf Returns q fst sz ld by (simp add: GetAddress_def new_data_def)
          have a3: "block_at w3 a = Some (map Obj (left_behind e index (take index xs)) @ map Obj (drop index xs) @ [])"
            using blk3[of a] anb by simp
          have split: "replicate (length xs - index) Raw @ replicate (cap - Suc (length xs)) Raw
                         = replicate (cap - Suc index) Raw"
            using idx cap(1) by (simp add: n_def flip: replicate_add)
          have nb3: "block_at w3 nb = Some ((map Obj (take index xs) @ [Obj v]) @ replicate (length (drop index xs)) Raw @ replicate (cap - Suc n) Raw)"
            using blk3[of nb] by (simp add: n_def split)
          have l1: "index = length (map Obj (left_behind e index (take index xs)))" using li by simp
          have l2: "Suc index = length (map Obj (take index xs) @ [Obj v])" using li by simp
          note Q = SafetyMoveOrCopy_spec[OF anb a3 l1 nb3 l2 q, simplified ld, simplified]
          show ?thesis
          proof (cases r4)
            case (Throws ex)
            from Q Throws obtain k where k: "k < n - index"
              and blk4: "\<And>c. block_at w4 c =
                (if c = nb then Some (map Obj (take index xs) @ Obj v # replicate (n - index) Raw @ replicate (cap - Suc n) Raw)
                 else if c = a then Some (map Obj (left_behind e index (take index xs)) @ map Obj (left_behind e k (drop index xs)))
                 else block_at w3 c)"
              and lg4: "log w4 = log w3 @ relocate_events e (Some nb, Suc index) (Some a, index) k
                                  @ destroy_events (Some nb, Suc index) k"
              and thr: "relocation_throws e (log w3 @ relocate_events e (Some nb, Suc index) (Some a, index) k) (drop index xs ! k)"
              and ex: "ex = element_exception" and v4: "violations w4 = violations w3"
              by auto
            define w5 where "w5 = destroy_n (Some nb, 0) (Suc index) w4"
            have nb4: "block_at w4 nb = Some ([] @ map Obj (take index xs @ [v]) @ replicate (cap - Suc index) Raw)"
              using blk4[of nb] by (simp add: n_def split)
            have l3: "length (take index xs @ [v]) = Suc index" using li by simp
            have Dn: "(\<forall>c. block_at w5 c =
                 (if c = nb then Some (replicate (Suc index) Raw @ replicate (cap - Suc index) Raw)
                  else block_at w4 c)) \<and>
               log w5 = log w4 @ destroy_events (Some nb, 0) (Suc index) \<and>
               violations w5 = violations w4"
              using destroy_n_live[OF nb4, of 0] l3 by (simp add: w5_def del: destroy_n.simps)
            have "Suc index + (cap - Suc index) = cap" using idx cap(1) by simp
            then have rj: "replicate (Suc index) Raw @ replicate (cap - Suc index) Raw
                             = replicate cap (Raw::'a slot)"
              by (metis replicate_add)
            have nb5: "block_at w5 nb = Some (replicate cap Raw)"
              using Dn rj by (simp del: replicate_Suc)
            note D = Deallocate_facts[OF nb5]
            have res: "r = Throws element_exception" "this' = this" "w' = Deallocate (Some nb) w5"
              using unf2 Throws ex
              by (simp_all add: RawMemory_destroy_def new_data_def GetAddress_def w5_def)
            have blk: "\<And>c. block_at w' c =
               (if c = nb then None
                else if c = a then Some (map Obj (left_behind e (index + k) xs))
                else block_at w c)"
              using res D(1) Dn blk4 blk3 oth2 left_behind_drop[of index xs e k] idx
              by (simp add: n_def flip: map_append)
            have hold: "holds this w' (left_behind e (index + k) xs)"
              using assms(1) Some blk[of a] anb capn by (simp add: holds_def n_def)
            have ex1: "\<forall>c. Some c \<noteq> buffer_m (data_m this) \<longrightarrow> block_at w' c = block_at w c"
              using blk Some fresh by auto
            have copy: "is_copy_constructible e \<and> \<not> is_nothrow_move_constructible e \<longrightarrow>
                holds this w' xs \<and> (\<forall>c. block_at w' c = block_at w c)"
              using hold blk ha capn fresh by (auto simp: left_behind_copy n_def)
            have lg: "log w' = log w @ [NewBlock nb cap, Construct (Some nb, index)]
                          @ relocate_events e (Some nb, 0) start index
                          @ relocate_events e (Some nb, Suc index) (ptr_add start index) k
                          @ destroy_events (Some nb, Suc index) k
                          @ destroy_events (Some nb, 0) (Suc index)
                          @ [DeleteBlock nb]"
              using res D(2) Dn lg4 lg3 lg2 fst by simp
            have why: "\<exists>k<n - index.
               holds this w' (left_behind e (index + k) xs) \<and>
               log w' = log w @ [NewBlock nb cap, Construct (Some nb, index)]
                          @ relocate_events e (Some nb, 0) start index
                          @ relocate_events e (Some nb, Suc index) (ptr_add start index) k
                          @ destroy_events (Some nb, Suc index) k
                          @ destroy_events (Some nb, 0) (Suc index)
                          @ [DeleteBlock nb] \<and>
               relocation_throws e
                 (log w @ [NewBlock nb cap, Construct (Some nb, index)]
                    @ relocate_events e (Some nb, 0) start index
                    @ relocate_events e (Some nb, Suc index) (ptr_add start index) k)
                 (xs ! (index + k))"
              using lg thr k lg3 lg2 fst idx hold by (intro exI[of _ k]) (simp add: n_def)
            have vi: "violations w' = violations w" using res D(3) Dn v4 v3 v2 by simp
            have gone: "block_at w' nb = None" using blk[of nb] by simp
            show ?thesis using res vi gone ex1 copy why by simp
          next
            case (Returns u4)
            from Q Returns have
              blk4: "\<And>c. block_at w4 c =
                (if c = nb then Some (map Obj (take index xs) @ Obj v # map Obj (drop index xs) @ replicate (cap - Suc n) Raw)
                 else if c = a then Some (map Obj (left_behind e index (take index xs)) @ map Obj (left_behind e (n - index) (drop index xs)))
                 else block_at w3 c)"
              and lg4: "log w4 = log w3 @ relocate_events e (Some nb, Suc index) (Some a, index) (n - index)"
              and v4: "violations w4 = violations w3"
              by simp_all
            define zs where "zs = left_behind e index (take index xs) @ left_behind e (n - index) (drop index xs)"
            have lz: "length zs = n" using idx by (simp add: zs_def n_def)
            have a4: "block_at w4 a = Some ([] @ map Obj zs @ [])"
              using blk4[of a] anb by (simp add: zs_def)
            define w5 where "w5 = destroy_n (Some a, 0) n w4"
            have Dn: "(\<forall>c. block_at w5 c = (if c = a then Some (replicate n Raw) else block_at w4 c)) \<and>
               log w5 = log w4 @ destroy_events (Some a, 0) n \<and>
               violations w5 = violations w4"
              using destroy_n_live[OF a4, of 0] lz by (simp add: w5_def del: destroy_n.simps)
            have a5: "block_at w5 a = Some (replicate n Raw)" using Dn by simp
            note D = Deallocate_facts[OF a5]
            have res: "r = Returns ()" "this' = this\<lparr>data_m := new_data\<rparr>" "w' = Deallocate (Some a) w5"
              using unf2 Returns Some fst sz
              by (simp_all add: RawMemory_Swap_def RawMemory_destroy_def new_data_def w5_def)
            have nbf: "block_at w' nb = Some (map Obj (take index xs @ v # drop index xs) @ replicate (cap - Suc n) Raw)"
              using res D(1)[of nb] Dn blk4[of nb] anb by simp
            have blocks: "\<forall>c. c \<noteq> nb \<longrightarrow>
                block_at w' c = (if Some c = buffer_m (data_m this) then None else block_at w c)"
              using res D(1) Dn blk4 blk3 oth2 Some by simp
            have lg: "log w' = log w @ [NewBlock nb cap, Construct (Some nb, index)]
                    @ relocate_events e (Some nb, 0) start index
                    @ relocate_events e (Some nb, Suc index) (ptr_add start index) (n - index)
                    @ destroy_events start n @ [DeleteBlock a]"
              using res D(2) Dn lg4 lg3 lg2 fst by simp
            have vi: "violations w' = violations w" using res D(3) Dn v4 v3 v2 by simp
            have t': "this' = \<lparr>data_m = \<lparr>buffer_m = Some nb, capacity_m = cap\<rparr>, size_m = n\<rparr>"
              using res sz by (simp add: new_data_def)
            have cv: "construct_T e args (log w @ [NewBlock nb cap]) = Some v"
              using \<open>construct_T e args (log w1) = Some v\<close> lg1 by simp
            show ?thesis using res(1) vi t' nbf blocks lg cv Some by simp
          qed
        qed
      qed
    qed
  qed
qed

lemma EmplaceWithoutRelocate_spec:
  fixes e :: "'a env" and w :: "'a world"
  assumes "holds this w xs" and "size_m this < Capacity this" and "index \<le> size_m this"
    and "buffer_m (data_m this) = Some a"
    and "EmplaceWithoutRelocate e index args this w = (r, this', w')"
  defines "n \<equiv> length xs"
  shows "this' = this \<and>
    (case r of
       Returns u \<Rightarrow>
         (\<exists>v. construct_T e args (log w) = Some v \<and>
              block_at w' a
                = Some (map Obj (take index xs @ v # drop index xs)
                          @ replicate (Capacity this - Suc n) Raw)) \<and>
         (\<forall>c. c \<noteq> a \<longrightarrow> block_at w' c = block_at w c) \<and>
         violations w' = violations w \<and>
         log w' = log w @
           (if index = n then [Construct (Some a, n)]
            else [TempConstruct, MoveConstruct (Some a, n) (Some a, n - 1)]
                   @ unshift_events (Some a) index (n - 1 - index)
                   @ [TempMoveAssign (Some a, index), TempDestroy])
     | Throws x \<Rightarrow>
         x = element_exception \<and>
         (construct_T e args (log w) = None \<or>
          \<not> (\<forall>l x. \<not> move_ctor_throws e l x) \<or>
          \<not> (\<forall>l y x. \<not> move_assign_throws e l y x)))"
proof -
  note h = holdsD[OF assms(1)]
  note ha = h(4)[OF assms(4)]
  have sz: "size_m this = n" using h(1) by (simp add: n_def)
  have ncap: "n < Capacity this" using assms(2) sz by simp
  have idx: "index \<le> n" using assms(3) sz by simp
  define post where "post = replicate (Capacity this - Suc n) (Raw::'a slot)"
  have blk: "block_at w a = Some (map Obj xs @ Raw # post)"
    using ha ncap replicate_split[of 0 "Capacity this - n" "Raw::'a slot"]
    by (simp add: post_def n_def Suc_diff_Suc)
  have bg: "Vector_begin this = (Some a, 0)"
    using assms(4) by (simp add: Vector_begin_def GetAddress_def)
  show ?thesis
  proof (cases "construct_T e args (log w)")
    case None
    then have "r = Throws element_exception \<and> this' = this"
      using assms(5) by (auto simp: EmplaceWithoutRelocate_def split: if_splits)
    then show ?thesis using None by simp
  next
    case (Some v)
    show ?thesis
    proof (cases "index = n")
      case True
      define w1 where "w1 = construct_at (Some a, n) v (Construct (Some a, n)) w"
      have res: "r = Returns ()" "this' = this" "w' = w1"
        using assms(5) Some True sz bg by (simp_all add: EmplaceWithoutRelocate_def w1_def)
      have C: "\<And>c. block_at w1 c = (if c = a then Some (map Obj xs @ Obj v # post) else block_at w c)"
        "log w1 = log w @ [Construct (Some a, n)]" "violations w1 = violations w"
        using construct_at_raw[OF blk, of n v "Construct (Some a, n)"]
        by (simp_all add: w1_def n_def)
      show ?thesis using res C Some True by (simp add: post_def n_def)
    next
      case False
      then have lt: "index < n" using idx by simp
      then have "xs \<noteq> []" by (auto simp: n_def)
      then obtain ys l where xs: "xs = ys @ [l]" by (cases xs rule: rev_cases) auto
      have n: "n = Suc (length ys)" using xs by (simp add: n_def)
      have iy: "index \<le> length ys" using lt n by simp
      define w0 where "w0 = logged TempConstruct w"
      have b0: "block_at w0 a = Some ((map Obj ys @ [Obj l]) @ Raw # post)"
        using blk xs by (simp add: w0_def logged_def)
      have l0: "log w0 = log w @ [TempConstruct]" "violations w0 = violations w"
        "\<And>c. block_at w0 c = block_at w c"
        by (simp_all add: w0_def logged_def)
      have bk: "RawMemory_at (data_m this) (size_m this - 1) = Some (Some a, length ys)"
        using sz n ncap assms(4) by (simp add: RawMemory_at_def Capacity_def)
      have b0': "block_at w0 a = Some (map Obj ys @ Obj l # (Raw # post))" using b0 by simp
      note mc = move_construct_at_ok[OF b0' refl, of e "(Some a, n)"]
      show ?thesis
      proof (cases "move_ctor_throws e (log w0) l")
        case True
        then have "r = Throws element_exception \<and> this' = this"
          using assms(5) Some False sz bg bk mc
          by (auto simp: EmplaceWithoutRelocate_def w0_def)
        moreover have "\<not> (\<forall>l x. \<not> move_ctor_throws e l x)" using True by blast
        ultimately show ?thesis by simp
      next
        case nomc: False
        define w1 where "w1 = construct_at (Some a, n) l (MoveConstruct (Some a, n) (Some a, length ys)) w0"
        define w2 where "w2 = put_slot (Some a, length ys) (Obj (moved_from e l)) w1"
        have nl: "n = length (map Obj ys @ [Obj l])" using n by simp
        note C1 = construct_at_raw[OF b0 nl, of l "MoveConstruct (Some a, n) (Some a, length ys)", folded w1_def]
        have b1: "block_at w1 a = Some (map Obj ys @ Obj l # Obj l # post)" using C1(1)[of a] by simp
        note P = put_slot_facts[OF b1, of "length ys" "Obj (moved_from e l)", folded w2_def]
        have b2: "block_at w2 a
            = Some (map Obj (take index ys) @ map Obj (drop index ys) @ Obj (moved_from e l) # (Obj l # post))"
          using P(1)[of a] by (simp add: list_update_append flip: map_append)
        have l2: "log w2 = log w @ [TempConstruct, MoveConstruct (Some a, n) (Some a, length ys)]"
          "violations w2 = violations w" "\<And>c. c \<noteq> a \<Longrightarrow> block_at w2 c = block_at w c"
          using P C1 l0 by simp_all
        have mcr: "move_construct_at e (ptr_add (Vector_begin this) (size_m this)) (Some a, length ys) w0
                    = (Returns (), w2)"
          using mc nomc bg sz by (simp add: w1_def w2_def)
        define m where "m = length (drop index ys)"
        have m: "m = n - 1 - index" using n by (simp add: m_def)
        obtain r3 w3 where lp: "move_backward_loop e (Some a, index + length (drop index ys))
                (length (drop index ys)) (Some a, Suc (index + length (drop index ys))) w2 = (r3, w3)"
          by (cases "move_backward_loop e (Some a, index + length (drop index ys))
                (length (drop index ys)) (Some a, Suc (index + length (drop index ys))) w2")
        have li: "index = length (map Obj (take index ys))" using iy by simp
        note L = move_backward_loop_spec[OF b2 li lp]
        have mb: "move_backward e (ptr_add (Vector_begin this) index) (ptr_sub (Vector_end this) 1)
                    (Vector_end this) w2 = (r3, w3)"
          using lp bg sz n iy by (simp add: move_backward_def Vector_end_def ptr_diff_def)
        have unf: "(r, this', w') =
            (case (r3, w3) of
               (Throws ex, w3) \<Rightarrow>
                 (Throws ex, this,
                  logged TempDestroy (destroy_n (ptr_add (Vector_begin this) (size_m this)) 1 w3))
             | (Returns u1, w3) \<Rightarrow>
                 (case RawMemory_at (data_m this) index of
                    None \<Rightarrow> (Throws precondition_violation, this, logged TempDestroy w3)
                  | Some p \<Rightarrow>
                      (case obj_at w3 p of
                         None \<Rightarrow> (Throws precondition_violation, this, logged TempDestroy w3)
                       | Some y \<Rightarrow>
                           if move_assign_throws e (log w3) y v
                           then (Throws element_exception, this, logged TempDestroy w3)
                           else (Returns (), this,
                                 logged TempDestroy
                                   (logged (TempMoveAssign p) (put_slot p (Obj v) w3))))))"
          using assms(5) Some False sz bk mcr mb
          by (simp add: EmplaceWithoutRelocate_def w0_def)
        show ?thesis
        proof (cases r3)
          case (Throws ex)
          with L have "ex = element_exception" "\<not> (\<forall>l y x. \<not> move_assign_throws e l y x)" by simp_all
          moreover have "r = Throws ex \<and> this' = this" using unf Throws by simp
          ultimately show ?thesis by simp
        next
          case (Returns u3)
          define z where "z = (if drop index ys = [] then moved_from e l else moved_from e (hd (drop index ys)))"
          from L Returns have
            b3: "\<And>c. block_at w3 c =
              (if c = a then Some (map Obj (take index ys) @ Obj z # map Obj (drop index ys) @ Obj l # post)
               else block_at w2 c)"
            and l3: "log w3 = log w2 @ unshift_events (Some a) index (length (drop index ys))"
            and v3: "violations w3 = violations w2"
            by (simp_all add: z_def)
          have at: "RawMemory_at (data_m this) index = Some (Some a, index)"
            using lt ncap assms(4) by (simp add: RawMemory_at_def Capacity_def)
          have b3a: "block_at w3 a = Some (map Obj (take index ys) @ Obj z # (map Obj (drop index ys) @ Obj l # post))"
            using b3[of a] by simp
          have oz: "obj_at w3 (Some a, index) = Some z" using obj_at_app[OF b3a li] .
          show ?thesis
          proof (cases "move_assign_throws e (log w3) z v")
            case True
            then have "r = Throws element_exception \<and> this' = this" using unf Returns at oz by simp
            moreover have "\<not> (\<forall>l y x. \<not> move_assign_throws e l y x)" using True by blast
            ultimately show ?thesis by simp
          next
            case noma: False
            define w4 where "w4 = put_slot (Some a, index) (Obj v) w3"
            note P4 = put_slot_facts[OF b3a, of index "Obj v", folded w4_def]
            have res: "r = Returns ()" "this' = this"
              "w' = logged TempDestroy (logged (TempMoveAssign (Some a, index)) w4)"
              using unf Returns at oz noma by (simp_all add: w4_def)
            have b4: "block_at w' a = Some (map Obj (take index xs @ v # drop index xs) @ post)"
              using res P4(1)[of a] xs iy by (simp add: logged_def list_update_append min_def)
            have oth: "\<forall>c. c \<noteq> a \<longrightarrow> block_at w' c = block_at w c"
              using res P4(1) b3 l2(3) by (simp add: logged_def)
            have vi: "violations w' = violations w" using res P4(3) v3 l2(2) by (simp add: logged_def)
            have lg: "log w' = log w @ [TempConstruct, MoveConstruct (Some a, n) (Some a, n - 1)]
                   @ unshift_events (Some a) index (n - 1 - index)
                   @ [TempMoveAssign (Some a, index), TempDestroy]"
              using res P4(2) l3 l2(1) n by (simp add: logged_def)
            show ?thesis using res b4 oth vi lg Some False by (simp add: post_def)
          qed
        qed
      qed
    qed
  qed
qed

lemma construct_T_Some: "construct_T e args l = Some v \<Longrightarrow> arg_value args = Some v"
  by (auto simp: construct_T_def arg_value_def split: ctor_args.splits if_splits)

lemma construct_T_None:
  "construct_T e args l = None \<Longrightarrow> never_throws e \<Longrightarrow> arg_value args = None"
  by (auto simp: construct_T_def arg_value_def never_throws_def split: ctor_args.splits if_splits)

lemma never_throws_relocation: "never_throws e \<Longrightarrow> \<not> relocation_throws e l x"
  by (simp add: never_throws_def relocation_throws_def)

lemma holds_obj_at:
  "holds this w xs \<Longrightarrow> i < length xs \<Longrightarrow>
   obj_at w (ptr_add (Vector_begin this) i) = Some (xs ! i)"
  by (auto simp: holds_def obj_at_def slot_at_def Vector_begin_def GetAddress_def ptr_add_def
      nth_append split: option.splits)

lemma ptr_diff_begin [simp]: "ptr_diff (ptr_add p i) p = Some i"
  by (simp add: ptr_diff_def ptr_add_def)

lemma Emplace_spec:
  fixes e :: "'a env" and w :: "'a world"
  assumes "holds this w xs" and "index \<le> length xs"
    and "Emplace e (ptr_add (Vector_begin this) index) args this w = (r, this', w')"
    and "size_m this = Capacity this \<Longrightarrow> fits e (if length xs = 0 then 1 else length xs * 2)"
  shows "case r of
       Returns p \<Rightarrow>
         p = ptr_add (Vector_begin this') index \<and>
         (\<exists>v. arg_value args = Some v \<and> obj_at w' p = Some v \<and>
              holds this' w' (take index xs @ v # drop index xs)) \<and>
         Capacity this' =
           (if size_m this = Capacity this then (if size_m this = 0 then 1 else size_m this * 2)
            else Capacity this) \<and>
         violations w' = violations w
     | Throws x \<Rightarrow> (\<not> never_throws e \<or> arg_value args = None) \<and> this' = this"
proof -
  note h = holdsD[OF assms(1)]
  have idx: "index \<le> size_m this" using assms(2) h(1) by simp
  show ?thesis
  proof (cases "size_m this = Capacity this")
    case True
    obtain r1 t1 w1 where ew: "EmplaceWithRelocate e index args this w = (r1, t1, w1)"
      by (cases "EmplaceWithRelocate e index args this w") auto
    note S = EmplaceWithRelocate_spec[OF assms(1) True idx ew assms(4)[OF True]]
    have unf: "(r, this', w') =
        (case (r1, t1, w1) of
           (Throws x, this1, w1) \<Rightarrow> (Throws x, this1, w1)
         | (Returns u, this1, w1) \<Rightarrow>
             (Returns (ptr_add (Vector_begin (this1\<lparr>size_m := size_m this1 + 1\<rparr>)) index),
              this1\<lparr>size_m := size_m this1 + 1\<rparr>, w1))"
      using assms(3) True idx ew by (simp add: Emplace_def)
    show ?thesis
    proof (cases r1)
      case (Throws x)
      then have res: "r = Throws x" "this' = this" using unf S by simp_all
      have "\<not> never_throws e \<or> arg_value args = None"
        using S Throws by (auto simp: never_throws_relocation dest: construct_T_None)
          (auto simp: never_throws_def)
      then show ?thesis using res by simp
    next
      case (Returns u)
      define cap where "cap = (if length xs = 0 then 1 else length xs * 2)"
      define nb where "nb = length (heap w)"
      from S Returns obtain v where v: "construct_T e args (log w @ [NewBlock nb cap]) = Some v"
        and nbk: "block_at w' = block_at w1" "block_at w1 nb
                = Some (map Obj (take index xs @ v # drop index xs) @ replicate (cap - Suc (length xs)) Raw)"
        and t1: "t1 = \<lparr>data_m = \<lparr>buffer_m = Some nb, capacity_m = cap\<rparr>, size_m = length xs\<rparr>"
        and vi: "violations w1 = violations w"
        using unf by (auto simp: cap_def nb_def)
      have res: "r = Returns (Some nb, index)"
        "this' = \<lparr>data_m = \<lparr>buffer_m = Some nb, capacity_m = cap\<rparr>, size_m = Suc (length xs)\<rparr>" "w' = w1"
        using unf Returns t1 by (simp_all add: Vector_begin_def GetAddress_def)
      have cp: "Suc (length xs) \<le> cap" "cap \<noteq> 0" by (cases xs; simp add: cap_def)+
      have ln: "length (take index xs @ v # drop index xs) = Suc (length xs)"
        using assms(2) by simp
      have hold: "holds this' w' (take index xs @ v # drop index xs)"
        using res nbk(2) cp ln by (simp add: holds_def Capacity_def)
      have "(take index xs @ v # drop index xs) ! index = v"
        using assms(2) by (simp add: nth_append)
      with holds_obj_at[OF hold, of index] ln assms(2)
      have ob: "obj_at w' (ptr_add (Vector_begin this') index) = Some v" by simp
      have pb: "ptr_add (Vector_begin this') index = (Some nb, index)"
        using res by (simp add: Vector_begin_def GetAddress_def)
      have capv: "Capacity this' =
           (if size_m this = Capacity this then (if size_m this = 0 then 1 else size_m this * 2)
            else Capacity this)"
      proof -
        have "Capacity this' = cap" using res by (simp add: Capacity_def)
        moreover have "cap = (if size_m this = 0 then 1 else size_m this * 2)"
          unfolding cap_def h(1) ..
        ultimately show ?thesis using True by simp
      qed
      have vi': "violations w' = violations w" using vi res by simp
      show ?thesis using res(1) hold ob pb vi' capv construct_T_Some[OF v] by simp
    qed
  next
    case False
    then have lt: "size_m this < Capacity this" using h(1,2) by simp
    then obtain a where a: "buffer_m (data_m this) = Some a"
      using h(3) by (cases "buffer_m (data_m this)") auto
    obtain r1 t1 w1 where ew: "EmplaceWithoutRelocate e index args this w = (r1, t1, w1)"
      by (cases "EmplaceWithoutRelocate e index args this w") auto
    note S = EmplaceWithoutRelocate_spec[OF assms(1) lt idx a ew]
    have unf: "(r, this', w') =
        (case (r1, t1, w1) of
           (Throws x, this1, w1) \<Rightarrow> (Throws x, this1, w1)
         | (Returns u, this1, w1) \<Rightarrow>
             (Returns (ptr_add (Vector_begin (this1\<lparr>size_m := size_m this1 + 1\<rparr>)) index),
              this1\<lparr>size_m := size_m this1 + 1\<rparr>, w1))"
      using assms(3) False idx ew by (simp add: Emplace_def)
    show ?thesis
    proof (cases r1)
      case (Throws x)
      then have res: "r = Throws x" "this' = this" using unf S by simp_all
      have "\<not> never_throws e \<or> arg_value args = None"
        using S Throws by (auto dest: construct_T_None) (auto simp: never_throws_def)
      then show ?thesis using res by simp
    next
      case (Returns u)
      from S Returns obtain v where v: "construct_T e args (log w) = Some v"
        and blk: "block_at w1 a
                = Some (map Obj (take index xs @ v # drop index xs)
                          @ replicate (Capacity this - Suc (length xs)) Raw)"
        and t1: "t1 = this" and vi: "violations w1 = violations w"
        by auto
      have res: "r = Returns (Some a, index)" "this' = this\<lparr>size_m := Suc (size_m this)\<rparr>" "w' = w1"
        using unf Returns t1 a by (simp_all add: Vector_begin_def GetAddress_def)
      have ln: "length (take index xs @ v # drop index xs) = Suc (length xs)"
        using assms(2) by simp
      have hold: "holds this' w' (take index xs @ v # drop index xs)"
        using res blk lt h(1) a ln by (simp add: holds_def Capacity_def)
      have "(take index xs @ v # drop index xs) ! index = v"
        using assms(2) by (simp add: nth_append)
      with holds_obj_at[OF hold, of index] ln assms(2)
      have ob: "obj_at w' (ptr_add (Vector_begin this') index) = Some v" by simp
      have pb: "ptr_add (Vector_begin this') index = (Some a, index)"
        using res a by (simp add: Vector_begin_def GetAddress_def)
      have capv: "Capacity this' =
           (if size_m this = Capacity this then (if size_m this = 0 then 1 else size_m this * 2)
            else Capacity this)"
        using res False by (auto simp: Capacity_def)
      have vi': "violations w' = violations w" using vi res by simp
      show ?thesis using res(1) hold ob pb vi' capv construct_T_Some[OF v] by simp
    qed
  qed
qed

section \<open>Erase\<close>

lemma elements_block:
  assumes "buffer_m (data_m this) = Some a" and "block_at w a = Some (map Obj zs @ rest)"
    and "size_m this = length zs" and "length zs \<le> Capacity this"
  shows "elements this w = map Some zs"
proof (rule nth_equalityI)
  show "length (elements this w) = length (map Some zs)"
    using assms(3) by (simp add: elements_def Size_def)
next
  fix i assume "i < length (elements this w)"
  then have i: "i < length zs" using assms(3) by (simp add: elements_def Size_def)
  then have "Vector_at this i = Some (Some a, i)"
    using assms(1,3,4) by (simp add: Vector_at_def RawMemory_at_def Capacity_def)
  moreover have "obj_at w (Some a, i) = Some (zs ! i)"
    using assms(2) i by (simp add: obj_at_def slot_at_def nth_append)
  ultimately show "elements this w ! i = map Some zs ! i"
    using i assms(3) by (simp add: elements_def Size_def)
qed

lemma holds_elements: "holds this w xs \<Longrightarrow> elements this w = map Some xs"
proof (cases "buffer_m (data_m this)")
  case None
  assume "holds this w xs"
  with None have "xs = []" "size_m this = 0" by (auto simp: holds_def)
  then show ?thesis by (simp add: elements_def Size_def)
next
  case (Some a)
  assume h: "holds this w xs"
  show ?thesis
    using elements_block[OF Some _ holdsD(1)[OF h] holdsD(2)[OF h]] holdsD(4)[OF h Some] by simp
qed

lemma destroy_at_no_object:
  assumes "slot_at w p = None \<or> slot_at w p = Some Raw"
  shows "destroy_at p w = logged (Destroy p) (flag (NoObject p) w)"
  using assms by (auto simp: destroy_at_def)

lemma Erase_spec:
  fixes e :: "'a env" and w :: "'a world"
  assumes "holds this w xs" and "index < length xs"
    and "Erase e (ptr_add (Vector_begin this) index) this w = (r, this', w')"
  defines "n \<equiv> length xs"
  shows "this' = (case r of Returns p \<Rightarrow> this\<lparr>size_m := n - 1\<rparr> | Throws x \<Rightarrow> this) \<and>
    (case r of
       Returns p \<Rightarrow>
         p = ptr_add (Vector_begin this') index \<and>
         elements this' w' = map Some (take index xs @ drop (Suc index) xs) \<and>
         block_at w' (the (buffer_m (data_m this)))
           = Some (map Obj (take index xs @ drop (Suc index) xs)
                     @ Obj (if Suc index = n then xs ! index else moved_from e (last xs))
                     # replicate (Capacity this - n) Raw) \<and>
         log w' = log w @ shift_events (buffer_m (data_m this)) index (n - Suc index)
                    @ [Destroy (ptr_add (Vector_begin this) n)] \<and>
         violations w' = violations w @ [NoObject (ptr_add (Vector_begin this) n)]
     | Throws x \<Rightarrow> x = element_exception \<and> \<not> (\<forall>l y x. \<not> move_assign_throws e l y x))"
proof -
  note h = holdsD[OF assms(1)]
  have sz: "size_m this = n" using h(1) by (simp add: n_def)
  obtain a where a: "buffer_m (data_m this) = Some a"
    using h(3) assms(2) by (cases "buffer_m (data_m this)") auto
  note ha = h(4)[OF a]
  define tail where "tail = replicate (Capacity this - n) (Raw::'a slot)"
  define vs where "vs = drop (Suc index) xs"
  have xs: "xs = take index xs @ xs ! index # vs"
    using assms(2) by (simp add: vs_def id_take_nth_drop[symmetric])
  have lv: "length vs = n - Suc index" by (simp add: vs_def n_def)
  have li: "index = length (map Obj (take index xs))" using assms(2) by simp
  have blk: "block_at w a = Some (map Obj (take index xs) @ Obj (xs ! index) # map Obj vs @ tail)"
    using ha xs by (metis append_Cons append_assoc list.simps(9) map_append n_def tail_def)
  have bg: "Vector_begin this = (Some a, 0)"
    using a by (simp add: Vector_begin_def GetAddress_def)
  obtain r1 w1 where lp: "move_loop e (Some a, Suc index) (length vs) (Some a, index) w = (r1, w1)"
    by (cases "move_loop e (Some a, Suc index) (length vs) (Some a, index) w")
  note L = move_loop_spec[OF blk li lp]
  have sm: "std_move e (ptr_add (ptr_add (Vector_begin this) index) 1) (Vector_end this)
              (ptr_add (Vector_begin this) index) w = (r1, w1)"
    using lp bg sz lv assms(2) by (simp add: std_move_def Vector_end_def ptr_diff_def n_def)
  have unf: "(r, this', w') =
      (case (r1, w1) of
         (Throws x, w1) \<Rightarrow> (Throws x, this, w1)
       | (Returns u, w1) \<Rightarrow>
           (Returns (ptr_add (Vector_begin (this\<lparr>size_m := size_m this - 1\<rparr>)) index),
            this\<lparr>size_m := size_m this - 1\<rparr>,
            destroy_n (ptr_add (Vector_begin this) (size_m this)) 1 w1))"
    using assms(3) sm by (simp add: Erase_def)
  show ?thesis
  proof (cases r1)
    case (Throws x)
    then show ?thesis using unf L by simp
  next
    case (Returns u)
    define z where "z = (if vs = [] then xs ! index else moved_from e (last vs))"
    define zs where "zs = take index xs @ vs"
    from L Returns have
      b1: "\<And>c. block_at w1 c =
          (if c = a then Some (map Obj zs @ Obj z # tail) else block_at w c)"
      and l1: "log w1 = log w @ shift_events (Some a) index (length vs)"
      and v1: "violations w1 = violations w"
      by (simp_all add: z_def zs_def)
    have lz: "length zs = n - 1" using assms(2) lv by (simp add: zs_def n_def)
    have n1: "Suc (length zs) = n" using lz assms(2) by (simp add: n_def)
    have b1a: "block_at w1 a = Some ((map Obj zs @ [Obj z]) @ tail)" using b1[of a] by simp
    have sl: "slot_at w1 (Some a, n) = None \<or> slot_at w1 (Some a, n) = Some Raw"
      using b1a n1 by (auto simp: slot_at_def nth_append tail_def)
    have res: "r = Returns (Some a, index)" "this' = this\<lparr>size_m := n - 1\<rparr>"
      "w' = logged (Destroy (Some a, n)) (flag (NoObject (Some a, n)) w1)"
      using unf Returns sz bg destroy_at_no_object[OF sl]
      by (simp_all add: Vector_begin_def GetAddress_def)
    have bw: "block_at w' a = Some (map Obj zs @ Obj z # tail)"
      using res b1[of a] by (simp add: logged_def flag_def)
    have el: "elements this' w' = map Some zs"
    proof (rule elements_block[where a = a and rest = "Obj z # tail"])
      show "buffer_m (data_m this') = Some a" using res a by simp
      show "block_at w' a = Some (map Obj zs @ Obj z # tail)" by (rule bw)
      show "size_m this' = length zs" using res lz by simp
      show "length zs \<le> Capacity this'" using res lz h(2) by (simp add: Capacity_def n_def)
    qed
    have zl: "z = (if Suc index = n then xs ! index else moved_from e (last xs))"
    proof (cases "vs = []")
      case True
      then have "Suc index = n" using lv assms(2) by (simp add: n_def)
      then show ?thesis using True by (simp add: z_def)
    next
      case False
      then have "Suc index \<noteq> n" using lv by auto
      moreover have "last vs = last xs" using False by (simp add: vs_def last_drop)
      ultimately show ?thesis using False by (simp add: z_def)
    qed
    have lg: "log w' = log w @ shift_events (Some a) index (n - Suc index) @ [Destroy (Some a, n)]"
      using res l1 lv by (simp add: logged_def flag_def)
    have vi: "violations w' = violations w @ [NoObject (Some a, n)]"
      using res v1 by (simp add: logged_def flag_def)
    have pb: "ptr_add (Vector_begin this') index = (Some a, index)"
      using res a by (simp add: Vector_begin_def GetAddress_def)
    show ?thesis using res(1,2) pb el bw zl lg vi a bg
      by (simp add: zs_def vs_def tail_def)
  qed
qed


section \<open>Copy assignment that must reallocate\<close>

text \<open>
  C8.  Let the vector hold \<open>ys\<close> and the right-hand side, another vector, hold \<open>xs\<close>, with more
  elements than the vector has capacity, the bytes of which are countable in a \<^verbatim>\<open>size_t\<close>.  Copy assignment then builds a copy of the right-hand
  side in a new block and swaps it in.  When it throws (the allocation failed, or a copy
  constructor threw), the vector object is unchanged and still holds \<open>ys\<close>, and every block of the
  memory is as it was before.  When it returns, the vector owns the new block, of exactly
  \<open>length xs\<close> slots, and holds \<open>xs\<close>; the old elements were destroyed and the old block deleted
  after all copies were made.  In both cases the right-hand side still holds \<open>xs\<close> and nothing was
  violated.
\<close>

theorem copy_assign_realloc_strong:
  assumes "holds this w ys" and "holds rhs w xs" and "Capacity this < size_m rhs"
    and "Vector_copy_assign e this (Other rhs) w = (res, this', w')"
    and "fits e (length xs)"
  shows "violations w' = violations w \<and> holds rhs w' xs \<and>
    (case res of
       Throws x \<Rightarrow>
         this' = this \<and> holds this w' ys \<and> (\<forall>c. block_at w' c = block_at w c) \<and>
         (x = bad_alloc \<and> operator_new_throws e (log w) (length xs) \<and> w' = w \<or>
          x = element_exception \<and>
          (\<exists>k<length xs.
             copy_ctor_throws e
               (log w @ NewBlock (length (heap w)) (length xs)
                  # copy_events (Some (length (heap w)), 0) (Vector_begin rhs) k)
               (xs ! k)))
     | Returns u \<Rightarrow>
         this' = \<lparr>data_m = \<lparr>buffer_m = Some (length (heap w)), capacity_m = length xs\<rparr>,
                  size_m = length xs\<rparr> \<and>
         holds this' w' xs \<and>
         (\<forall>c. c \<noteq> length (heap w) \<longrightarrow>
              block_at w' c = (if Some c = buffer_m (data_m this) then None else block_at w c)) \<and>
         log w' = log w @ NewBlock (length (heap w)) (length xs)
                    # copy_events (Some (length (heap w)), 0) (Vector_begin rhs) (length xs)
                    @ destroy_events (Vector_begin this) (size_m this)
                    @ (case buffer_m (data_m this) of None \<Rightarrow> [] | Some a \<Rightarrow> [DeleteBlock a]))"
proof -
  note ht = holdsD[OF assms(1)] and hr = holdsD[OF assms(2)]
  define nb where "nb = length (heap w)"
  have xs: "xs \<noteq> []" using assms(3) hr(1) by auto
  obtain b where b: "buffer_m (data_m rhs) = Some b"
    using hr(3) xs by (cases "buffer_m (data_m rhs)") auto
  note hb = hr(4)[OF b]
  have bnb: "b \<noteq> nb" using hb by (simp add: nb_def)
  have nba: "Some b \<noteq> buffer_m (data_m this)"
  proof
    assume eq: "Some b = buffer_m (data_m this)"
    then have "block_at w b = Some (map Obj ys @ replicate (Capacity this - length ys) Raw)"
      using ht(4)[of b] by simp
    with hb have "length (map Obj xs @ replicate (Capacity rhs - length xs) Raw)
                = length (map Obj ys @ replicate (Capacity this - length ys) Raw)" by simp
    then have "Capacity rhs = Capacity this" using ht(2) hr(2) by simp
    then show False using assms(3) hr(1,2) by simp
  qed
  obtain rc w1 where vc: "Vector_copy e rhs w = (rc, w1)" by (cases "Vector_copy e rhs w")
  note V = Vector_copy_spec[OF assms(2) vc assms(5)]
  show ?thesis
  proof (cases rc)
    case (Throws x)
    have res: "res = Throws x" "this' = this" "w' = w1"
      using assms(3,4) vc Throws by (simp_all add: Vector_copy_assign_def)
    have same: "\<forall>c. block_at w1 c = block_at w c" using V Throws by simp
    have "holds this w1 ys" "holds rhs w1 xs"
      using assms(1,2) same by (auto intro: holds_cong)
    then show ?thesis using res V Throws by simp
  next
    case (Returns t)
    from V Returns xs have t: "t = \<lparr>data_m = \<lparr>buffer_m = Some nb, capacity_m = length xs\<rparr>, size_m = length xs\<rparr>"
      and hold1: "holds t w1 xs"
      and blk1: "\<And>c. c \<noteq> nb \<Longrightarrow> block_at w1 c = block_at w c"
      and lg1: "log w1 = log w @ NewBlock nb (length xs) # copy_events (Some nb, 0) (Vector_begin rhs) (length xs)"
      and v1: "violations w1 = violations w"
      by (auto simp: nb_def)
    have res: "res = Returns ()" "this' = t" "w' = Vector_destroy this w1"
      using assms(3,4) vc Returns by (simp_all add: Vector_copy_assign_def Swap_eq)
    have tnb: "block_at w1 nb = Some (map Obj xs @ replicate (Capacity t - length xs) Raw)"
      using hold1 t by (simp add: holds_def)
    show ?thesis
    proof (cases "buffer_m (data_m this)")
      case None
      then have "size_m this = 0" using ht(1,3) by simp
      then have w': "w' = w1"
        using res None by (simp add: Vector_destroy_def RawMemory_destroy_def Deallocate_def)
      have "holds rhs w1 xs" using assms(2) b blk1[OF bnb] by (auto intro: holds_cong)
      then show ?thesis using res w' hold1 t v1 lg1 blk1 None \<open>size_m this = 0\<close>
        by (simp add: nb_def)
    next
      case (Some a)
      note ha = ht(4)[OF Some]
      have anb: "a \<noteq> nb" using ha by (simp add: nb_def)
      have ab: "a \<noteq> b" using nba Some by auto
      have b1: "block_at w1 a = Some ([] @ map Obj ys @ replicate (Capacity this - length ys) Raw)"
        using ha blk1[OF anb] by simp
      define w2 where "w2 = destroy_n (Some a, 0) (length ys) w1"
      from destroy_n_live[OF b1, of 0, simplified]
      have w2: "\<And>c. block_at w2 c = (if c = a then Some (replicate (length ys) Raw @ replicate (Capacity this - length ys) Raw) else block_at w1 c)"
        "log w2 = log w1 @ destroy_events (Some a, 0) (length ys)"
        "violations w2 = violations w1"
        by (simp_all add: w2_def)
      have b2: "block_at w2 a = Some (replicate (length ys) Raw @ replicate (Capacity this - length ys) Raw)"
        using w2(1)[of a] by simp
      note D = Deallocate_facts[OF b2]
      have w': "w' = Deallocate (Some a) w2"
        using res Some ht(1)
        by (simp add: Vector_destroy_def RawMemory_destroy_def Vector_begin_def GetAddress_def w2_def)
      have hr': "holds rhs w' xs"
        using assms(2) b w' D(1)[of b] w2(1)[of b] blk1[OF bnb] ab by (auto intro: holds_cong)
      have "holds t w' xs \<longleftrightarrow> holds t w1 xs"
        using t w' D(1)[of nb] w2(1)[of nb] anb by (simp add: holds_def)
      then have ht': "holds t w' xs" using hold1 by simp
      have blocks: "\<forall>c. c \<noteq> nb \<longrightarrow> block_at w' c = (if Some c = buffer_m (data_m this) then None else block_at w c)"
        using w' D(1) w2(1) blk1 Some by simp
      have lg: "log w' = log w @ NewBlock nb (length xs)
                    # copy_events (Some nb, 0) (Vector_begin rhs) (length xs)
                    @ destroy_events (Vector_begin this) (size_m this) @ [DeleteBlock a]"
        using w' D(2) w2(2) lg1 Some ht(1) by (simp add: Vector_begin_def GetAddress_def)
      have vi: "violations w' = violations w" using w' D(3) w2(3) v1 by simp
      show ?thesis using res hr' ht' blocks lg vi t Some by (simp add: nb_def)
    qed
  qed
qed

theorem copy_assign_realloc_strong_witness:
  "holds \<lparr>data_m = \<lparr>buffer_m = Some 0, capacity_m = 1\<rparr>, size_m = 1\<rparr>
     \<lparr>heap = [Some [Obj 7], Some [Obj 1, Obj 2]], log = [], violations = []\<rparr> [7::int] \<and>
   holds \<lparr>data_m = \<lparr>buffer_m = Some 1, capacity_m = 2\<rparr>, size_m = 2\<rparr>
     \<lparr>heap = [Some [Obj 7], Some [Obj 1, Obj 2]], log = [], violations = []\<rparr> [1, 2::int] \<and>
   Capacity \<lparr>data_m = \<lparr>buffer_m = Some 0, capacity_m = 1\<rparr>, size_m = 1\<rparr>
     < size_m \<lparr>data_m = \<lparr>buffer_m = Some 1, capacity_m = 2\<rparr>, size_m = 2\<rparr> \<and>
   fits second_copy_throws (length [1, 2::int]) \<and> fits int_like (length [1, 2::int]) \<and>
   Vector_copy_assign second_copy_throws
       \<lparr>data_m = \<lparr>buffer_m = Some 0, capacity_m = 1\<rparr>, size_m = 1\<rparr>
       (Other \<lparr>data_m = \<lparr>buffer_m = Some 1, capacity_m = 2\<rparr>, size_m = 2\<rparr>)
       \<lparr>heap = [Some [Obj 7], Some [Obj 1, Obj 2]], log = [], violations = []\<rparr>
     = (Throws element_exception,
        \<lparr>data_m = \<lparr>buffer_m = Some 0, capacity_m = 1\<rparr>, size_m = 1\<rparr>,
        \<lparr>heap = [Some [Obj 7], Some [Obj 1, Obj 2], None],
         log = [NewBlock 2 2, CopyConstruct (Some 2, 0) (Some 1, 0), Destroy (Some 2, 0),
                DeleteBlock 2],
         violations = []\<rparr>) \<and>
   holds \<lparr>data_m = \<lparr>buffer_m = Some 0, capacity_m = 1\<rparr>, size_m = 1\<rparr>
     \<lparr>heap = [Some [Obj 7], Some [Obj 1, Obj 2], None],
      log = [NewBlock 2 2, CopyConstruct (Some 2, 0) (Some 1, 0), Destroy (Some 2, 0),
             DeleteBlock 2],
      violations = []\<rparr> [7::int] \<and>
   Vector_copy_assign int_like
       \<lparr>data_m = \<lparr>buffer_m = Some 0, capacity_m = 1\<rparr>, size_m = 1\<rparr>
       (Other \<lparr>data_m = \<lparr>buffer_m = Some 1, capacity_m = 2\<rparr>, size_m = 2\<rparr>)
       \<lparr>heap = [Some [Obj 7], Some [Obj 1, Obj 2]], log = [], violations = []\<rparr>
     = (Returns (),
        \<lparr>data_m = \<lparr>buffer_m = Some 2, capacity_m = 2\<rparr>, size_m = 2\<rparr>,
        \<lparr>heap = [None, Some [Obj 1, Obj 2], Some [Obj 1, Obj 2]],
         log = [NewBlock 2 2, CopyConstruct (Some 2, 0) (Some 1, 0),
                CopyConstruct (Some 2, 1) (Some 1, 1), Destroy (Some 0, 0), DeleteBlock 0],
         violations = []\<rparr>) \<and>
   holds \<lparr>data_m = \<lparr>buffer_m = Some 2, capacity_m = 2\<rparr>, size_m = 2\<rparr>
        \<lparr>heap = [None, Some [Obj 1, Obj 2], Some [Obj 1, Obj 2]],
         log = [NewBlock 2 2, CopyConstruct (Some 2, 0) (Some 1, 0),
                CopyConstruct (Some 2, 1) (Some 1, 1), Destroy (Some 0, 0), DeleteBlock 0],
         violations = []\<rparr> [1, 2::int]"
proof -
  have h1: "holds \<lparr>data_m = \<lparr>buffer_m = Some 0, capacity_m = 1\<rparr>, size_m = 1\<rparr>
     \<lparr>heap = [Some [Obj 7], Some [Obj 1, Obj 2]], log = [], violations = []\<rparr> [7::int]"
    by code_simp
  have h2: "holds \<lparr>data_m = \<lparr>buffer_m = Some 1, capacity_m = 2\<rparr>, size_m = 2\<rparr>
     \<lparr>heap = [Some [Obj 7], Some [Obj 1, Obj 2]], log = [], violations = []\<rparr> [1, 2::int]"
    by code_simp
  have lt: "Capacity \<lparr>data_m = \<lparr>buffer_m = Some 0, capacity_m = 1\<rparr>, size_m = 1\<rparr>
     < size_m \<lparr>data_m = \<lparr>buffer_m = Some 1, capacity_m = 2\<rparr>, size_m = 2\<rparr>"
    by (simp add: Capacity_def)
  have f1: "fits second_copy_throws (length [1, 2::int])"
    and f2: "fits int_like (length [1, 2::int])"
    by (simp_all add: fits_def SIZE_MAX_def second_copy_throws_def int_like_def)
  have r1: "Vector_copy_assign second_copy_throws
       \<lparr>data_m = \<lparr>buffer_m = Some 0, capacity_m = 1\<rparr>, size_m = 1\<rparr>
       (Other \<lparr>data_m = \<lparr>buffer_m = Some 1, capacity_m = 2\<rparr>, size_m = 2\<rparr>)
       \<lparr>heap = [Some [Obj 7], Some [Obj 1, Obj 2]], log = [], violations = []\<rparr>
     = (Throws element_exception,
        \<lparr>data_m = \<lparr>buffer_m = Some 0, capacity_m = 1\<rparr>, size_m = 1\<rparr>,
        \<lparr>heap = [Some [Obj 7], Some [Obj 1, Obj 2], None],
         log = [NewBlock 2 2, CopyConstruct (Some 2, 0) (Some 1, 0), Destroy (Some 2, 0),
                DeleteBlock 2],
         violations = []\<rparr>)"
    by code_simp
  have r2: "Vector_copy_assign int_like
       \<lparr>data_m = \<lparr>buffer_m = Some 0, capacity_m = 1\<rparr>, size_m = 1\<rparr>
       (Other \<lparr>data_m = \<lparr>buffer_m = Some 1, capacity_m = 2\<rparr>, size_m = 2\<rparr>)
       \<lparr>heap = [Some [Obj 7], Some [Obj 1, Obj 2]], log = [], violations = []\<rparr>
     = (Returns (),
        \<lparr>data_m = \<lparr>buffer_m = Some 2, capacity_m = 2\<rparr>, size_m = 2\<rparr>,
        \<lparr>heap = [None, Some [Obj 1, Obj 2], Some [Obj 1, Obj 2]],
         log = [NewBlock 2 2, CopyConstruct (Some 2, 0) (Some 1, 0),
                CopyConstruct (Some 2, 1) (Some 1, 1), Destroy (Some 0, 0), DeleteBlock 0],
         violations = []\<rparr>)"
    by code_simp
  have c1: "holds \<lparr>data_m = \<lparr>buffer_m = Some 0, capacity_m = 1\<rparr>, size_m = 1\<rparr>
     \<lparr>heap = [Some [Obj 7], Some [Obj 1, Obj 2], None],
      log = [NewBlock 2 2, CopyConstruct (Some 2, 0) (Some 1, 0), Destroy (Some 2, 0),
             DeleteBlock 2],
      violations = []\<rparr> [7::int]"
    using copy_assign_realloc_strong[OF h1 h2 lt r1 f1] by simp
  have c2: "holds \<lparr>data_m = \<lparr>buffer_m = Some 2, capacity_m = 2\<rparr>, size_m = 2\<rparr>
        \<lparr>heap = [None, Some [Obj 1, Obj 2], Some [Obj 1, Obj 2]],
         log = [NewBlock 2 2, CopyConstruct (Some 2, 0) (Some 1, 0),
                CopyConstruct (Some 2, 1) (Some 1, 1), Destroy (Some 0, 0), DeleteBlock 0],
         violations = []\<rparr> [1, 2::int]"
    using copy_assign_realloc_strong[OF h1 h2 lt r2 f2] by simp
  show ?thesis using h1 h2 lt f1 f2 r1 c1 r2 c2 by blast
qed


section \<open>Emplace that must relocate\<close>

text \<open>
  C3.  The old block is not always untouched when relocation fails.  For a type that cannot be
  copied and whose move constructor may throw, relocation moves, and when the second move
  throws, the first element of the old block has already been moved from.  Here the vector holds 1, 2 and is full; appending 9
  throws, the vector object is unchanged, but it no longer holds 1, 2: it reads 0, 2.
\<close>

theorem relocating_emplace_not_strong_counterexample:
  "holds \<lparr>data_m = \<lparr>buffer_m = Some 0, capacity_m = 2\<rparr>, size_m = 2\<rparr>
     \<lparr>heap = [Some [Obj 1, Obj 2]], log = [], violations = []\<rparr> [1, 2::int] \<and>
   size_m \<lparr>data_m = \<lparr>buffer_m = Some 0, capacity_m = 2\<rparr>, size_m = 2\<rparr>
     = Capacity \<lparr>data_m = \<lparr>buffer_m = Some 0, capacity_m = 2\<rparr>, size_m = 2\<rparr> \<and>
   EmplaceWithRelocate move_only_throwing 2 (MoveFrom 9)
       \<lparr>data_m = \<lparr>buffer_m = Some 0, capacity_m = 2\<rparr>, size_m = 2\<rparr>
       \<lparr>heap = [Some [Obj 1, Obj 2]], log = [], violations = []\<rparr>
     = (Throws element_exception,
        \<lparr>data_m = \<lparr>buffer_m = Some 0, capacity_m = 2\<rparr>, size_m = 2\<rparr>,
        \<lparr>heap = [Some [Obj 0, Obj 2], None],
         log = [NewBlock 1 4, Construct (Some 1, 2), MoveConstruct (Some 1, 0) (Some 0, 0),
                Destroy (Some 1, 0), Destroy (Some 1, 2), DeleteBlock 1],
         violations = []\<rparr>) \<and>
   elements \<lparr>data_m = \<lparr>buffer_m = Some 0, capacity_m = 2\<rparr>, size_m = 2\<rparr>
        \<lparr>heap = [Some [Obj 0, Obj 2], None],
         log = [NewBlock 1 4, Construct (Some 1, 2), MoveConstruct (Some 1, 0) (Some 0, 0),
                Destroy (Some 1, 0), Destroy (Some 1, 2), DeleteBlock 1],
         violations = []\<rparr> = [Some 0, Some (2::int)] \<and>
   \<not> holds \<lparr>data_m = \<lparr>buffer_m = Some 0, capacity_m = 2\<rparr>, size_m = 2\<rparr>
        \<lparr>heap = [Some [Obj 0, Obj 2], None],
         log = [NewBlock 1 4, Construct (Some 1, 2), MoveConstruct (Some 1, 0) (Some 0, 0),
                Destroy (Some 1, 0), Destroy (Some 1, 2), DeleteBlock 1],
         violations = []\<rparr> [1, 2::int]"
  by code_simp

text \<open>
  C3, amended.  Let the vector hold \<open>xs\<close> and be full, let \<open>index \<le> size\<close>, and let the bytes of
  the new capacity be countable in a \<^verbatim>\<open>size_t\<close>.
  \<^verbatim>\<open>EmplaceWithRelocate\<close> allocates a block of 1 slot when the vector is empty and of twice
  the size otherwise, and constructs the new element first, in slot \<open>index\<close> of the new block.
  When it returns, the log shows after that the relocation of \<open>[0, index)\<close>, the relocation of
  \<open>[index, size)\<close> into the slots behind the new element, and only then the destruction of the
  old elements and the deletion of the old block; the vector owns the new block, which holds
  \<open>xs\<close> with the new element at \<open>index\<close>.
  When it throws, the vector object is unchanged, the new block is gone, every other block but
  the vector's own is as before, and nothing was violated.  There are four ways to throw, and
  the log and the contents of the vector tell them apart:
  the allocation failed and nothing happened;
  the constructor of the new element threw, the new block was deleted and the vector holds
  \<open>xs\<close>;
  relocating the prefix threw at its element \<open>k < index\<close>: the \<open>k\<close> objects relocated so far were
  destroyed, then the new element, then the new block was deleted, and the vector holds what
  relocating the first \<open>k\<close> elements of \<open>xs\<close> leaves behind;
  relocating the suffix threw at its element \<open>k\<close>, which is element \<open>index + k\<close> of \<open>xs\<close>: the \<open>k\<close>
  objects of the suffix relocated so far were destroyed, then the \<open>index + 1\<close> objects at the
  front of the new block, then the new block was deleted, and the vector holds what relocating
  the first \<open>index + k\<close> elements of \<open>xs\<close> leaves behind.
  What relocating the first \<open>k\<close> elements leaves behind is \<open>xs\<close> itself when relocation copies,
  and then the whole memory is as before (strong exception safety); when relocation moves, it
  is \<open>xs\<close> with its first \<open>k\<close> elements moved-from.
\<close>

theorem relocating_emplace_guarantee:
  fixes e :: "'a env" and w :: "'a world"
  assumes "holds this w xs" and "size_m this = Capacity this" and "index \<le> size_m this"
    and "EmplaceWithRelocate e index args this w = (r, this', w')"
    and "fits e (if length xs = 0 then 1 else length xs * 2)"
  defines "n \<equiv> length xs"
  defines "nb \<equiv> length (heap w)"
  defines "cap \<equiv> (if length xs = 0 then 1 else length xs * 2)"
  defines "start \<equiv> Vector_begin this"
  shows "violations w' = violations w \<and>
    (case r of
       Returns u \<Rightarrow>
         (\<exists>v. construct_T e args (log w @ [NewBlock nb cap]) = Some v \<and>
              block_at w' nb
                = Some (map Obj (take index xs @ v # drop index xs) @ replicate (cap - Suc n) Raw)) \<and>
         this' = \<lparr>data_m = \<lparr>buffer_m = Some nb, capacity_m = cap\<rparr>, size_m = n\<rparr> \<and>
         (\<forall>c. c \<noteq> nb \<longrightarrow>
              block_at w' c = (if Some c = buffer_m (data_m this) then None else block_at w c)) \<and>
         log w' = log w @ [NewBlock nb cap, Construct (Some nb, index)]
                    @ relocate_events e (Some nb, 0) start index
                    @ relocate_events e (Some nb, Suc index) (ptr_add start index) (n - index)
                    @ destroy_events start n
                    @ (case buffer_m (data_m this) of None \<Rightarrow> [] | Some a \<Rightarrow> [DeleteBlock a])
     | Throws x \<Rightarrow>
         this' = this \<and> block_at w' nb = None \<and>
         (\<forall>c. Some c \<noteq> buffer_m (data_m this) \<longrightarrow> block_at w' c = block_at w c) \<and>
         (is_copy_constructible e \<and> \<not> is_nothrow_move_constructible e \<longrightarrow>
            holds this w' xs \<and> (\<forall>c. block_at w' c = block_at w c)) \<and>
         (x = bad_alloc \<and> operator_new_throws e (log w) cap \<and> w' = w \<or>
          x = element_exception \<and> construct_T e args (log w @ [NewBlock nb cap]) = None \<and>
            holds this w' xs \<and>
            log w' = log w @ [NewBlock nb cap, DeleteBlock nb] \<or>
          x = element_exception \<and>
            (\<exists>k<index.
               holds this w' (left_behind e k xs) \<and>
               log w' = log w @ [NewBlock nb cap, Construct (Some nb, index)]
                          @ relocate_events e (Some nb, 0) start k
                          @ destroy_events (Some nb, 0) k
                          @ [Destroy (Some nb, index), DeleteBlock nb] \<and>
               relocation_throws e
                 (log w @ [NewBlock nb cap, Construct (Some nb, index)]
                    @ relocate_events e (Some nb, 0) start k) (xs ! k)) \<or>
          x = element_exception \<and>
            (\<exists>k<n - index.
               holds this w' (left_behind e (index + k) xs) \<and>
               log w' = log w @ [NewBlock nb cap, Construct (Some nb, index)]
                          @ relocate_events e (Some nb, 0) start index
                          @ relocate_events e (Some nb, Suc index) (ptr_add start index) k
                          @ destroy_events (Some nb, Suc index) k
                          @ destroy_events (Some nb, 0) (Suc index)
                          @ [DeleteBlock nb] \<and>
               relocation_throws e
                 (log w @ [NewBlock nb cap, Construct (Some nb, index)]
                    @ relocate_events e (Some nb, 0) start index
                    @ relocate_events e (Some nb, Suc index) (ptr_add start index) k)
                 (xs ! (index + k)))))"
  unfolding n_def nb_def cap_def start_def
  by (rule EmplaceWithRelocate_spec[OF assms(1-5)])

theorem relocating_emplace_guarantee_witness:
  "holds \<lparr>data_m = \<lparr>buffer_m = Some 0, capacity_m = 2\<rparr>, size_m = 2\<rparr>
     \<lparr>heap = [Some [Obj 1, Obj 2]], log = [], violations = []\<rparr> [1, 2::int] \<and>
   size_m \<lparr>data_m = \<lparr>buffer_m = Some 0, capacity_m = 2\<rparr>, size_m = 2\<rparr>
     = Capacity \<lparr>data_m = \<lparr>buffer_m = Some 0, capacity_m = 2\<rparr>, size_m = 2\<rparr> \<and>
   fits second_copy_throws (if length [1, 2::int] = 0 then 1 else length [1, 2::int] * 2) \<and>
   fits string_like (if length [1, 2::int] = 0 then 1 else length [1, 2::int] * 2) \<and>
   fits move_only_throwing (if length [1, 2::int] = 0 then 1 else length [1, 2::int] * 2) \<and>
   EmplaceWithRelocate second_copy_throws 2 (Direct (Some 9))
       \<lparr>data_m = \<lparr>buffer_m = Some 0, capacity_m = 2\<rparr>, size_m = 2\<rparr>
       \<lparr>heap = [Some [Obj 1, Obj 2]], log = [], violations = []\<rparr>
     = (Throws element_exception,
        \<lparr>data_m = \<lparr>buffer_m = Some 0, capacity_m = 2\<rparr>, size_m = 2\<rparr>,
        \<lparr>heap = [Some [Obj 1, Obj 2], None],
         log = [NewBlock 1 4, Construct (Some 1, 2), CopyConstruct (Some 1, 0) (Some 0, 0),
                Destroy (Some 1, 0), Destroy (Some 1, 2), DeleteBlock 1],
         violations = []\<rparr>) \<and>
   holds \<lparr>data_m = \<lparr>buffer_m = Some 0, capacity_m = 2\<rparr>, size_m = 2\<rparr>
        \<lparr>heap = [Some [Obj 1, Obj 2], None],
         log = [NewBlock 1 4, Construct (Some 1, 2), CopyConstruct (Some 1, 0) (Some 0, 0),
                Destroy (Some 1, 0), Destroy (Some 1, 2), DeleteBlock 1],
         violations = []\<rparr> [1, 2::int] \<and>
   EmplaceWithRelocate second_copy_throws 0 (Direct (Some 9))
       \<lparr>data_m = \<lparr>buffer_m = Some 0, capacity_m = 2\<rparr>, size_m = 2\<rparr>
       \<lparr>heap = [Some [Obj 1, Obj 2]], log = [], violations = []\<rparr>
     = (Throws element_exception,
        \<lparr>data_m = \<lparr>buffer_m = Some 0, capacity_m = 2\<rparr>, size_m = 2\<rparr>,
        \<lparr>heap = [Some [Obj 1, Obj 2], None],
         log = [NewBlock 1 4, Construct (Some 1, 0), CopyConstruct (Some 1, 1) (Some 0, 0),
                Destroy (Some 1, 1), Destroy (Some 1, 0), DeleteBlock 1],
         violations = []\<rparr>) \<and>
   holds \<lparr>data_m = \<lparr>buffer_m = Some 0, capacity_m = 2\<rparr>, size_m = 2\<rparr>
        \<lparr>heap = [Some [Obj 1, Obj 2], None],
         log = [NewBlock 1 4, Construct (Some 1, 0), CopyConstruct (Some 1, 1) (Some 0, 0),
                Destroy (Some 1, 1), Destroy (Some 1, 0), DeleteBlock 1],
         violations = []\<rparr> [1, 2::int] \<and>
   EmplaceWithRelocate string_like 1 (Direct (Some 9))
       \<lparr>data_m = \<lparr>buffer_m = Some 0, capacity_m = 2\<rparr>, size_m = 2\<rparr>
       \<lparr>heap = [Some [Obj 1, Obj 2]], log = [], violations = []\<rparr>
     = (Returns (),
        \<lparr>data_m = \<lparr>buffer_m = Some 1, capacity_m = 4\<rparr>, size_m = 2\<rparr>,
        \<lparr>heap = [None, Some [Obj 1, Obj 9, Obj 2, Raw]],
         log = [NewBlock 1 4, Construct (Some 1, 1), MoveConstruct (Some 1, 0) (Some 0, 0),
                MoveConstruct (Some 1, 2) (Some 0, 1), Destroy (Some 0, 0), Destroy (Some 0, 1),
                DeleteBlock 0],
         violations = []\<rparr>) \<and>
   block_at \<lparr>heap = [None, Some [Obj (1::int), Obj 9, Obj 2, Raw]],
         log = [NewBlock 1 4, Construct (Some 1, 1), MoveConstruct (Some 1, 0) (Some 0, 0),
                MoveConstruct (Some 1, 2) (Some 0, 1), Destroy (Some 0, 0), Destroy (Some 0, 1),
                DeleteBlock 0],
         violations = []\<rparr> 0 = None \<and>
   EmplaceWithRelocate move_only_throwing 2 (MoveFrom 9)
       \<lparr>data_m = \<lparr>buffer_m = Some 0, capacity_m = 2\<rparr>, size_m = 2\<rparr>
       \<lparr>heap = [Some [Obj 1, Obj 2]], log = [], violations = []\<rparr>
     = (Throws element_exception,
        \<lparr>data_m = \<lparr>buffer_m = Some 0, capacity_m = 2\<rparr>, size_m = 2\<rparr>,
        \<lparr>heap = [Some [Obj 0, Obj 2], None],
         log = [NewBlock 1 4, Construct (Some 1, 2), MoveConstruct (Some 1, 0) (Some 0, 0),
                Destroy (Some 1, 0), Destroy (Some 1, 2), DeleteBlock 1],
         violations = []\<rparr>) \<and>
   holds \<lparr>data_m = \<lparr>buffer_m = Some 0, capacity_m = 2\<rparr>, size_m = 2\<rparr>
        \<lparr>heap = [Some [Obj 0, Obj 2], None],
         log = [NewBlock 1 4, Construct (Some 1, 2), MoveConstruct (Some 1, 0) (Some 0, 0),
                Destroy (Some 1, 0), Destroy (Some 1, 2), DeleteBlock 1],
         violations = []\<rparr> [0, 2::int]"
proof -
  have h: "holds \<lparr>data_m = \<lparr>buffer_m = Some 0, capacity_m = 2\<rparr>, size_m = 2\<rparr>
     \<lparr>heap = [Some [Obj 1, Obj 2]], log = [], violations = []\<rparr> [1, 2::int]"
    by code_simp
  have f: "size_m \<lparr>data_m = \<lparr>buffer_m = Some 0, capacity_m = 2\<rparr>, size_m = 2\<rparr>
     = Capacity \<lparr>data_m = \<lparr>buffer_m = Some 0, capacity_m = 2\<rparr>, size_m = 2\<rparr>"
    by (simp add: Capacity_def)
  have i2: "2 \<le> size_m \<lparr>data_m = \<lparr>buffer_m = Some 0, capacity_m = 2\<rparr>, size_m = 2\<rparr>"
    and i0: "0 \<le> size_m \<lparr>data_m = \<lparr>buffer_m = Some 0, capacity_m = 2\<rparr>, size_m = 2\<rparr>"
    and i1: "1 \<le> size_m \<lparr>data_m = \<lparr>buffer_m = Some 0, capacity_m = 2\<rparr>, size_m = 2\<rparr>"
    by simp_all
  have ft1: "fits second_copy_throws (if length [1, 2::int] = 0 then 1 else length [1, 2::int] * 2)"
    and ft2: "fits string_like (if length [1, 2::int] = 0 then 1 else length [1, 2::int] * 2)"
    and ft3: "fits move_only_throwing (if length [1, 2::int] = 0 then 1 else length [1, 2::int] * 2)"
    by (simp_all add: fits_def SIZE_MAX_def second_copy_throws_def string_like_def
        move_only_throwing_def)
  have r1: "EmplaceWithRelocate second_copy_throws 2 (Direct (Some 9))
       \<lparr>data_m = \<lparr>buffer_m = Some 0, capacity_m = 2\<rparr>, size_m = 2\<rparr>
       \<lparr>heap = [Some [Obj 1, Obj 2]], log = [], violations = []\<rparr>
     = (Throws element_exception,
        \<lparr>data_m = \<lparr>buffer_m = Some 0, capacity_m = 2\<rparr>, size_m = 2\<rparr>,
        \<lparr>heap = [Some [Obj 1, Obj 2], None],
         log = [NewBlock 1 4, Construct (Some 1, 2), CopyConstruct (Some 1, 0) (Some 0, 0),
                Destroy (Some 1, 0), Destroy (Some 1, 2), DeleteBlock 1],
         violations = []\<rparr>)"
    by code_simp
  have r2: "EmplaceWithRelocate second_copy_throws 0 (Direct (Some 9))
       \<lparr>data_m = \<lparr>buffer_m = Some 0, capacity_m = 2\<rparr>, size_m = 2\<rparr>
       \<lparr>heap = [Some [Obj 1, Obj 2]], log = [], violations = []\<rparr>
     = (Throws element_exception,
        \<lparr>data_m = \<lparr>buffer_m = Some 0, capacity_m = 2\<rparr>, size_m = 2\<rparr>,
        \<lparr>heap = [Some [Obj 1, Obj 2], None],
         log = [NewBlock 1 4, Construct (Some 1, 0), CopyConstruct (Some 1, 1) (Some 0, 0),
                Destroy (Some 1, 1), Destroy (Some 1, 0), DeleteBlock 1],
         violations = []\<rparr>)"
    by code_simp
  have r3: "EmplaceWithRelocate string_like 1 (Direct (Some 9))
       \<lparr>data_m = \<lparr>buffer_m = Some 0, capacity_m = 2\<rparr>, size_m = 2\<rparr>
       \<lparr>heap = [Some [Obj 1, Obj 2]], log = [], violations = []\<rparr>
     = (Returns (),
        \<lparr>data_m = \<lparr>buffer_m = Some 1, capacity_m = 4\<rparr>, size_m = 2\<rparr>,
        \<lparr>heap = [None, Some [Obj 1, Obj 9, Obj 2, Raw]],
         log = [NewBlock 1 4, Construct (Some 1, 1), MoveConstruct (Some 1, 0) (Some 0, 0),
                MoveConstruct (Some 1, 2) (Some 0, 1), Destroy (Some 0, 0), Destroy (Some 0, 1),
                DeleteBlock 0],
         violations = []\<rparr>)"
    by code_simp
  have r4: "EmplaceWithRelocate move_only_throwing 2 (MoveFrom 9)
       \<lparr>data_m = \<lparr>buffer_m = Some 0, capacity_m = 2\<rparr>, size_m = 2\<rparr>
       \<lparr>heap = [Some [Obj 1, Obj 2]], log = [], violations = []\<rparr>
     = (Throws element_exception,
        \<lparr>data_m = \<lparr>buffer_m = Some 0, capacity_m = 2\<rparr>, size_m = 2\<rparr>,
        \<lparr>heap = [Some [Obj 0, Obj 2], None],
         log = [NewBlock 1 4, Construct (Some 1, 2), MoveConstruct (Some 1, 0) (Some 0, 0),
                Destroy (Some 1, 0), Destroy (Some 1, 2), DeleteBlock 1],
         violations = []\<rparr>)"
    by code_simp
  have c1: "holds \<lparr>data_m = \<lparr>buffer_m = Some 0, capacity_m = 2\<rparr>, size_m = 2\<rparr>
        \<lparr>heap = [Some [Obj 1, Obj 2], None],
         log = [NewBlock 1 4, Construct (Some 1, 2), CopyConstruct (Some 1, 0) (Some 0, 0),
                Destroy (Some 1, 0), Destroy (Some 1, 2), DeleteBlock 1],
         violations = []\<rparr> [1, 2::int]"
    using relocating_emplace_guarantee[OF h f i2 r1 ft1] by (simp add: second_copy_throws_def)
  have c2: "holds \<lparr>data_m = \<lparr>buffer_m = Some 0, capacity_m = 2\<rparr>, size_m = 2\<rparr>
        \<lparr>heap = [Some [Obj 1, Obj 2], None],
         log = [NewBlock 1 4, Construct (Some 1, 0), CopyConstruct (Some 1, 1) (Some 0, 0),
                Destroy (Some 1, 1), Destroy (Some 1, 0), DeleteBlock 1],
         violations = []\<rparr> [1, 2::int]"
    using relocating_emplace_guarantee[OF h f i0 r2 ft1] by (simp add: second_copy_throws_def)
  have c3: "block_at \<lparr>heap = [None, Some [Obj (1::int), Obj 9, Obj 2, Raw]],
         log = [NewBlock 1 4, Construct (Some 1, 1), MoveConstruct (Some 1, 0) (Some 0, 0),
                MoveConstruct (Some 1, 2) (Some 0, 1), Destroy (Some 0, 0), Destroy (Some 0, 1),
                DeleteBlock 0],
         violations = []\<rparr> 0 = None"
    using relocating_emplace_guarantee[OF h f i1 r3 ft2] by (auto dest!: spec[where x=0])
  have nc: "construct_T move_only_throwing (MoveFrom 9)
       (log \<lparr>heap = [Some [Obj 1, Obj 2]], log = [], violations = []\<rparr> @ [NewBlock (length (heap \<lparr>heap = [Some [Obj 1, Obj 2]], log = [], violations = []\<rparr>)) (if length [1, 2::int] = 0 then 1 else length [1, 2::int] * 2)]) \<noteq> None"
    by (simp add: construct_T_def move_only_throwing_def)
  have l0: "left_behind move_only_throwing 0 [1, 2::int] = [1, 2]"
    and l1: "left_behind move_only_throwing 1 [1, 2::int] = [0, 2]"
    by (simp_all add: left_behind_def move_only_throwing_def)
  have n0: "\<not> holds \<lparr>data_m = \<lparr>buffer_m = Some 0, capacity_m = 2\<rparr>, size_m = 2\<rparr>
        \<lparr>heap = [Some [Obj 0, Obj 2], None],
         log = [NewBlock 1 4, Construct (Some 1, 2), MoveConstruct (Some 1, 0) (Some 0, 0),
                Destroy (Some 1, 0), Destroy (Some 1, 2), DeleteBlock 1],
         violations = []\<rparr> [1, 2::int]"
    by code_simp
  from relocating_emplace_guarantee[OF h f i2 r4 ft3] nc
  obtain k where k: "k < 2"
    "holds \<lparr>data_m = \<lparr>buffer_m = Some 0, capacity_m = 2\<rparr>, size_m = 2\<rparr>
        \<lparr>heap = [Some [Obj 0, Obj 2], None],
         log = [NewBlock 1 4, Construct (Some 1, 2), MoveConstruct (Some 1, 0) (Some 0, 0),
                Destroy (Some 1, 0), Destroy (Some 1, 2), DeleteBlock 1],
         violations = []\<rparr> (left_behind move_only_throwing k [1, 2::int])"
    by auto
  from k(1) have "k = 0 \<or> k = 1" by auto
  with k(2) l0 l1 n0
  have c4: "holds \<lparr>data_m = \<lparr>buffer_m = Some 0, capacity_m = 2\<rparr>, size_m = 2\<rparr>
        \<lparr>heap = [Some [Obj 0, Obj 2], None],
         log = [NewBlock 1 4, Construct (Some 1, 2), MoveConstruct (Some 1, 0) (Some 0, 0),
                Destroy (Some 1, 0), Destroy (Some 1, 2), DeleteBlock 1],
         violations = []\<rparr> [0, 2::int]"
    by auto
  show ?thesis using h f ft1 ft2 ft3 r1 c1 r2 c2 r3 c3 r4 c4 by blast
qed

section \<open>What Erase destroys\<close>

text \<open>
  C1.  Let the vector hold \<open>xs\<close>, of length \<open>n\<close>, and let \<open>index < n\<close>.  When
  \<^verbatim>\<open>Erase(begin() + index)\<close> returns, the size is \<open>n - 1\<close> and the elements read by index are \<open>xs\<close>
  without the erased one, after the move assignments of the elements behind it one slot
  toward the front.  But the one destructor call is made at \<open>begin() + n\<close>, one slot behind the
  vacated slot \<open>n - 1\<close>: no object lives there, which the lifetime monitor records, and the
  object in slot \<open>n - 1\<close> (the moved-from last element, or the erased element itself when it was
  the last) is still alive, outside the vector's size.
  With a move assignment that never throws, \<^verbatim>\<open>Erase\<close> does return.
\<close>

theorem Erase_destroys_slot_past_the_end:
  fixes e :: "'a env" and w :: "'a world"
  assumes "holds this w xs" and "index < length xs"
  shows
   "(Erase e (ptr_add (Vector_begin this) index) this w = (Returns p, this', w') \<longrightarrow>
       size_m this' = length xs - 1 \<and>
       elements this' w' = map Some (take index xs @ drop (Suc index) xs) \<and>
       log w' = log w @ shift_events (buffer_m (data_m this)) index (length xs - Suc index)
                  @ [Destroy (ptr_add (Vector_begin this) (length xs))] \<and>
       violations w' = violations w @ [NoObject (ptr_add (Vector_begin this) (length xs))] \<and>
       obj_at w' (ptr_add (Vector_begin this) (length xs - 1))
         = Some (if Suc index = length xs then xs ! index else moved_from e (last xs))) \<and>
    ((\<forall>l y x. \<not> move_assign_throws e l y x) \<longrightarrow>
       (\<exists>q t u. Erase e (ptr_add (Vector_begin this) index) this w = (Returns q, t, u)))"
proof (intro conjI impI)
  assume r: "Erase e (ptr_add (Vector_begin this) index) this w = (Returns p, this', w')"
  note s = Erase_spec[OF assms r]
  from s show "size_m this' = length xs - 1" by auto
  from s show "elements this' w' = map Some (take index xs @ drop (Suc index) xs)" by auto
  from s show "log w' = log w @ shift_events (buffer_m (data_m this)) index (length xs - Suc index)
                  @ [Destroy (ptr_add (Vector_begin this) (length xs))]" by auto
  from s show "violations w' = violations w @ [NoObject (ptr_add (Vector_begin this) (length xs))]"
    by auto
  obtain a where a: "buffer_m (data_m this) = Some a"
    using holdsD(3)[OF assms(1)] assms(2) by (cases "buffer_m (data_m this)") auto
  define zs where "zs = take index xs @ drop (Suc index) xs"
  define v where "v = (if Suc index = length xs then xs ! index else moved_from e (last xs))"
  have lz: "length zs = length xs - 1" using assms(2) by (simp add: zs_def)
  from s have "block_at w' a = Some (map Obj zs @ Obj v # replicate (Capacity this - length xs) Raw)"
    by (simp add: a zs_def v_def)
  then have "obj_at w' (Some a, length zs) = Some v"
    by (simp add: obj_at_def slot_at_def nth_append)
  then show "obj_at w' (ptr_add (Vector_begin this) (length xs - 1))
         = Some (if Suc index = length xs then xs ! index else moved_from e (last xs))"
    by (simp add: lz v_def Vector_begin_def GetAddress_def ptr_add_def a)
next
  assume nt: "\<forall>l y x. \<not> move_assign_throws e l y x"
  obtain r t u where r: "Erase e (ptr_add (Vector_begin this) index) this w = (r, t, u)"
    by (cases "Erase e (ptr_add (Vector_begin this) index) this w") auto
  from Erase_spec[OF assms r] nt obtain q where "r = Returns q" by (cases r) auto
  with r show "\<exists>q t u. Erase e (ptr_add (Vector_begin this) index) this w = (Returns q, t, u)"
    by blast
qed

theorem Erase_destroys_slot_past_the_end_witness:
  "holds \<lparr>data_m = \<lparr>buffer_m = Some 0, capacity_m = 4\<rparr>, size_m = 3\<rparr>
     \<lparr>heap = [Some [Obj (1::int), Obj 2, Obj 3, Raw]], log = [], violations = []\<rparr> [1, 2, 3::int] \<and>
   Erase string_like (ptr_add (Vector_begin \<lparr>data_m = \<lparr>buffer_m = Some 0, capacity_m = 4\<rparr>, size_m = 3\<rparr>) 0)
       \<lparr>data_m = \<lparr>buffer_m = Some 0, capacity_m = 4\<rparr>, size_m = 3\<rparr>
       \<lparr>heap = [Some [Obj (1::int), Obj 2, Obj 3, Raw]], log = [], violations = []\<rparr>
     = (Returns (Some 0, 0),
        \<lparr>data_m = \<lparr>buffer_m = Some 0, capacity_m = 4\<rparr>, size_m = 2\<rparr>,
        \<lparr>heap = [Some [Obj 2, Obj 3, Obj 0, Raw]],
         log = [MoveAssign (Some 0, 0) (Some 0, 1), MoveAssign (Some 0, 1) (Some 0, 2),
                Destroy (Some 0, 3)],
         violations = [NoObject (Some 0, 3)]\<rparr>) \<and>
   elements \<lparr>data_m = \<lparr>buffer_m = Some 0, capacity_m = 4\<rparr>, size_m = 2\<rparr>
        \<lparr>heap = [Some [Obj 2, Obj 3, Obj 0, Raw]],
         log = [MoveAssign (Some 0, 0) (Some 0, 1), MoveAssign (Some 0, 1) (Some 0, 2),
                Destroy (Some 0, 3)],
         violations = [NoObject (Some 0, 3)]\<rparr> = [Some 2, Some (3::int)] \<and>
   obj_at \<lparr>heap = [Some [Obj 2, Obj 3, Obj 0, Raw]],
         log = [MoveAssign (Some 0, 0) (Some 0, 1), MoveAssign (Some 0, 1) (Some 0, 2),
                Destroy (Some 0, 3)],
         violations = [NoObject (Some 0, 3)]\<rparr> (Some 0, 2) = Some (0::int) \<and>
   PopBack \<lparr>data_m = \<lparr>buffer_m = Some 0, capacity_m = 4\<rparr>, size_m = 3\<rparr>
       \<lparr>heap = [Some [Obj (1::int), Obj 2, Obj 3, Raw]], log = [], violations = []\<rparr>
     = (\<lparr>data_m = \<lparr>buffer_m = Some 0, capacity_m = 4\<rparr>, size_m = 2\<rparr>,
        \<lparr>heap = [Some [Obj (1::int), Obj 2, Raw, Raw]], log = [Destroy (Some 0, 2)],
         violations = []\<rparr>) \<and>
   holds \<lparr>data_m = \<lparr>buffer_m = Some 0, capacity_m = 2\<rparr>, size_m = 2\<rparr>
     \<lparr>heap = [Some [Obj 1, Obj 2]], log = [], violations = []\<rparr> [1, 2::int] \<and>
   Erase string_like (ptr_add (Vector_begin \<lparr>data_m = \<lparr>buffer_m = Some 0, capacity_m = 2\<rparr>, size_m = 2\<rparr>) 1)
       \<lparr>data_m = \<lparr>buffer_m = Some 0, capacity_m = 2\<rparr>, size_m = 2\<rparr>
       \<lparr>heap = [Some [Obj 1, Obj 2]], log = [], violations = []\<rparr>
     = (Returns (Some 0, 1),
        \<lparr>data_m = \<lparr>buffer_m = Some 0, capacity_m = 2\<rparr>, size_m = 1\<rparr>,
        \<lparr>heap = [Some [Obj 1, Obj 2]], log = [Destroy (Some 0, 2)],
         violations = [NoObject (Some 0, 2)]\<rparr>) \<and>
   elements \<lparr>data_m = \<lparr>buffer_m = Some 0, capacity_m = 2\<rparr>, size_m = 1\<rparr>
        \<lparr>heap = [Some [Obj 1, Obj 2]], log = [Destroy (Some 0, 2)],
         violations = [NoObject (Some 0, 2)]\<rparr> = [Some (1::int)] \<and>
   obj_at \<lparr>heap = [Some [Obj 1, Obj 2]], log = [Destroy (Some 0, 2)],
         violations = [NoObject (Some 0, 2)]\<rparr> (Some 0, 1) = Some (2::int) \<and>
   (\<exists>q t u. Erase string_like (ptr_add (Vector_begin \<lparr>data_m = \<lparr>buffer_m = Some 0, capacity_m = 2\<rparr>, size_m = 2\<rparr>) 0)
       \<lparr>data_m = \<lparr>buffer_m = Some 0, capacity_m = 2\<rparr>, size_m = 2\<rparr>
       \<lparr>heap = [Some [Obj 1, Obj 2]], log = [], violations = []\<rparr> = (Returns q, t, u))"
proof -
  have h3: "holds \<lparr>data_m = \<lparr>buffer_m = Some 0, capacity_m = 4\<rparr>, size_m = 3\<rparr>
     \<lparr>heap = [Some [Obj (1::int), Obj 2, Obj 3, Raw]], log = [], violations = []\<rparr> [1, 2, 3::int]"
    by code_simp
  have h2: "holds \<lparr>data_m = \<lparr>buffer_m = Some 0, capacity_m = 2\<rparr>, size_m = 2\<rparr>
     \<lparr>heap = [Some [Obj 1, Obj 2]], log = [], violations = []\<rparr> [1, 2::int]"
    by code_simp
  have l3: "0 < length [1, 2, 3::int]"
    and l2: "1 < length [1, 2::int]" "0 < length [1, 2::int]"
    by simp_all
  have e1: "Erase string_like (ptr_add (Vector_begin \<lparr>data_m = \<lparr>buffer_m = Some 0, capacity_m = 4\<rparr>, size_m = 3\<rparr>) 0)
       \<lparr>data_m = \<lparr>buffer_m = Some 0, capacity_m = 4\<rparr>, size_m = 3\<rparr>
       \<lparr>heap = [Some [Obj (1::int), Obj 2, Obj 3, Raw]], log = [], violations = []\<rparr>
     = (Returns (Some 0, 0),
        \<lparr>data_m = \<lparr>buffer_m = Some 0, capacity_m = 4\<rparr>, size_m = 2\<rparr>,
        \<lparr>heap = [Some [Obj 2, Obj 3, Obj 0, Raw]],
         log = [MoveAssign (Some 0, 0) (Some 0, 1), MoveAssign (Some 0, 1) (Some 0, 2),
                Destroy (Some 0, 3)],
         violations = [NoObject (Some 0, 3)]\<rparr>)"
    by code_simp
  have e2: "Erase string_like (ptr_add (Vector_begin \<lparr>data_m = \<lparr>buffer_m = Some 0, capacity_m = 2\<rparr>, size_m = 2\<rparr>) 1)
       \<lparr>data_m = \<lparr>buffer_m = Some 0, capacity_m = 2\<rparr>, size_m = 2\<rparr>
       \<lparr>heap = [Some [Obj 1, Obj 2]], log = [], violations = []\<rparr>
     = (Returns (Some 0, 1),
        \<lparr>data_m = \<lparr>buffer_m = Some 0, capacity_m = 2\<rparr>, size_m = 1\<rparr>,
        \<lparr>heap = [Some [Obj 1, Obj 2]], log = [Destroy (Some 0, 2)],
         violations = [NoObject (Some 0, 2)]\<rparr>)"
    by code_simp
  have pb: "PopBack \<lparr>data_m = \<lparr>buffer_m = Some 0, capacity_m = 4\<rparr>, size_m = 3\<rparr>
       \<lparr>heap = [Some [Obj (1::int), Obj 2, Obj 3, Raw]], log = [], violations = []\<rparr>
     = (\<lparr>data_m = \<lparr>buffer_m = Some 0, capacity_m = 4\<rparr>, size_m = 2\<rparr>,
        \<lparr>heap = [Some [Obj (1::int), Obj 2, Raw, Raw]], log = [Destroy (Some 0, 2)],
         violations = []\<rparr>)"
    by code_simp
  have nt: "\<forall>l y x. \<not> move_assign_throws string_like l y (x::int)"
    by (simp add: string_like_def)
  note t1 = Erase_destroys_slot_past_the_end[OF h3 l3, THEN conjunct1, rule_format, OF e1]
  note t2 = Erase_destroys_slot_past_the_end[OF h2 l2(1), THEN conjunct1, rule_format, OF e2]
  have c1: "elements \<lparr>data_m = \<lparr>buffer_m = Some 0, capacity_m = 4\<rparr>, size_m = 2\<rparr>
        \<lparr>heap = [Some [Obj 2, Obj 3, Obj 0, Raw]],
         log = [MoveAssign (Some 0, 0) (Some 0, 1), MoveAssign (Some 0, 1) (Some 0, 2),
                Destroy (Some 0, 3)],
         violations = [NoObject (Some 0, 3)]\<rparr> = [Some 2, Some (3::int)] \<and>
   obj_at \<lparr>heap = [Some [Obj 2, Obj 3, Obj 0, Raw]],
         log = [MoveAssign (Some 0, 0) (Some 0, 1), MoveAssign (Some 0, 1) (Some 0, 2),
                Destroy (Some 0, 3)],
         violations = [NoObject (Some 0, 3)]\<rparr> (Some 0, 2) = Some (0::int)"
    using t1[THEN conjunct2, THEN conjunct1]
      t1[THEN conjunct2, THEN conjunct2, THEN conjunct2, THEN conjunct2]
    by (simp add: string_like_def Vector_begin_def GetAddress_def ptr_add_def numeral_2_eq_2)
  have c2: "elements \<lparr>data_m = \<lparr>buffer_m = Some 0, capacity_m = 2\<rparr>, size_m = 1\<rparr>
        \<lparr>heap = [Some [Obj 1, Obj 2]], log = [Destroy (Some 0, 2)],
         violations = [NoObject (Some 0, 2)]\<rparr> = [Some (1::int)] \<and>
   obj_at \<lparr>heap = [Some [Obj 1, Obj 2]], log = [Destroy (Some 0, 2)],
         violations = [NoObject (Some 0, 2)]\<rparr> (Some 0, 1) = Some (2::int)"
    using t2[THEN conjunct2, THEN conjunct1]
      t2[THEN conjunct2, THEN conjunct2, THEN conjunct2, THEN conjunct2]
    by (simp add: string_like_def Vector_begin_def GetAddress_def ptr_add_def numeral_2_eq_2)
  have c3: "(\<exists>q t u. Erase string_like (ptr_add (Vector_begin \<lparr>data_m = \<lparr>buffer_m = Some 0, capacity_m = 2\<rparr>, size_m = 2\<rparr>) 0)
       \<lparr>data_m = \<lparr>buffer_m = Some 0, capacity_m = 2\<rparr>, size_m = 2\<rparr>
       \<lparr>heap = [Some [Obj 1, Obj 2]], log = [], violations = []\<rparr> = (Returns q, t, u))"
    using Erase_destroys_slot_past_the_end[OF h2 l2(2), THEN conjunct2, THEN mp, OF nt] .
  show ?thesis using h3 e1 c1 pb h2 e2 c2 c3 by blast
qed

section \<open>Deleting a block that holds live elements\<close>

text \<open>
  C2.  Let the vector hold \<open>ys\<close>, not empty, in its block \<open>c\<close>.  Move assignment to it from another
  vector deletes \<open>c\<close> without a single destructor call: the only event is the deletion, and the
  lifetime monitor records that \<open>c\<close> was deleted with \<open>length ys\<close> live objects in it.  The
  destructor of the same vector destroys the \<open>length ys\<close> elements first and then deletes \<open>c\<close>,
  and nothing is violated.
\<close>

theorem move_assign_deletes_live_elements:
  assumes "holds this w ys" and "ys \<noteq> []"
  shows "\<exists>c. buffer_m (data_m this) = Some c \<and>
     (case Vector_move_assign this (Other rhs) w of
        (this', rhs', w') \<Rightarrow>
          log w' = log w @ [DeleteBlock c] \<and>
          violations w' = violations w @ [DeletedWithLive c (length ys)] \<and>
          block_at w' c = None) \<and>
     log (Vector_destroy this w)
       = log w @ destroy_events (Vector_begin this) (length ys) @ [DeleteBlock c] \<and>
     violations (Vector_destroy this w) = violations w \<and>
     block_at (Vector_destroy this w) c = None"
proof -
  obtain c where c: "buffer_m (data_m this) = Some c"
    using holdsD(3)[OF assms(1)] assms(2) by (cases "buffer_m (data_m this)") auto
  note hc = holdsD(4)[OF assms(1) c]
  note sz = holdsD(1)[OF assms(1)]
  define blk where "blk = map Obj ys @ replicate (Capacity this - length ys) Raw"
  have b: "block_at w c = Some blk" using hc by (simp add: blk_def)
  have lc: "live_count blk = length ys" by (simp add: blk_def live_count_def)
  note d = Deallocate_facts[OF b]
  have m: "Vector_move_assign this (Other rhs) w
       = (\<lparr>data_m = data_m rhs, size_m = size_m rhs\<rparr>,
          Other \<lparr>data_m = \<lparr>buffer_m = None, capacity_m = 0\<rparr>, size_m = 0\<rparr>,
          Deallocate (Some c) w)"
    by (simp add: Vector_move_assign_def RawMemory_move_assign_def c)
  have b0: "block_at w c = Some ([] @ map Obj ys @ replicate (Capacity this - length ys) Raw)"
    using hc by simp
  define w1 where "w1 = destroy_n (Some c, 0) (length ys) w"
  from destroy_n_live[OF b0, of 0] have
    w1b: "block_at w1 c = Some (replicate (length ys) Raw @ replicate (Capacity this - length ys) Raw)"
    and w1l: "log w1 = log w @ destroy_events (Some c, 0) (length ys)"
    and w1v: "violations w1 = violations w"
    by (simp_all add: w1_def)
  note d1 = Deallocate_facts[OF w1b]
  have vd: "Vector_destroy this w = Deallocate (Some c) w1"
    by (simp add: Vector_destroy_def RawMemory_destroy_def Vector_begin_def GetAddress_def c sz w1_def)
  have vb: "Vector_begin this = (Some c, 0)" by (simp add: Vector_begin_def GetAddress_def c)
  show ?thesis
    using assms(2) by (simp add: c m d lc vd d1 w1l w1v vb)
qed

theorem move_assign_deletes_live_elements_witness:
  "holds \<lparr>data_m = \<lparr>buffer_m = Some 0, capacity_m = 1\<rparr>, size_m = 1\<rparr>
     \<lparr>heap = [Some [Obj (7::int)], Some [Obj 1, Obj 2]], log = [], violations = []\<rparr> [7::int] \<and>
   holds \<lparr>data_m = \<lparr>buffer_m = Some 1, capacity_m = 2\<rparr>, size_m = 2\<rparr>
     \<lparr>heap = [Some [Obj (7::int)], Some [Obj 1, Obj 2]], log = [], violations = []\<rparr> [1, 2::int] \<and>
   Vector_move_assign \<lparr>data_m = \<lparr>buffer_m = Some 0, capacity_m = 1\<rparr>, size_m = 1\<rparr>
       (Other \<lparr>data_m = \<lparr>buffer_m = Some 1, capacity_m = 2\<rparr>, size_m = 2\<rparr>)
       \<lparr>heap = [Some [Obj (7::int)], Some [Obj 1, Obj 2]], log = [], violations = []\<rparr>
     = (\<lparr>data_m = \<lparr>buffer_m = Some 1, capacity_m = 2\<rparr>, size_m = 2\<rparr>,
        Other \<lparr>data_m = \<lparr>buffer_m = None, capacity_m = 0\<rparr>, size_m = 0\<rparr>,
        \<lparr>heap = [None, Some [Obj (1::int), Obj 2]], log = [DeleteBlock 0],
         violations = [DeletedWithLive 0 1]\<rparr>) \<and>
   Vector_destroy \<lparr>data_m = \<lparr>buffer_m = Some 0, capacity_m = 1\<rparr>, size_m = 1\<rparr>
       \<lparr>heap = [Some [Obj (7::int)], Some [Obj 1, Obj 2]], log = [], violations = []\<rparr>
     = \<lparr>heap = [None, Some [Obj (1::int), Obj 2]], log = [Destroy (Some 0, 0), DeleteBlock 0],
      violations = []\<rparr> \<and>
   (\<exists>c. buffer_m (data_m \<lparr>data_m = \<lparr>buffer_m = Some 0, capacity_m = 1\<rparr>, size_m = 1\<rparr>) = Some c \<and>
      violations \<lparr>heap = [None, Some [Obj (1::int), Obj 2]], log = [DeleteBlock 0],
         violations = [DeletedWithLive 0 1]\<rparr>
        = violations \<lparr>heap = [Some [Obj (7::int)], Some [Obj 1, Obj 2]], log = [], violations = []\<rparr>
            @ [DeletedWithLive c (length [7::int])] \<and>
      violations \<lparr>heap = [None, Some [Obj (1::int), Obj 2]], log = [Destroy (Some 0, 0), DeleteBlock 0],
      violations = []\<rparr> = violations \<lparr>heap = [Some [Obj (7::int)], Some [Obj 1, Obj 2]], log = [], violations = []\<rparr>)"
proof -
  have ha: "holds \<lparr>data_m = \<lparr>buffer_m = Some 0, capacity_m = 1\<rparr>, size_m = 1\<rparr>
     \<lparr>heap = [Some [Obj (7::int)], Some [Obj 1, Obj 2]], log = [], violations = []\<rparr> [7::int]"
    by code_simp
  have hb: "holds \<lparr>data_m = \<lparr>buffer_m = Some 1, capacity_m = 2\<rparr>, size_m = 2\<rparr>
     \<lparr>heap = [Some [Obj (7::int)], Some [Obj 1, Obj 2]], log = [], violations = []\<rparr> [1, 2::int]"
    by code_simp
  have ne: "[7::int] \<noteq> []"
    by simp
  have m: "Vector_move_assign \<lparr>data_m = \<lparr>buffer_m = Some 0, capacity_m = 1\<rparr>, size_m = 1\<rparr>
       (Other \<lparr>data_m = \<lparr>buffer_m = Some 1, capacity_m = 2\<rparr>, size_m = 2\<rparr>)
       \<lparr>heap = [Some [Obj (7::int)], Some [Obj 1, Obj 2]], log = [], violations = []\<rparr>
     = (\<lparr>data_m = \<lparr>buffer_m = Some 1, capacity_m = 2\<rparr>, size_m = 2\<rparr>,
        Other \<lparr>data_m = \<lparr>buffer_m = None, capacity_m = 0\<rparr>, size_m = 0\<rparr>,
        \<lparr>heap = [None, Some [Obj (1::int), Obj 2]], log = [DeleteBlock 0],
         violations = [DeletedWithLive 0 1]\<rparr>)"
    by code_simp
  have d: "Vector_destroy \<lparr>data_m = \<lparr>buffer_m = Some 0, capacity_m = 1\<rparr>, size_m = 1\<rparr>
       \<lparr>heap = [Some [Obj (7::int)], Some [Obj 1, Obj 2]], log = [], violations = []\<rparr>
     = \<lparr>heap = [None, Some [Obj (1::int), Obj 2]], log = [Destroy (Some 0, 0), DeleteBlock 0],
      violations = []\<rparr>"
    by code_simp
  have g: "(\<exists>c. buffer_m (data_m \<lparr>data_m = \<lparr>buffer_m = Some 0, capacity_m = 1\<rparr>, size_m = 1\<rparr>) = Some c \<and>
      violations \<lparr>heap = [None, Some [Obj (1::int), Obj 2]], log = [DeleteBlock 0],
         violations = [DeletedWithLive 0 1]\<rparr>
        = violations \<lparr>heap = [Some [Obj (7::int)], Some [Obj 1, Obj 2]], log = [], violations = []\<rparr>
            @ [DeletedWithLive c (length [7::int])] \<and>
      violations \<lparr>heap = [None, Some [Obj (1::int), Obj 2]], log = [Destroy (Some 0, 0), DeleteBlock 0],
      violations = []\<rparr> = violations \<lparr>heap = [Some [Obj (7::int)], Some [Obj 1, Obj 2]], log = [], violations = []\<rparr>)"
    using move_assign_deletes_live_elements[OF ha ne,
        of "\<lparr>data_m = \<lparr>buffer_m = Some 1, capacity_m = 2\<rparr>, size_m = 2\<rparr>"]
    unfolding m d by auto
  show ?thesis using ha hb m d g by blast
qed


section \<open>Insert, then Erase\<close>

text \<open>
  C7.  Let the vector hold \<open>xs\<close>, let \<open>p \<le> size\<close>, and let the bytes of the new capacity be
  countable in a \<^verbatim>\<open>size_t\<close> when the vector is full.  When \<^verbatim>\<open>Insert(begin() + p, v)\<close>, either
  overload, returns and
  \<^verbatim>\<open>Erase\<close> of the position it returned returns after it, the vector has the size it had before
  and what is read by index below the size is \<open>xs\<close> again.  But the vector is not restored: the
  destructor call of \<^verbatim>\<open>Erase\<close> was made at \<open>begin() + size + 1\<close>, where no object lives, which
  the lifetime monitor records, and the slot \<open>begin() + size\<close>, which was raw or did not exist
  before, now holds a live object (the moved-from last element, or \<open>v\<close> itself when \<open>p\<close> was the
  size).  So the vector does not satisfy the invariant of the data model, for any contents.
  With an element type and an allocator that never throw, both calls do return.
\<close>

theorem insert_then_erase_leaves_stale_object:
  fixes e :: "'a env" and w :: "'a world"
  assumes "holds this w xs" and "p \<le> length xs"
    and "size_m this = Capacity this \<Longrightarrow> fits e (if length xs = 0 then 1 else length xs * 2)"
  shows
   "(Insert e (ptr_add (Vector_begin this) p) v this w = (Returns q, this1, w1) \<or>
     Insert_move e (ptr_add (Vector_begin this) p) v this w = (Returns q, this1, w1) \<longrightarrow>
     Erase e q this1 w1 = (Returns q', this2, w2) \<longrightarrow>
       Size this2 = Size this \<and> elements this2 w2 = elements this w \<and>
       elements this w = map Some xs \<and>
       violations w2
         = violations w @ [NoObject (ptr_add (Vector_begin this2) (Suc (Size this2)))] \<and>
       obj_at w2 (ptr_add (Vector_begin this2) (Size this2))
         = Some (if p = length xs then v else moved_from e (last xs)) \<and>
       (\<forall>zs. \<not> holds this2 w2 zs)) \<and>
    (never_throws e \<longrightarrow>
       (\<exists>q1 t1 u1 q2 t2 u2.
          Insert e (ptr_add (Vector_begin this) p) v this w = (Returns q1, t1, u1) \<and>
          Erase e q1 t1 u1 = (Returns q2, t2, u2)) \<and>
       (\<exists>q1 t1 u1 q2 t2 u2.
          Insert_move e (ptr_add (Vector_begin this) p) v this w = (Returns q1, t1, u1) \<and>
          Erase e q1 t1 u1 = (Returns q2, t2, u2)))"
proof -
  define ys where "ys = take p xs @ v # drop p xs"
  define s where "s = (if p = length xs then v else moved_from e (last xs))"
  have ly: "p < length ys" "length ys - 1 = length xs" "length ys = Suc (length xs)"
    using assms(2) by (simp_all add: ys_def)
  have bk: "take p ys @ drop (Suc p) ys = xs" using assms(2) by (simp add: ys_def)
  have st: "(if Suc p = length ys then ys ! p else moved_from e (last ys)) = s"
    using assms(2) by (auto simp: ys_def s_def nth_append)
  have step: "Size t2 = Size this \<and> elements t2 u2 = elements this w \<and> elements this w = map Some xs \<and>
      violations u2 = violations w @ [NoObject (ptr_add (Vector_begin t2) (Suc (Size t2)))] \<and>
      obj_at u2 (ptr_add (Vector_begin t2) (Size t2)) = Some s \<and>
      (\<forall>zs. \<not> holds t2 u2 zs)"
    if i: "Emplace e (ptr_add (Vector_begin this) p) args this w = (Returns q1, t1, u1)"
      and av: "arg_value args = Some v"
      and r: "Erase e q1 t1 u1 = (Returns q2, t2, u2)" for args q1 t1 u1 q2 t2 u2
  proof -
    from Emplace_spec[OF assms(1,2) i assms(3)] av
    have q1: "q1 = ptr_add (Vector_begin t1) p" and h1: "holds t1 u1 ys"
      and v1: "violations u1 = violations w"
      by (auto simp: ys_def)
    obtain a where a: "buffer_m (data_m t1) = Some a"
      using holdsD(3)[OF h1] ly(3) by (cases "buffer_m (data_m t1)") auto
    from Erase_spec[OF h1 ly(1) r[unfolded q1]]
    have t2: "t2 = t1\<lparr>size_m := length ys - 1\<rparr>"
      and el: "elements t2 u2 = map Some (take p ys @ drop (Suc p) ys)"
      and v2: "violations u2 = violations u1 @ [NoObject (ptr_add (Vector_begin t1) (length ys))]"
      and b2: "block_at u2 a
           = Some (map Obj (take p ys @ drop (Suc p) ys)
                     @ Obj (if Suc p = length ys then ys ! p else moved_from e (last ys))
                     # replicate (Capacity t1 - length ys) Raw)"
      by (auto simp: a)
    have blk: "block_at u2 a = Some (map Obj xs @ Obj s # replicate (Capacity t1 - length ys) Raw)"
      using b2 by (simp add: bk st)
    have bg: "Vector_begin t2 = Vector_begin t1" by (simp add: t2 Vector_begin_def)
    have bga: "Vector_begin t2 = (Some a, 0)" by (simp add: t2 a Vector_begin_def GetAddress_def)
    have sz: "Suc (Size t2) = length ys" "Size t2 = length xs" "size_m t2 = length xs"
      using ly by (simp_all add: t2 Size_def)
    have stale: "obj_at u2 (ptr_add (Vector_begin t2) (Size t2)) = Some s"
      using blk by (simp add: bga sz obj_at_def slot_at_def nth_append)
    have nh: "\<not> holds t2 u2 zs" for zs
    proof
      assume hz: "holds t2 u2 zs"
      have lz: "length zs = length xs" using holdsD(1)[OF hz] sz(3) by simp
      have a2: "buffer_m (data_m t2) = Some a" by (simp add: t2 a)
      from holdsD(4)[OF hz a2] blk
      have "map Obj xs @ Obj s # replicate (Capacity t1 - length ys) Raw
              = map Obj zs @ replicate (Capacity t2 - length zs) Raw"
        by simp
      then have "Obj s # replicate (Capacity t1 - length ys) Raw = replicate (Capacity t2 - length zs) Raw"
        using lz by simp
      then show False by (cases "Capacity t2 - length zs") simp_all
    qed
    show ?thesis
      using t2 el v2 v1 bg sz bk ly(2) stale nh holds_elements[OF assms(1)] holdsD(1)[OF assms(1)]
      by (simp add: Size_def)
  qed
  have total: "\<exists>q1 t1 u1 q2 t2 u2.
          Emplace e (ptr_add (Vector_begin this) p) args this w = (Returns q1, t1, u1) \<and>
          Erase e q1 t1 u1 = (Returns q2, t2, u2)"
    if nt: "never_throws e" and av: "arg_value args = Some v" for args
  proof -
    obtain r1 t1 u1 where i: "Emplace e (ptr_add (Vector_begin this) p) args this w = (r1, t1, u1)"
      by (cases "Emplace e (ptr_add (Vector_begin this) p) args this w") auto
    from Emplace_spec[OF assms(1,2) i assms(3)] nt av obtain q1 where r1: "r1 = Returns q1"
      by (cases r1) auto
    from Emplace_spec[OF assms(1,2) i assms(3)] r1 av
    have q1: "q1 = ptr_add (Vector_begin t1) p" and h1: "holds t1 u1 ys"
      by (auto simp: ys_def)
    obtain r2 t2 u2 where r: "Erase e q1 t1 u1 = (r2, t2, u2)"
      by (cases "Erase e q1 t1 u1") auto
    from Erase_spec[OF h1 ly(1) r[unfolded q1]] nt obtain q2 where "r2 = Returns q2"
      by (cases r2) (auto simp: never_throws_def)
    with i r1 r show ?thesis by blast
  qed
  have cf: "arg_value (CopyFrom v) = Some v" and mf: "arg_value (MoveFrom v) = Some v"
    by (simp_all add: arg_value_def)
  show ?thesis
    using step[OF _ cf] step[OF _ mf] total[OF _ cf] total[OF _ mf]
    unfolding s_def Insert_def Insert_move_def by blast
qed

theorem insert_then_erase_leaves_stale_object_witness:
  "holds \<lparr>data_m = \<lparr>buffer_m = Some 0, capacity_m = 4\<rparr>, size_m = 3\<rparr>
     \<lparr>heap = [Some [Obj 1, Obj 2, Obj 3, Raw]], log = [], violations = []\<rparr> [1, 2, 3::int] \<and>
   fits string_like (if length [1, 2, 3::int] = 0 then 1 else length [1, 2, 3::int] * 2) \<and>
   Insert string_like (ptr_add (Vector_begin \<lparr>data_m = \<lparr>buffer_m = Some 0, capacity_m = 4\<rparr>, size_m = 3\<rparr>) 1) 9
       \<lparr>data_m = \<lparr>buffer_m = Some 0, capacity_m = 4\<rparr>, size_m = 3\<rparr>
       \<lparr>heap = [Some [Obj 1, Obj 2, Obj 3, Raw]], log = [], violations = []\<rparr>
     = (Returns (Some 0, 1),
        \<lparr>data_m = \<lparr>buffer_m = Some 0, capacity_m = 4\<rparr>, size_m = 4\<rparr>,
        \<lparr>heap = [Some [Obj 1, Obj 9, Obj 2, Obj 3]],
         log = [TempConstruct, MoveConstruct (Some 0, 3) (Some 0, 2),
                MoveAssign (Some 0, 2) (Some 0, 1), TempMoveAssign (Some 0, 1), TempDestroy],
         violations = []\<rparr>) \<and>
   Erase string_like (Some 0, 1)
       \<lparr>data_m = \<lparr>buffer_m = Some 0, capacity_m = 4\<rparr>, size_m = 4\<rparr>
       \<lparr>heap = [Some [Obj 1, Obj 9, Obj 2, Obj 3]],
         log = [TempConstruct, MoveConstruct (Some 0, 3) (Some 0, 2),
                MoveAssign (Some 0, 2) (Some 0, 1), TempMoveAssign (Some 0, 1), TempDestroy],
         violations = []\<rparr>
     = (Returns (Some 0, 1),
        \<lparr>data_m = \<lparr>buffer_m = Some 0, capacity_m = 4\<rparr>, size_m = 3\<rparr>,
        \<lparr>heap = [Some [Obj 1, Obj 2, Obj 3, Obj 0]],
         log = [TempConstruct, MoveConstruct (Some 0, 3) (Some 0, 2),
                MoveAssign (Some 0, 2) (Some 0, 1), TempMoveAssign (Some 0, 1), TempDestroy,
                MoveAssign (Some 0, 1) (Some 0, 2), MoveAssign (Some 0, 2) (Some 0, 3),
                Destroy (Some 0, 4)],
         violations = [NoObject (Some 0, 4)]\<rparr>) \<and>
   elements \<lparr>data_m = \<lparr>buffer_m = Some 0, capacity_m = 4\<rparr>, size_m = 3\<rparr>
        \<lparr>heap = [Some [Obj 1, Obj 2, Obj 3, Obj 0]],
         log = [TempConstruct, MoveConstruct (Some 0, 3) (Some 0, 2),
                MoveAssign (Some 0, 2) (Some 0, 1), TempMoveAssign (Some 0, 1), TempDestroy,
                MoveAssign (Some 0, 1) (Some 0, 2), MoveAssign (Some 0, 2) (Some 0, 3),
                Destroy (Some 0, 4)],
         violations = [NoObject (Some 0, 4)]\<rparr>
     = (elements \<lparr>data_m = \<lparr>buffer_m = Some 0, capacity_m = 4\<rparr>, size_m = 3\<rparr>
        \<lparr>heap = [Some [Obj 1, Obj 2, Obj 3, Raw]], log = [], violations = []\<rparr> :: int option list) \<and>
   elements \<lparr>data_m = \<lparr>buffer_m = Some 0, capacity_m = 4\<rparr>, size_m = 3\<rparr>
        \<lparr>heap = [Some [Obj 1, Obj 2, Obj 3, Raw]], log = [], violations = []\<rparr> = [Some 1, Some 2, Some (3::int)] \<and>
   obj_at \<lparr>heap = [Some [Obj 1, Obj 2, Obj 3, Obj 0]],
         log = [TempConstruct, MoveConstruct (Some 0, 3) (Some 0, 2),
                MoveAssign (Some 0, 2) (Some 0, 1), TempMoveAssign (Some 0, 1), TempDestroy,
                MoveAssign (Some 0, 1) (Some 0, 2), MoveAssign (Some 0, 2) (Some 0, 3),
                Destroy (Some 0, 4)],
         violations = [NoObject (Some 0, 4)]\<rparr> (Some 0, 3) = Some (0::int) \<and>
   \<not> holds \<lparr>data_m = \<lparr>buffer_m = Some 0, capacity_m = 4\<rparr>, size_m = 3\<rparr>
        \<lparr>heap = [Some [Obj 1, Obj 2, Obj 3, Obj 0]],
         log = [TempConstruct, MoveConstruct (Some 0, 3) (Some 0, 2),
                MoveAssign (Some 0, 2) (Some 0, 1), TempMoveAssign (Some 0, 1), TempDestroy,
                MoveAssign (Some 0, 1) (Some 0, 2), MoveAssign (Some 0, 2) (Some 0, 3),
                Destroy (Some 0, 4)],
         violations = [NoObject (Some 0, 4)]\<rparr> [1, 2, 3::int] \<and>
   holds \<lparr>data_m = \<lparr>buffer_m = Some 0, capacity_m = 2\<rparr>, size_m = 2\<rparr>
     \<lparr>heap = [Some [Obj 1, Obj 2]], log = [], violations = []\<rparr> [1, 2::int] \<and>
   fits string_like (if length [1, 2::int] = 0 then 1 else length [1, 2::int] * 2) \<and>
   Insert string_like (ptr_add (Vector_begin \<lparr>data_m = \<lparr>buffer_m = Some 0, capacity_m = 2\<rparr>, size_m = 2\<rparr>) 1) 9
       \<lparr>data_m = \<lparr>buffer_m = Some 0, capacity_m = 2\<rparr>, size_m = 2\<rparr>
       \<lparr>heap = [Some [Obj 1, Obj 2]], log = [], violations = []\<rparr>
     = (Returns (Some 1, 1),
        \<lparr>data_m = \<lparr>buffer_m = Some 1, capacity_m = 4\<rparr>, size_m = 3\<rparr>,
        \<lparr>heap = [None, Some [Obj 1, Obj 9, Obj 2, Raw]],
         log = [NewBlock 1 4, Construct (Some 1, 1), MoveConstruct (Some 1, 0) (Some 0, 0),
                MoveConstruct (Some 1, 2) (Some 0, 1), Destroy (Some 0, 0), Destroy (Some 0, 1),
                DeleteBlock 0],
         violations = []\<rparr>) \<and>
   Erase string_like (Some 1, 1)
       \<lparr>data_m = \<lparr>buffer_m = Some 1, capacity_m = 4\<rparr>, size_m = 3\<rparr>
       \<lparr>heap = [None, Some [Obj 1, Obj 9, Obj 2, Raw]],
         log = [NewBlock 1 4, Construct (Some 1, 1), MoveConstruct (Some 1, 0) (Some 0, 0),
                MoveConstruct (Some 1, 2) (Some 0, 1), Destroy (Some 0, 0), Destroy (Some 0, 1),
                DeleteBlock 0],
         violations = []\<rparr>
     = (Returns (Some 1, 1),
        \<lparr>data_m = \<lparr>buffer_m = Some 1, capacity_m = 4\<rparr>, size_m = 2\<rparr>,
        \<lparr>heap = [None, Some [Obj 1, Obj 2, Obj 0, Raw]],
         log = [NewBlock 1 4, Construct (Some 1, 1), MoveConstruct (Some 1, 0) (Some 0, 0),
                MoveConstruct (Some 1, 2) (Some 0, 1), Destroy (Some 0, 0), Destroy (Some 0, 1),
                DeleteBlock 0,
                MoveAssign (Some 1, 1) (Some 1, 2), Destroy (Some 1, 3)],
         violations = [NoObject (Some 1, 3)]\<rparr>) \<and>
   elements \<lparr>data_m = \<lparr>buffer_m = Some 1, capacity_m = 4\<rparr>, size_m = 2\<rparr>
        \<lparr>heap = [None, Some [Obj 1, Obj 2, Obj 0, Raw]],
         log = [NewBlock 1 4, Construct (Some 1, 1), MoveConstruct (Some 1, 0) (Some 0, 0),
                MoveConstruct (Some 1, 2) (Some 0, 1), Destroy (Some 0, 0), Destroy (Some 0, 1),
                DeleteBlock 0,
                MoveAssign (Some 1, 1) (Some 1, 2), Destroy (Some 1, 3)],
         violations = [NoObject (Some 1, 3)]\<rparr>
     = (elements \<lparr>data_m = \<lparr>buffer_m = Some 0, capacity_m = 2\<rparr>, size_m = 2\<rparr>
        \<lparr>heap = [Some [Obj 1, Obj 2]], log = [], violations = []\<rparr> :: int option list) \<and>
   elements \<lparr>data_m = \<lparr>buffer_m = Some 0, capacity_m = 2\<rparr>, size_m = 2\<rparr>
        \<lparr>heap = [Some [Obj 1, Obj 2]], log = [], violations = []\<rparr> = [Some 1, Some (2::int)] \<and>
   obj_at \<lparr>heap = [None, Some [Obj 1, Obj 2, Obj 0, Raw]],
         log = [NewBlock 1 4, Construct (Some 1, 1), MoveConstruct (Some 1, 0) (Some 0, 0),
                MoveConstruct (Some 1, 2) (Some 0, 1), Destroy (Some 0, 0), Destroy (Some 0, 1),
                DeleteBlock 0,
                MoveAssign (Some 1, 1) (Some 1, 2), Destroy (Some 1, 3)],
         violations = [NoObject (Some 1, 3)]\<rparr> (Some 1, 2) = Some (0::int) \<and>
   \<not> holds \<lparr>data_m = \<lparr>buffer_m = Some 1, capacity_m = 4\<rparr>, size_m = 2\<rparr>
        \<lparr>heap = [None, Some [Obj 1, Obj 2, Obj 0, Raw]],
         log = [NewBlock 1 4, Construct (Some 1, 1), MoveConstruct (Some 1, 0) (Some 0, 0),
                MoveConstruct (Some 1, 2) (Some 0, 1), Destroy (Some 0, 0), Destroy (Some 0, 1),
                DeleteBlock 0,
                MoveAssign (Some 1, 1) (Some 1, 2), Destroy (Some 1, 3)],
         violations = [NoObject (Some 1, 3)]\<rparr> [1, 2::int] \<and>
   never_throws string_like \<and>
   (\<exists>q1 t1 u1 q2 t2 u2.
      Insert string_like (ptr_add (Vector_begin \<lparr>data_m = \<lparr>buffer_m = Some 0, capacity_m = 2\<rparr>, size_m = 2\<rparr>) 2) 9
       \<lparr>data_m = \<lparr>buffer_m = Some 0, capacity_m = 2\<rparr>, size_m = 2\<rparr>
       \<lparr>heap = [Some [Obj 1, Obj 2]], log = [], violations = []\<rparr> = (Returns q1, t1, u1) \<and>
      Erase string_like q1 t1 u1 = (Returns q2, t2, u2))"
proof -
  have h3: "holds \<lparr>data_m = \<lparr>buffer_m = Some 0, capacity_m = 4\<rparr>, size_m = 3\<rparr>
     \<lparr>heap = [Some [Obj 1, Obj 2, Obj 3, Raw]], log = [], violations = []\<rparr> [1, 2, 3::int]"
    by code_simp
  have h2: "holds \<lparr>data_m = \<lparr>buffer_m = Some 0, capacity_m = 2\<rparr>, size_m = 2\<rparr>
     \<lparr>heap = [Some [Obj 1, Obj 2]], log = [], violations = []\<rparr> [1, 2::int]"
    by code_simp
  have l3: "1 \<le> length [1, 2, 3::int]"
    and l2: "1 \<le> length [1, 2::int]" "2 \<le> length [1, 2::int]"
    by simp_all
  have ft3: "fits string_like (if length [1, 2, 3::int] = 0 then 1 else length [1, 2, 3::int] * 2)"
    and ft2: "fits string_like (if length [1, 2::int] = 0 then 1 else length [1, 2::int] * 2)"
    by (simp_all add: fits_def SIZE_MAX_def string_like_def)
  have i1: "Insert string_like (ptr_add (Vector_begin \<lparr>data_m = \<lparr>buffer_m = Some 0, capacity_m = 4\<rparr>, size_m = 3\<rparr>) 1) 9
       \<lparr>data_m = \<lparr>buffer_m = Some 0, capacity_m = 4\<rparr>, size_m = 3\<rparr>
       \<lparr>heap = [Some [Obj 1, Obj 2, Obj 3, Raw]], log = [], violations = []\<rparr>
     = (Returns (Some 0, 1),
        \<lparr>data_m = \<lparr>buffer_m = Some 0, capacity_m = 4\<rparr>, size_m = 4\<rparr>,
        \<lparr>heap = [Some [Obj 1, Obj 9, Obj 2, Obj 3]],
         log = [TempConstruct, MoveConstruct (Some 0, 3) (Some 0, 2),
                MoveAssign (Some 0, 2) (Some 0, 1), TempMoveAssign (Some 0, 1), TempDestroy],
         violations = []\<rparr>)"
    by code_simp
  have e1: "Erase string_like (Some 0, 1)
       \<lparr>data_m = \<lparr>buffer_m = Some 0, capacity_m = 4\<rparr>, size_m = 4\<rparr>
       \<lparr>heap = [Some [Obj 1, Obj 9, Obj 2, Obj 3]],
         log = [TempConstruct, MoveConstruct (Some 0, 3) (Some 0, 2),
                MoveAssign (Some 0, 2) (Some 0, 1), TempMoveAssign (Some 0, 1), TempDestroy],
         violations = []\<rparr>
     = (Returns (Some 0, 1),
        \<lparr>data_m = \<lparr>buffer_m = Some 0, capacity_m = 4\<rparr>, size_m = 3\<rparr>,
        \<lparr>heap = [Some [Obj 1, Obj 2, Obj 3, Obj 0]],
         log = [TempConstruct, MoveConstruct (Some 0, 3) (Some 0, 2),
                MoveAssign (Some 0, 2) (Some 0, 1), TempMoveAssign (Some 0, 1), TempDestroy,
                MoveAssign (Some 0, 1) (Some 0, 2), MoveAssign (Some 0, 2) (Some 0, 3),
                Destroy (Some 0, 4)],
         violations = [NoObject (Some 0, 4)]\<rparr>)"
    by code_simp
  have i2: "Insert string_like (ptr_add (Vector_begin \<lparr>data_m = \<lparr>buffer_m = Some 0, capacity_m = 2\<rparr>, size_m = 2\<rparr>) 1) 9
       \<lparr>data_m = \<lparr>buffer_m = Some 0, capacity_m = 2\<rparr>, size_m = 2\<rparr>
       \<lparr>heap = [Some [Obj 1, Obj 2]], log = [], violations = []\<rparr>
     = (Returns (Some 1, 1),
        \<lparr>data_m = \<lparr>buffer_m = Some 1, capacity_m = 4\<rparr>, size_m = 3\<rparr>,
        \<lparr>heap = [None, Some [Obj 1, Obj 9, Obj 2, Raw]],
         log = [NewBlock 1 4, Construct (Some 1, 1), MoveConstruct (Some 1, 0) (Some 0, 0),
                MoveConstruct (Some 1, 2) (Some 0, 1), Destroy (Some 0, 0), Destroy (Some 0, 1),
                DeleteBlock 0],
         violations = []\<rparr>)"
    by code_simp
  have e2: "Erase string_like (Some 1, 1)
       \<lparr>data_m = \<lparr>buffer_m = Some 1, capacity_m = 4\<rparr>, size_m = 3\<rparr>
       \<lparr>heap = [None, Some [Obj 1, Obj 9, Obj 2, Raw]],
         log = [NewBlock 1 4, Construct (Some 1, 1), MoveConstruct (Some 1, 0) (Some 0, 0),
                MoveConstruct (Some 1, 2) (Some 0, 1), Destroy (Some 0, 0), Destroy (Some 0, 1),
                DeleteBlock 0],
         violations = []\<rparr>
     = (Returns (Some 1, 1),
        \<lparr>data_m = \<lparr>buffer_m = Some 1, capacity_m = 4\<rparr>, size_m = 2\<rparr>,
        \<lparr>heap = [None, Some [Obj 1, Obj 2, Obj 0, Raw]],
         log = [NewBlock 1 4, Construct (Some 1, 1), MoveConstruct (Some 1, 0) (Some 0, 0),
                MoveConstruct (Some 1, 2) (Some 0, 1), Destroy (Some 0, 0), Destroy (Some 0, 1),
                DeleteBlock 0,
                MoveAssign (Some 1, 1) (Some 1, 2), Destroy (Some 1, 3)],
         violations = [NoObject (Some 1, 3)]\<rparr>)"
    by code_simp
  have nt: "never_throws string_like"
    by (simp add: never_throws_def string_like_def)
  have c1: "elements \<lparr>data_m = \<lparr>buffer_m = Some 0, capacity_m = 4\<rparr>, size_m = 3\<rparr>
        \<lparr>heap = [Some [Obj 1, Obj 2, Obj 3, Obj 0]],
         log = [TempConstruct, MoveConstruct (Some 0, 3) (Some 0, 2),
                MoveAssign (Some 0, 2) (Some 0, 1), TempMoveAssign (Some 0, 1), TempDestroy,
                MoveAssign (Some 0, 1) (Some 0, 2), MoveAssign (Some 0, 2) (Some 0, 3),
                Destroy (Some 0, 4)],
         violations = [NoObject (Some 0, 4)]\<rparr>
     = (elements \<lparr>data_m = \<lparr>buffer_m = Some 0, capacity_m = 4\<rparr>, size_m = 3\<rparr>
        \<lparr>heap = [Some [Obj 1, Obj 2, Obj 3, Raw]], log = [], violations = []\<rparr> :: int option list) \<and>
   elements \<lparr>data_m = \<lparr>buffer_m = Some 0, capacity_m = 4\<rparr>, size_m = 3\<rparr>
        \<lparr>heap = [Some [Obj 1, Obj 2, Obj 3, Raw]], log = [], violations = []\<rparr> = [Some 1, Some 2, Some (3::int)] \<and>
   obj_at \<lparr>heap = [Some [Obj 1, Obj 2, Obj 3, Obj 0]],
         log = [TempConstruct, MoveConstruct (Some 0, 3) (Some 0, 2),
                MoveAssign (Some 0, 2) (Some 0, 1), TempMoveAssign (Some 0, 1), TempDestroy,
                MoveAssign (Some 0, 1) (Some 0, 2), MoveAssign (Some 0, 2) (Some 0, 3),
                Destroy (Some 0, 4)],
         violations = [NoObject (Some 0, 4)]\<rparr> (Some 0, 3) = Some (0::int) \<and>
   \<not> holds \<lparr>data_m = \<lparr>buffer_m = Some 0, capacity_m = 4\<rparr>, size_m = 3\<rparr>
        \<lparr>heap = [Some [Obj 1, Obj 2, Obj 3, Obj 0]],
         log = [TempConstruct, MoveConstruct (Some 0, 3) (Some 0, 2),
                MoveAssign (Some 0, 2) (Some 0, 1), TempMoveAssign (Some 0, 1), TempDestroy,
                MoveAssign (Some 0, 1) (Some 0, 2), MoveAssign (Some 0, 2) (Some 0, 3),
                Destroy (Some 0, 4)],
         violations = [NoObject (Some 0, 4)]\<rparr> [1, 2, 3::int]"
    using insert_then_erase_leaves_stale_object[OF h3 l3 ft3, THEN conjunct1, rule_format, OF disjI1[OF i1] e1,
        THEN conjunct2, THEN conjunct1]
      insert_then_erase_leaves_stale_object[OF h3 l3 ft3, THEN conjunct1, rule_format, OF disjI1[OF i1] e1,
        THEN conjunct2, THEN conjunct2, THEN conjunct1]
      insert_then_erase_leaves_stale_object[OF h3 l3 ft3, THEN conjunct1, rule_format, OF disjI1[OF i1] e1,
        THEN conjunct2, THEN conjunct2, THEN conjunct2, THEN conjunct2, THEN conjunct1]
      insert_then_erase_leaves_stale_object[OF h3 l3 ft3, THEN conjunct1, rule_format, OF disjI1[OF i1] e1,
        THEN conjunct2, THEN conjunct2, THEN conjunct2, THEN conjunct2, THEN conjunct2, THEN spec[where x="[1, 2, 3::int]"]]
    by (simp add: string_like_def Vector_begin_def GetAddress_def Size_def numeral_3_eq_3)
  have c2: "elements \<lparr>data_m = \<lparr>buffer_m = Some 1, capacity_m = 4\<rparr>, size_m = 2\<rparr>
        \<lparr>heap = [None, Some [Obj 1, Obj 2, Obj 0, Raw]],
         log = [NewBlock 1 4, Construct (Some 1, 1), MoveConstruct (Some 1, 0) (Some 0, 0),
                MoveConstruct (Some 1, 2) (Some 0, 1), Destroy (Some 0, 0), Destroy (Some 0, 1),
                DeleteBlock 0,
                MoveAssign (Some 1, 1) (Some 1, 2), Destroy (Some 1, 3)],
         violations = [NoObject (Some 1, 3)]\<rparr>
     = (elements \<lparr>data_m = \<lparr>buffer_m = Some 0, capacity_m = 2\<rparr>, size_m = 2\<rparr>
        \<lparr>heap = [Some [Obj 1, Obj 2]], log = [], violations = []\<rparr> :: int option list) \<and>
   elements \<lparr>data_m = \<lparr>buffer_m = Some 0, capacity_m = 2\<rparr>, size_m = 2\<rparr>
        \<lparr>heap = [Some [Obj 1, Obj 2]], log = [], violations = []\<rparr> = [Some 1, Some (2::int)] \<and>
   obj_at \<lparr>heap = [None, Some [Obj 1, Obj 2, Obj 0, Raw]],
         log = [NewBlock 1 4, Construct (Some 1, 1), MoveConstruct (Some 1, 0) (Some 0, 0),
                MoveConstruct (Some 1, 2) (Some 0, 1), Destroy (Some 0, 0), Destroy (Some 0, 1),
                DeleteBlock 0,
                MoveAssign (Some 1, 1) (Some 1, 2), Destroy (Some 1, 3)],
         violations = [NoObject (Some 1, 3)]\<rparr> (Some 1, 2) = Some (0::int) \<and>
   \<not> holds \<lparr>data_m = \<lparr>buffer_m = Some 1, capacity_m = 4\<rparr>, size_m = 2\<rparr>
        \<lparr>heap = [None, Some [Obj 1, Obj 2, Obj 0, Raw]],
         log = [NewBlock 1 4, Construct (Some 1, 1), MoveConstruct (Some 1, 0) (Some 0, 0),
                MoveConstruct (Some 1, 2) (Some 0, 1), Destroy (Some 0, 0), Destroy (Some 0, 1),
                DeleteBlock 0,
                MoveAssign (Some 1, 1) (Some 1, 2), Destroy (Some 1, 3)],
         violations = [NoObject (Some 1, 3)]\<rparr> [1, 2::int]"
    using insert_then_erase_leaves_stale_object[OF h2 l2(1) ft2, THEN conjunct1, rule_format, OF disjI1[OF i2] e2,
        THEN conjunct2, THEN conjunct1]
      insert_then_erase_leaves_stale_object[OF h2 l2(1) ft2, THEN conjunct1, rule_format, OF disjI1[OF i2] e2,
        THEN conjunct2, THEN conjunct2, THEN conjunct1]
      insert_then_erase_leaves_stale_object[OF h2 l2(1) ft2, THEN conjunct1, rule_format, OF disjI1[OF i2] e2,
        THEN conjunct2, THEN conjunct2, THEN conjunct2, THEN conjunct2, THEN conjunct1]
      insert_then_erase_leaves_stale_object[OF h2 l2(1) ft2, THEN conjunct1, rule_format, OF disjI1[OF i2] e2,
        THEN conjunct2, THEN conjunct2, THEN conjunct2, THEN conjunct2, THEN conjunct2, THEN spec[where x="[1, 2::int]"]]
    by (simp add: string_like_def Vector_begin_def GetAddress_def Size_def numeral_2_eq_2)
  have c3: "(\<exists>q1 t1 u1 q2 t2 u2.
      Insert string_like (ptr_add (Vector_begin \<lparr>data_m = \<lparr>buffer_m = Some 0, capacity_m = 2\<rparr>, size_m = 2\<rparr>) 2) 9
       \<lparr>data_m = \<lparr>buffer_m = Some 0, capacity_m = 2\<rparr>, size_m = 2\<rparr>
       \<lparr>heap = [Some [Obj 1, Obj 2]], log = [], violations = []\<rparr> = (Returns q1, t1, u1) \<and>
      Erase string_like q1 t1 u1 = (Returns q2, t2, u2))"
    using insert_then_erase_leaves_stale_object[OF h2 l2(2) ft2, THEN conjunct2, THEN mp, OF nt,
        THEN conjunct1] .
  show ?thesis using h3 ft3 i1 e1 c1 h2 ft2 i2 e2 c2 nt c3 by blast
qed

section \<open>The position that Emplace returns\<close>

text \<open>
  C10.  Let the vector hold \<open>xs\<close> and let \<open>pos\<close> be \<open>begin() + index\<close> with \<open>index \<le> size\<close>; when
  the vector is full, let the bytes of the new capacity be countable in a \<^verbatim>\<open>size_t\<close>.  When
  \<^verbatim>\<open>Emplace(pos, args...)\<close> returns, what it returns is \<open>begin() + index\<close> of the vector as it is
  now, the object there is the one constructed from the arguments, and the vector holds \<open>xs\<close>
  with that object inserted at \<open>index\<close>; this covers the path that relocates and the path that
  does not.  The same holds of both \<^verbatim>\<open>Insert\<close>, and \<^verbatim>\<open>EmplaceBack\<close> returns the last element of
  the vector, which is the new one.  With an element type and an allocator that never throw
  and arguments the constructor accepts, \<^verbatim>\<open>Emplace\<close> does return.
\<close>

theorem emplace_returns_position:
  fixes e :: "'a env" and w :: "'a world"
  assumes "holds this w xs" and "index \<le> length xs"
    and "size_m this = Capacity this \<Longrightarrow> fits e (if length xs = 0 then 1 else length xs * 2)"
  shows
   "(Emplace e (ptr_add (Vector_begin this) index) args this w = (Returns p, this', w') \<longrightarrow>
       p = ptr_add (Vector_begin this') index \<and>
       (\<exists>x. arg_value args = Some x \<and> obj_at w' p = Some x \<and>
            holds this' w' (take index xs @ x # drop index xs))) \<and>
    (Insert e (ptr_add (Vector_begin this) index) v this w = (Returns p, this', w') \<longrightarrow>
       p = ptr_add (Vector_begin this') index \<and> obj_at w' p = Some v \<and>
       holds this' w' (take index xs @ v # drop index xs)) \<and>
    (Insert_move e (ptr_add (Vector_begin this) index) v this w = (Returns p, this', w') \<longrightarrow>
       p = ptr_add (Vector_begin this') index \<and> obj_at w' p = Some v \<and>
       holds this' w' (take index xs @ v # drop index xs)) \<and>
    (EmplaceBack e args this w = (Returns p, this', w') \<longrightarrow>
       p = ptr_add (Vector_begin this') (Size this' - 1) \<and>
       (\<exists>x. arg_value args = Some x \<and> obj_at w' p = Some x \<and> holds this' w' (xs @ [x]))) \<and>
    (never_throws e \<longrightarrow> arg_value args \<noteq> None \<longrightarrow>
       (\<exists>q t u. Emplace e (ptr_add (Vector_begin this) index) args this w = (Returns q, t, u)))"
proof (intro conjI impI)
  assume r: "Emplace e (ptr_add (Vector_begin this) index) args this w = (Returns p, this', w')"
  from Emplace_spec[OF assms(1,2) r assms(3)]
  show "p = ptr_add (Vector_begin this') index"
    and "\<exists>x. arg_value args = Some x \<and> obj_at w' p = Some x \<and>
            holds this' w' (take index xs @ x # drop index xs)"
    by auto
next
  assume r: "Insert e (ptr_add (Vector_begin this) index) v this w = (Returns p, this', w')"
  from Emplace_spec[OF assms(1,2) r[unfolded Insert_def] assms(3)]
  show "p = ptr_add (Vector_begin this') index" and "obj_at w' p = Some v"
    and "holds this' w' (take index xs @ v # drop index xs)"
    by (auto simp: arg_value_def)
next
  assume r: "Insert_move e (ptr_add (Vector_begin this) index) v this w = (Returns p, this', w')"
  from Emplace_spec[OF assms(1,2) r[unfolded Insert_move_def] assms(3)]
  show "p = ptr_add (Vector_begin this') index" and "obj_at w' p = Some v"
    and "holds this' w' (take index xs @ v # drop index xs)"
    by (auto simp: arg_value_def)
next
  assume r: "EmplaceBack e args this w = (Returns p, this', w')"
  have e: "Vector_end this = ptr_add (Vector_begin this) (length xs)"
    using holdsD(1)[OF assms(1)] by (simp add: Vector_end_def)
  from Emplace_spec[OF assms(1) le_refl r[unfolded EmplaceBack_def e] assms(3)]
  obtain x where x: "p = ptr_add (Vector_begin this') (length xs)" "arg_value args = Some x"
    "obj_at w' p = Some x" "holds this' w' (xs @ [x])"
    by auto
  from holdsD(1)[OF x(4)] have "Size this' - 1 = length xs" by (simp add: Size_def)
  then show "p = ptr_add (Vector_begin this') (Size this' - 1)" using x(1) by simp
  show "\<exists>x. arg_value args = Some x \<and> obj_at w' p = Some x \<and> holds this' w' (xs @ [x])"
    using x by blast
next
  assume nt: "never_throws e" and av: "arg_value args \<noteq> None"
  obtain r t u where r: "Emplace e (ptr_add (Vector_begin this) index) args this w = (r, t, u)"
    by (cases "Emplace e (ptr_add (Vector_begin this) index) args this w") auto
  from Emplace_spec[OF assms(1,2) r assms(3)] nt av obtain q where "r = Returns q" by (cases r) auto
  with r show "\<exists>q t u. Emplace e (ptr_add (Vector_begin this) index) args this w = (Returns q, t, u)"
    by blast
qed

theorem emplace_returns_position_witness:
  "holds \<lparr>data_m = \<lparr>buffer_m = Some 0, capacity_m = 4\<rparr>, size_m = 3\<rparr>
     \<lparr>heap = [Some [Obj 1, Obj 2, Obj 3, Raw]], log = [], violations = []\<rparr> [1, 2, 3::int] \<and>
   fits string_like (if length [1, 2, 3::int] = 0 then 1 else length [1, 2, 3::int] * 2) \<and>
   Emplace string_like (ptr_add (Vector_begin \<lparr>data_m = \<lparr>buffer_m = Some 0, capacity_m = 4\<rparr>, size_m = 3\<rparr>) 1) (Direct (Some 9))
       \<lparr>data_m = \<lparr>buffer_m = Some 0, capacity_m = 4\<rparr>, size_m = 3\<rparr>
       \<lparr>heap = [Some [Obj 1, Obj 2, Obj 3, Raw]], log = [], violations = []\<rparr>
     = (Returns (Some 0, 1),
        \<lparr>data_m = \<lparr>buffer_m = Some 0, capacity_m = 4\<rparr>, size_m = 4\<rparr>,
        \<lparr>heap = [Some [Obj 1, Obj 9, Obj 2, Obj 3]],
         log = [TempConstruct, MoveConstruct (Some 0, 3) (Some 0, 2),
                MoveAssign (Some 0, 2) (Some 0, 1), TempMoveAssign (Some 0, 1), TempDestroy],
         violations = []\<rparr>) \<and>
   obj_at \<lparr>heap = [Some [Obj 1, Obj 9, Obj 2, Obj 3]],
         log = [TempConstruct, MoveConstruct (Some 0, 3) (Some 0, 2),
                MoveAssign (Some 0, 2) (Some 0, 1), TempMoveAssign (Some 0, 1), TempDestroy],
         violations = []\<rparr> (Some 0, 1) = Some (9::int) \<and>
   holds \<lparr>data_m = \<lparr>buffer_m = Some 0, capacity_m = 4\<rparr>, size_m = 4\<rparr>
        \<lparr>heap = [Some [Obj 1, Obj 9, Obj 2, Obj 3]],
         log = [TempConstruct, MoveConstruct (Some 0, 3) (Some 0, 2),
                MoveAssign (Some 0, 2) (Some 0, 1), TempMoveAssign (Some 0, 1), TempDestroy],
         violations = []\<rparr> [1, 9, 2, 3::int] \<and>
   holds \<lparr>data_m = \<lparr>buffer_m = Some 0, capacity_m = 2\<rparr>, size_m = 2\<rparr>
     \<lparr>heap = [Some [Obj 1, Obj 2]], log = [], violations = []\<rparr> [1, 2::int] \<and>
   fits string_like (if length [1, 2::int] = 0 then 1 else length [1, 2::int] * 2) \<and>
   Insert string_like (ptr_add (Vector_begin \<lparr>data_m = \<lparr>buffer_m = Some 0, capacity_m = 2\<rparr>, size_m = 2\<rparr>) 1) 9
       \<lparr>data_m = \<lparr>buffer_m = Some 0, capacity_m = 2\<rparr>, size_m = 2\<rparr>
       \<lparr>heap = [Some [Obj 1, Obj 2]], log = [], violations = []\<rparr>
     = (Returns (Some 1, 1),
        \<lparr>data_m = \<lparr>buffer_m = Some 1, capacity_m = 4\<rparr>, size_m = 3\<rparr>,
        \<lparr>heap = [None, Some [Obj 1, Obj 9, Obj 2, Raw]],
         log = [NewBlock 1 4, Construct (Some 1, 1), MoveConstruct (Some 1, 0) (Some 0, 0),
                MoveConstruct (Some 1, 2) (Some 0, 1), Destroy (Some 0, 0), Destroy (Some 0, 1),
                DeleteBlock 0],
         violations = []\<rparr>) \<and>
   obj_at \<lparr>heap = [None, Some [Obj 1, Obj 9, Obj 2, Raw]],
         log = [NewBlock 1 4, Construct (Some 1, 1), MoveConstruct (Some 1, 0) (Some 0, 0),
                MoveConstruct (Some 1, 2) (Some 0, 1), Destroy (Some 0, 0), Destroy (Some 0, 1),
                DeleteBlock 0],
         violations = []\<rparr> (Some 1, 1) = Some (9::int) \<and>
   holds \<lparr>data_m = \<lparr>buffer_m = Some 1, capacity_m = 4\<rparr>, size_m = 3\<rparr>
        \<lparr>heap = [None, Some [Obj 1, Obj 9, Obj 2, Raw]],
         log = [NewBlock 1 4, Construct (Some 1, 1), MoveConstruct (Some 1, 0) (Some 0, 0),
                MoveConstruct (Some 1, 2) (Some 0, 1), Destroy (Some 0, 0), Destroy (Some 0, 1),
                DeleteBlock 0],
         violations = []\<rparr> [1, 9, 2::int] \<and>
   EmplaceBack string_like (MoveFrom 9)
       \<lparr>data_m = \<lparr>buffer_m = Some 0, capacity_m = 4\<rparr>, size_m = 3\<rparr>
       \<lparr>heap = [Some [Obj 1, Obj 2, Obj 3, Raw]], log = [], violations = []\<rparr>
     = (Returns (Some 0, 3),
        \<lparr>data_m = \<lparr>buffer_m = Some 0, capacity_m = 4\<rparr>, size_m = 4\<rparr>,
        \<lparr>heap = [Some [Obj 1, Obj 2, Obj 3, Obj 9]], log = [Construct (Some 0, 3)],
         violations = []\<rparr>) \<and>
   obj_at \<lparr>heap = [Some [Obj 1, Obj 2, Obj 3, Obj 9]], log = [Construct (Some 0, 3)],
         violations = []\<rparr> (Some 0, 3) = Some (9::int) \<and>
   holds \<lparr>data_m = \<lparr>buffer_m = Some 0, capacity_m = 4\<rparr>, size_m = 4\<rparr>
        \<lparr>heap = [Some [Obj 1, Obj 2, Obj 3, Obj 9]], log = [Construct (Some 0, 3)],
         violations = []\<rparr> [1, 2, 3, 9::int] \<and>
   Insert_move string_like (ptr_add (Vector_begin \<lparr>data_m = \<lparr>buffer_m = Some 0, capacity_m = 4\<rparr>, size_m = 3\<rparr>) 3) 9
       \<lparr>data_m = \<lparr>buffer_m = Some 0, capacity_m = 4\<rparr>, size_m = 3\<rparr>
       \<lparr>heap = [Some [Obj 1, Obj 2, Obj 3, Raw]], log = [], violations = []\<rparr>
     = (Returns (Some 0, 3),
        \<lparr>data_m = \<lparr>buffer_m = Some 0, capacity_m = 4\<rparr>, size_m = 4\<rparr>,
        \<lparr>heap = [Some [Obj 1, Obj 2, Obj 3, Obj 9]], log = [Construct (Some 0, 3)],
         violations = []\<rparr>) \<and>
   never_throws string_like \<and>
   (\<exists>q t u. Emplace string_like (ptr_add (Vector_begin \<lparr>data_m = \<lparr>buffer_m = Some 0, capacity_m = 2\<rparr>, size_m = 2\<rparr>) 0) (CopyFrom 5)
       \<lparr>data_m = \<lparr>buffer_m = Some 0, capacity_m = 2\<rparr>, size_m = 2\<rparr>
       \<lparr>heap = [Some [Obj 1, Obj 2]], log = [], violations = []\<rparr> = (Returns q, t, u))"
proof -
  have h3: "holds \<lparr>data_m = \<lparr>buffer_m = Some 0, capacity_m = 4\<rparr>, size_m = 3\<rparr>
     \<lparr>heap = [Some [Obj 1, Obj 2, Obj 3, Raw]], log = [], violations = []\<rparr> [1, 2, 3::int]"
    by code_simp
  have h2: "holds \<lparr>data_m = \<lparr>buffer_m = Some 0, capacity_m = 2\<rparr>, size_m = 2\<rparr>
     \<lparr>heap = [Some [Obj 1, Obj 2]], log = [], violations = []\<rparr> [1, 2::int]"
    by code_simp
  have i3: "1 \<le> length [1, 2, 3::int]" "3 \<le> length [1, 2, 3::int]"
    and i2: "1 \<le> length [1, 2::int]" "0 \<le> length [1, 2::int]"
    by simp_all
  have ft3: "fits string_like (if length [1, 2, 3::int] = 0 then 1 else length [1, 2, 3::int] * 2)"
    and ft2: "fits string_like (if length [1, 2::int] = 0 then 1 else length [1, 2::int] * 2)"
    by (simp_all add: fits_def SIZE_MAX_def string_like_def)
  have r1: "Emplace string_like (ptr_add (Vector_begin \<lparr>data_m = \<lparr>buffer_m = Some 0, capacity_m = 4\<rparr>, size_m = 3\<rparr>) 1) (Direct (Some 9))
       \<lparr>data_m = \<lparr>buffer_m = Some 0, capacity_m = 4\<rparr>, size_m = 3\<rparr>
       \<lparr>heap = [Some [Obj 1, Obj 2, Obj 3, Raw]], log = [], violations = []\<rparr>
     = (Returns (Some 0, 1),
        \<lparr>data_m = \<lparr>buffer_m = Some 0, capacity_m = 4\<rparr>, size_m = 4\<rparr>,
        \<lparr>heap = [Some [Obj 1, Obj 9, Obj 2, Obj 3]],
         log = [TempConstruct, MoveConstruct (Some 0, 3) (Some 0, 2),
                MoveAssign (Some 0, 2) (Some 0, 1), TempMoveAssign (Some 0, 1), TempDestroy],
         violations = []\<rparr>)"
    by code_simp
  have r2: "Insert string_like (ptr_add (Vector_begin \<lparr>data_m = \<lparr>buffer_m = Some 0, capacity_m = 2\<rparr>, size_m = 2\<rparr>) 1) 9
       \<lparr>data_m = \<lparr>buffer_m = Some 0, capacity_m = 2\<rparr>, size_m = 2\<rparr>
       \<lparr>heap = [Some [Obj 1, Obj 2]], log = [], violations = []\<rparr>
     = (Returns (Some 1, 1),
        \<lparr>data_m = \<lparr>buffer_m = Some 1, capacity_m = 4\<rparr>, size_m = 3\<rparr>,
        \<lparr>heap = [None, Some [Obj 1, Obj 9, Obj 2, Raw]],
         log = [NewBlock 1 4, Construct (Some 1, 1), MoveConstruct (Some 1, 0) (Some 0, 0),
                MoveConstruct (Some 1, 2) (Some 0, 1), Destroy (Some 0, 0), Destroy (Some 0, 1),
                DeleteBlock 0],
         violations = []\<rparr>)"
    by code_simp
  have r3: "EmplaceBack string_like (MoveFrom 9)
       \<lparr>data_m = \<lparr>buffer_m = Some 0, capacity_m = 4\<rparr>, size_m = 3\<rparr>
       \<lparr>heap = [Some [Obj 1, Obj 2, Obj 3, Raw]], log = [], violations = []\<rparr>
     = (Returns (Some 0, 3),
        \<lparr>data_m = \<lparr>buffer_m = Some 0, capacity_m = 4\<rparr>, size_m = 4\<rparr>,
        \<lparr>heap = [Some [Obj 1, Obj 2, Obj 3, Obj 9]], log = [Construct (Some 0, 3)],
         violations = []\<rparr>)"
    by code_simp
  have r4: "Insert_move string_like (ptr_add (Vector_begin \<lparr>data_m = \<lparr>buffer_m = Some 0, capacity_m = 4\<rparr>, size_m = 3\<rparr>) 3) 9
       \<lparr>data_m = \<lparr>buffer_m = Some 0, capacity_m = 4\<rparr>, size_m = 3\<rparr>
       \<lparr>heap = [Some [Obj 1, Obj 2, Obj 3, Raw]], log = [], violations = []\<rparr>
     = (Returns (Some 0, 3),
        \<lparr>data_m = \<lparr>buffer_m = Some 0, capacity_m = 4\<rparr>, size_m = 4\<rparr>,
        \<lparr>heap = [Some [Obj 1, Obj 2, Obj 3, Obj 9]], log = [Construct (Some 0, 3)],
         violations = []\<rparr>)"
    by code_simp
  have nt: "never_throws string_like"
    by (simp add: never_throws_def string_like_def)
  have av: "arg_value (CopyFrom (5::int)) \<noteq> None"
    by (simp add: arg_value_def)
  have c1: "obj_at \<lparr>heap = [Some [Obj 1, Obj 9, Obj 2, Obj 3]],
         log = [TempConstruct, MoveConstruct (Some 0, 3) (Some 0, 2),
                MoveAssign (Some 0, 2) (Some 0, 1), TempMoveAssign (Some 0, 1), TempDestroy],
         violations = []\<rparr> (Some 0, 1) = Some (9::int) \<and>
   holds \<lparr>data_m = \<lparr>buffer_m = Some 0, capacity_m = 4\<rparr>, size_m = 4\<rparr>
        \<lparr>heap = [Some [Obj 1, Obj 9, Obj 2, Obj 3]],
         log = [TempConstruct, MoveConstruct (Some 0, 3) (Some 0, 2),
                MoveAssign (Some 0, 2) (Some 0, 1), TempMoveAssign (Some 0, 1), TempDestroy],
         violations = []\<rparr> [1, 9, 2, 3::int]"
    using emplace_returns_position[OF h3 i3(1) ft3, THEN conjunct1, rule_format, OF r1, THEN conjunct2]
    by (simp add: arg_value_def)
  have c2: "obj_at \<lparr>heap = [None, Some [Obj 1, Obj 9, Obj 2, Raw]],
         log = [NewBlock 1 4, Construct (Some 1, 1), MoveConstruct (Some 1, 0) (Some 0, 0),
                MoveConstruct (Some 1, 2) (Some 0, 1), Destroy (Some 0, 0), Destroy (Some 0, 1),
                DeleteBlock 0],
         violations = []\<rparr> (Some 1, 1) = Some (9::int) \<and>
   holds \<lparr>data_m = \<lparr>buffer_m = Some 1, capacity_m = 4\<rparr>, size_m = 3\<rparr>
        \<lparr>heap = [None, Some [Obj 1, Obj 9, Obj 2, Raw]],
         log = [NewBlock 1 4, Construct (Some 1, 1), MoveConstruct (Some 1, 0) (Some 0, 0),
                MoveConstruct (Some 1, 2) (Some 0, 1), Destroy (Some 0, 0), Destroy (Some 0, 1),
                DeleteBlock 0],
         violations = []\<rparr> [1, 9, 2::int]"
    using emplace_returns_position[OF h2 i2(1) ft2, THEN conjunct2, THEN conjunct1, rule_format, OF r2, THEN conjunct2]
    by simp
  have c3: "obj_at \<lparr>heap = [Some [Obj 1, Obj 2, Obj 3, Obj 9]], log = [Construct (Some 0, 3)],
         violations = []\<rparr> (Some 0, 3) = Some (9::int) \<and>
   holds \<lparr>data_m = \<lparr>buffer_m = Some 0, capacity_m = 4\<rparr>, size_m = 4\<rparr>
        \<lparr>heap = [Some [Obj 1, Obj 2, Obj 3, Obj 9]], log = [Construct (Some 0, 3)],
         violations = []\<rparr> [1, 2, 3, 9::int]"
    using emplace_returns_position[OF h3 i3(1) ft3, THEN conjunct2, THEN conjunct2, THEN conjunct2,
        THEN conjunct1, rule_format, OF r3, THEN conjunct2]
    by (simp add: arg_value_def)
  have c4: "(\<exists>q t u. Emplace string_like (ptr_add (Vector_begin \<lparr>data_m = \<lparr>buffer_m = Some 0, capacity_m = 2\<rparr>, size_m = 2\<rparr>) 0) (CopyFrom 5)
       \<lparr>data_m = \<lparr>buffer_m = Some 0, capacity_m = 2\<rparr>, size_m = 2\<rparr>
       \<lparr>heap = [Some [Obj 1, Obj 2]], log = [], violations = []\<rparr> = (Returns q, t, u))"
    using emplace_returns_position[OF h2 i2(2) ft2, THEN conjunct2, THEN conjunct2, THEN conjunct2,
        THEN conjunct2, rule_format, OF nt av] .
  show ?thesis using h3 ft3 r1 c1 h2 ft2 r2 c2 r3 c3 r4 nt c4 by blast
qed

end
